(* ===== verification/Bootstrap_Prelude.thy ===== *)
theory Bootstrap_Prelude
  imports Main "HOL-Library.Word"
begin

section \<open>Prelude: machine integers, bytes, memory blocks, results\<close>

text \<open>
  What every component shares.  \<open>std::size_t\<close> and \<open>std::atomic_ulong\<close> are 64 bits wide on the
  platforms the program runs on; they are naturals here with the wrap-around of addition and
  subtraction written out (\<open>u64_add\<close>, \<open>u64_sub\<close>).  The header fields (\<open>std::uint16_t\<close>,
  \<open>std::uint32_t\<close>) are words.  \<open>std::memcpy\<close> of an integer is its little-endian byte string
  (\<open>to_le\<close>, \<open>of_le\<close>), a \<open>memcpy\<close> into a memory block is \<open>memcpy_at\<close>.  The collections
  \<open>u64_simps\<close> and \<open>wire_defs\<close> gather the rewriting rules the component proofs pass to the
  simplifier.
\<close>

named_theorems u64_simps
named_theorems wire_defs

type_synonym byte = "8 word"
type_synonym index_type = "16 word"
type_synonym length_type = "32 word"
type_synonym msg_type = "16 word"

subsection \<open>64-bit unsigned arithmetic on naturals\<close>

abbreviation u64_limit :: nat where
  "u64_limit \<equiv> 18446744073709551616"

definition u64_add :: "nat \<Rightarrow> nat \<Rightarrow> nat" where
  "u64_add a b = (a + b) mod u64_limit"

definition u64_sub :: "nat \<Rightarrow> nat \<Rightarrow> nat" where
  "u64_sub a b = (a + (u64_limit - b mod u64_limit)) mod u64_limit"

lemma u64_add_small [u64_simps]: "a + b < u64_limit \<Longrightarrow> u64_add a b = a + b"
  by (simp add: u64_add_def)

lemma u64_sub_small [u64_simps]:
  assumes "b \<le> a" "a < u64_limit"
  shows "u64_sub a b = a - b"
proof -
  have "a + (u64_limit - b mod u64_limit) = u64_limit + (a - b)"
    using assms by simp
  then have "u64_sub a b = (u64_limit + (a - b)) mod u64_limit"
    by (simp only: u64_sub_def)
  also have "\<dots> = (a - b) mod u64_limit"
    by (rule mod_add_self1)
  also have "\<dots> = a - b"
    using assms by (intro mod_less) simp
  finally show ?thesis .
qed

lemma u64_add_less [simp]: "u64_add a b < u64_limit"
  by (simp add: u64_add_def)

lemma u64_sub_less [simp]: "u64_sub a b < u64_limit"
  by (simp add: u64_sub_def)

subsection \<open>Integers in memory\<close>

primrec to_le :: "nat \<Rightarrow> 'a::len word \<Rightarrow> byte list" where
  "to_le 0 w = []"
| "to_le (Suc n) w = ucast w # to_le n (drop_bit 8 w)"

primrec of_le :: "byte list \<Rightarrow> 'a::len word" where
  "of_le [] = 0"
| "of_le (b # bs) = or (ucast b) (push_bit 8 (of_le bs))"

lemma length_to_le [simp]: "length (to_le n w) = n"
  by (induction n arbitrary: w) auto

lemma of_le_to_le_take_bit: "of_le (to_le n w) = take_bit (8 * n) w"
proof (induction n arbitrary: w)
  case 0
  then show ?case by simp
next
  case (Suc n)
  show ?case
    unfolding to_le.simps of_le.simps Suc
    by (rule bit_word_eqI) (auto simp: bit_simps)
qed

lemma of_le_to_le: "8 * n = LENGTH('a) \<Longrightarrow> of_le (to_le n w) = (w :: 'a::len word)"
  by (simp add: of_le_to_le_take_bit)

lemma of_le_to_le_16 [simp]: "of_le (to_le 2 w) = (w :: 16 word)"
  by (rule of_le_to_le) simp

lemma of_le_to_le_32 [simp]: "of_le (to_le 4 w) = (w :: 32 word)"
  by (rule of_le_to_le) simp

subsection \<open>Memory blocks\<close>

text \<open>\<open>memcpy_at m t bs\<close> is the block \<open>m\<close> after \<open>memcpy(m + t, bs, length bs)\<close>; the caller keeps
  \<open>t + length bs \<le> length m\<close>.  \<open>mem_read m t n\<close> is what \<open>memcpy(_, m + t, n)\<close> reads.\<close>

definition memcpy_at :: "'a list \<Rightarrow> nat \<Rightarrow> 'a list \<Rightarrow> 'a list" where
  "memcpy_at m t bs = take t m @ bs @ drop (t + length bs) m"

definition mem_read :: "'a list \<Rightarrow> nat \<Rightarrow> nat \<Rightarrow> 'a list" where
  "mem_read m t n = take n (drop t m)"

lemma length_memcpy_at [simp]:
  "t + length bs \<le> length m \<Longrightarrow> length (memcpy_at m t bs) = length m"
  by (simp add: memcpy_at_def)

lemma nth_memcpy_at:
  assumes "t + length bs \<le> length m" "i < length m"
  shows "memcpy_at m t bs ! i =
    (if t \<le> i \<and> i < t + length bs then bs ! (i - t) else m ! i)"
proof -
  consider "i < t" | "t \<le> i" "i < t + length bs" | "t + length bs \<le> i" by linarith
  then show ?thesis
    using assms by cases (auto simp: memcpy_at_def nth_append)
qed

lemma length_mem_read [simp]: "t + n \<le> length m \<Longrightarrow> length (mem_read m t n) = n"
  by (simp add: mem_read_def)

lemma nth_mem_read [simp]: "t + n \<le> length m \<Longrightarrow> i < n \<Longrightarrow> mem_read m t n ! i = m ! (t + i)"
  by (simp add: mem_read_def)

lemma memcpy_at_Nil [simp]: "memcpy_at m t [] = m"
  by (simp add: memcpy_at_def)

lemma window_extend:
  assumes "m \<le> n" "n \<le> length xs"
  shows "drop m (take n xs) @ take k (drop n xs) = drop m (take (n + k) xs)"
  using assms by (simp add: take_add)

subsection \<open>Positions in a ring of \<open>c\<close> cells\<close>

text \<open>The distance from position \<open>p mod c\<close> forward to cell \<open>i\<close>.\<close>

definition ring_dist :: "nat \<Rightarrow> nat \<Rightarrow> nat \<Rightarrow> nat" where
  "ring_dist c p i = (i + c - p mod c) mod c"

lemma ring_dist_after:
  assumes "0 < c" "j < c"
  shows "ring_dist c p ((p + j) mod c) = j"
proof (cases "p mod c + j < c")
  case True
  have "(p + j) mod c = (p mod c + j) mod c"
    by (simp add: mod_add_left_eq)
  then have "(p + j) mod c = p mod c + j" using True by simp
  then show ?thesis using assms by (simp add: ring_dist_def)
next
  case False
  have "(p + j) mod c = (p mod c + j) mod c"
    by (simp add: mod_add_left_eq)
  moreover have "p mod c < c" using assms by simp
  then have "p mod c + j - c < c" using assms by linarith
  then have "(p mod c + j) mod c = p mod c + j - c"
    using False by (simp add: le_mod_geq)
  ultimately have "(p + j) mod c = p mod c + j - c" by simp
  moreover have "p mod c + j - c + c - p mod c = j" using False assms by simp
  ultimately show ?thesis using assms by (simp add: ring_dist_def)
qed

lemma ring_dist_before:
  assumes "0 < c" "0 < d" "d \<le> c" "d \<le> p"
  shows "ring_dist c p ((p - d) mod c) = c - d"
proof -
  have "(p + (c - d)) mod c = ((p - d) + c) mod c"
    using assms by simp
  then have "(p - d) mod c = (p + (c - d)) mod c" by simp
  moreover have "ring_dist c p ((p + (c - d)) mod c) = c - d"
    using assms by (intro ring_dist_after) auto
  ultimately show ?thesis by simp
qed

end
