(* ===== verification/Monitor_Constants.thy ===== *)
theory Monitor_Constants
  imports Bootstrap_Prelude
begin

section \<open>Status and reason codes, \<open>tgctl::runtime_error\<close>, SQL statement kinds\<close>

text \<open>
  \<^verbatim>\<open>src/tateyama/monitor/constants.h\<close>, \<^verbatim>\<open>constants_request.h\<close>,
  \<^verbatim>\<open>src/tateyama/tgctl/runtime_error.h\<close> and \<^verbatim>\<open>tgctl.h\<close>: the enumerations with their numeric
  values and their printed names, the exception every component raises, and the classification of
  an SQL text by its leading keyword.
\<close>

subsection \<open>\<open>monitor::status\<close> and \<open>monitor::reason\<close>\<close>

datatype status =
    status_stop | status_ready | status_activated | status_deactivating | status_deactivated
  | status_boot_error | status_unknown

fun status_value :: "status \<Rightarrow> int" where
  "status_value status_stop = 0"
| "status_value status_ready = 1"
| "status_value status_activated = 2"
| "status_value status_deactivating = 3"
| "status_value status_deactivated = 4"
| "status_value status_boot_error = 10"
| "status_value status_unknown = -1"

datatype reason =
    reason_absent
  | reason_connection | reason_not_found | reason_ambiguous | reason_permission
  | reason_variable_not_defined | reason_variable_invalid_value
  | reason_authentication_failure | reason_connection_timeout | reason_connection_failure
  | reason_io | reason_server | reason_interrupted | reason_internal
  | reason_request_missing | reason_payload_broken | reason_sql_missing | reason_sql_unresolved
  | reason_initialization | reason_another_process | reason_invalid_status
  | reason_invalid_argument | reason_timeout
  | reason_unknown

fun reason_value :: "reason \<Rightarrow> int" where
  "reason_value reason_absent = 0"
| "reason_value reason_connection = 1"
| "reason_value reason_not_found = 2"
| "reason_value reason_ambiguous = 3"
| "reason_value reason_permission = 4"
| "reason_value reason_variable_not_defined = 5"
| "reason_value reason_variable_invalid_value = 6"
| "reason_value reason_authentication_failure = 11"
| "reason_value reason_connection_timeout = 12"
| "reason_value reason_connection_failure = 13"
| "reason_value reason_io = 14"
| "reason_value reason_server = 15"
| "reason_value reason_interrupted = 16"
| "reason_value reason_internal = 17"
| "reason_value reason_request_missing = 20"
| "reason_value reason_payload_broken = 21"
| "reason_value reason_sql_missing = 22"
| "reason_value reason_sql_unresolved = 23"
| "reason_value reason_initialization = 30"
| "reason_value reason_another_process = 31"
| "reason_value reason_invalid_status = 32"
| "reason_value reason_invalid_argument = 33"
| "reason_value reason_timeout = 34"
| "reason_value reason_unknown = -1"

fun status_to_string_view :: "status \<Rightarrow> string" where
  "status_to_string_view status_stop = ''stop''"
| "status_to_string_view status_ready = ''starting''"
| "status_to_string_view status_activated = ''running''"
| "status_to_string_view status_deactivating = ''shutdown''"
| "status_to_string_view status_deactivated = ''shutdown''"
| "status_to_string_view status_boot_error = ''boot_error''"
| "status_to_string_view status_unknown = ''disconnected''"

fun reason_to_string_view :: "reason \<Rightarrow> string" where
  "reason_to_string_view reason_absent = ''absent''"
| "reason_to_string_view reason_connection = ''connection''"
| "reason_to_string_view reason_server = ''server''"
| "reason_to_string_view reason_not_found = ''not_found''"
| "reason_to_string_view reason_ambiguous = ''ambiguous''"
| "reason_to_string_view reason_permission = ''permission''"
| "reason_to_string_view reason_variable_not_defined = ''variable_not_defined''"
| "reason_to_string_view reason_variable_invalid_value = ''variable_invalid_value''"
| "reason_to_string_view reason_authentication_failure = ''authentication_failure''"
| "reason_to_string_view reason_connection_timeout = ''connection_timeout''"
| "reason_to_string_view reason_connection_failure = ''connection_failure''"
| "reason_to_string_view reason_io = ''io''"
| "reason_to_string_view reason_interrupted = ''interrupted''"
| "reason_to_string_view reason_internal = ''internal''"
| "reason_to_string_view reason_request_missing = ''request_missing''"
| "reason_to_string_view reason_payload_broken = ''payload_broken''"
| "reason_to_string_view reason_sql_missing = ''sql_missing''"
| "reason_to_string_view reason_sql_unresolved = ''sql_unresolved''"
| "reason_to_string_view reason_initialization = ''initialization''"
| "reason_to_string_view reason_another_process = ''another_process''"
| "reason_to_string_view reason_invalid_status = ''invalid_status''"
| "reason_to_string_view reason_invalid_argument = ''invalid_argument''"
| "reason_to_string_view reason_timeout = ''timeout''"
| "reason_to_string_view reason_unknown = ''unknown''"

lemma reason_to_string_view_inj: "reason_to_string_view r = reason_to_string_view r' \<Longrightarrow> r = r'"
  by (cases r; cases r') simp_all

subsection \<open>\<open>tgctl::return_code\<close> and \<open>tgctl::runtime_error\<close>\<close>

datatype return_code = rc_ok | rc_err

fun return_code_value :: "return_code \<Rightarrow> int" where
  "return_code_value rc_ok = 0"
| "return_code_value rc_err = 1"

datatype runtime_error = runtime_error (code: reason) (what: string)

text \<open>An operation that may throw \<open>tgctl::runtime_error\<close> returns \<open>Inl\<close> of the exception.\<close>

type_synonym 'a result = "runtime_error + 'a"

subsection \<open>Kinds of SQL statements\<close>

datatype type_of_sql =
    sql_begin | sql_commit | sql_rollback | sql_prepare | sql_query | sql_statement
  | sql_explain | sql_dump | sql_load | sql_others | sql_unknown

fun type_of_sql_to_string_view :: "type_of_sql \<Rightarrow> string" where
  "type_of_sql_to_string_view sql_begin = ''begin''"
| "type_of_sql_to_string_view sql_commit = ''commit''"
| "type_of_sql_to_string_view sql_rollback = ''rollback''"
| "type_of_sql_to_string_view sql_prepare = ''prepare''"
| "type_of_sql_to_string_view sql_query = ''query''"
| "type_of_sql_to_string_view sql_statement = ''statement''"
| "type_of_sql_to_string_view sql_explain = ''explain''"
| "type_of_sql_to_string_view sql_dump = ''dump''"
| "type_of_sql_to_string_view sql_load = ''load''"
| "type_of_sql_to_string_view sql_others = ''others''"
| "type_of_sql_to_string_view sql_unknown = ''unknown''"

text \<open>The C locale: \<open>\s\<close> of \<open>std::regex\<close> is \<open>isspace\<close>, and \<open>strncasecmp\<close> compares \<open>tolower\<close> of
  the characters up to the length given or to the first NUL character.\<close>

definition is_space :: "char \<Rightarrow> bool" where
  "is_space ch \<longleftrightarrow> of_char ch = (32::nat) \<or> (9 \<le> (of_char ch :: nat) \<and> of_char ch \<le> (13::nat))"

definition to_lower :: "char \<Rightarrow> char" where
  "to_lower ch = (let n = (of_char ch :: nat)
                  in if 65 \<le> n \<and> n \<le> 90 then char_of (n + 32) else ch)"

fun strncasecmp_eq :: "string \<Rightarrow> string \<Rightarrow> nat \<Rightarrow> bool" where
  "strncasecmp_eq s p 0 = True"
| "strncasecmp_eq [] [] (Suc n) = True"
| "strncasecmp_eq [] (d # p) (Suc n) = (d = CHR 0x00)"
| "strncasecmp_eq (ch # s) [] (Suc n) = (ch = CHR 0x00)"
| "strncasecmp_eq (ch # s) (d # p) (Suc n) =
     (to_lower ch = to_lower d \<and> (ch = CHR 0x00 \<or> strncasecmp_eq s p n))"

definition begins_with :: "string \<Rightarrow> string \<Rightarrow> bool" where
  "begins_with sql pattern = strncasecmp_eq (dropWhile is_space sql) pattern (length pattern)"

definition identify_sql_type :: "string \<Rightarrow> type_of_sql" where
  "identify_sql_type sql =
     (if begins_with sql ''begin'' then sql_begin
      else if begins_with sql ''commit'' then sql_commit
      else if begins_with sql ''rollback'' then sql_rollback
      else if begins_with sql ''prepare'' then sql_prepare
      else if begins_with sql ''select'' then sql_query
      else if begins_with sql ''insert'' \<or> begins_with sql ''update'' \<or> begins_with sql ''delete''
      then sql_statement
      else if begins_with sql ''explain'' then sql_explain
      else if begins_with sql ''dump'' then sql_dump
      else if begins_with sql ''load'' then sql_load
      else sql_others)"

lemma to_lower_idem [simp]: "to_lower (to_lower ch) = to_lower ch"
proof (cases "65 \<le> (of_char ch :: nat) \<and> (of_char ch :: nat) \<le> 90")
  case True
  then have lower: "to_lower ch = char_of (of_char ch + 32 :: nat)"
    by (simp add: to_lower_def Let_def)
  have "of_char (to_lower ch) = (of_char ch + 32 :: nat)"
    unfolding lower using True by (simp add: of_char_of)
  then show ?thesis
    using True by (simp add: to_lower_def [of "to_lower ch"] Let_def)
next
  case False
  then have "to_lower ch = ch" by (auto simp: to_lower_def Let_def)
  then show ?thesis by simp
qed

lemma to_lower_NUL [simp]: "to_lower (CHR 0x00) = CHR 0x00"
  by (simp add: to_lower_def)

lemma strncasecmp_eq_prefix:
  assumes "CHR 0x00 \<notin> set p" "map to_lower p = p"
  shows "strncasecmp_eq s p (length p) \<longleftrightarrow> map to_lower (take (length p) s) = p"
  using assms
proof (induction p arbitrary: s)
  case Nil
  then show ?case by simp
next
  case (Cons d p)
  show ?case
  proof (cases s)
    case Nil
    with Cons.prems show ?thesis by auto
  next
    case s: (Cons ch s')
    have "CHR 0x00 \<notin> set p" "map to_lower p = p" "to_lower d = d" "d \<noteq> CHR 0x00"
      using Cons.prems by auto
    then show ?thesis
      using s Cons.IH [of s'] by auto
  qed
qed

end
