(* ===== verification/Wire_Header.thy ===== *)
theory Wire_Header
  imports Monitor_Constants
begin

section \<open>Message headers of the shared-memory wires\<close>

text \<open>
  The classes \<open>message_header\<close>, \<open>response_header\<close> and \<open>length_header\<close> of
  \<^verbatim>\<open>src/tateyama/transport/wire.h\<close>.  A wire is the class template \<open>simple_wire<T>\<close>; what it uses of
  its parameter \<open>T\<close> is the record \<open>header_ops\<close>, and what it relies on is the locale
  \<open>wire_header\<close>, interpreted below on the three header classes.
\<close>

subsection \<open>What \<open>simple_wire<T>\<close> uses of \<open>T\<close>\<close>

record 'h header_ops =
  hdr_size :: nat
  hdr_get_length :: "'h \<Rightarrow> nat"
  hdr_get_buffer :: "'h \<Rightarrow> byte list"
  hdr_of_buffer :: "byte list \<Rightarrow> 'h"
  hdr_default :: 'h

locale wire_header =
  fixes T :: "'h header_ops"
  assumes length_get_buffer [simp]: "length (hdr_get_buffer T h) = hdr_size T"
    and of_buffer_get_buffer [simp]: "hdr_of_buffer T (hdr_get_buffer T h) = h"
    and size_pos [simp]: "0 < hdr_size T"
    and size_bound: "hdr_size T \<le> 8"
    and get_length_bound: "hdr_get_length T h < 2 ^ 32"
begin

lemma get_buffer_inj: "hdr_get_buffer T h = hdr_get_buffer T h' \<longleftrightarrow> h = h'"
  by (metis of_buffer_get_buffer)

lemma get_buffer_not_Nil [simp]: "hdr_get_buffer T h \<noteq> []"
proof
  assume "hdr_get_buffer T h = []"
  then have "length (hdr_get_buffer T h) = 0" by simp
  then show False using size_pos by simp
qed

text \<open>Where a header starts in a byte stream, the header and what follows it are determined.\<close>

lemma header_unique_prefix:
  "hdr_get_buffer T h @ xs = hdr_get_buffer T h' @ ys \<longleftrightarrow> h = h' \<and> xs = ys"
  by (simp add: get_buffer_inj)

lemma message_length_bound: "hdr_get_length T h + hdr_size T < u64_limit"
  using get_length_bound [of h] size_bound by simp

end

subsection \<open>\<open>message_header\<close>\<close>

record message_header =
  mh_idx :: index_type
  mh_length :: length_type

definition mh_terminate_request :: index_type where
  "mh_terminate_request = 0xffff"

definition mh_size :: nat where
  "mh_size = 4 + 2"

definition mk_message_header :: "index_type \<Rightarrow> length_type \<Rightarrow> message_header" where
  "mk_message_header idx len = \<lparr>mh_idx = idx, mh_length = len\<rparr>"

definition mh_of_buffer :: "byte list \<Rightarrow> message_header" where
  "mh_of_buffer buffer =
     \<lparr>mh_idx = of_le (mem_read buffer 0 2), mh_length = of_le (mem_read buffer 2 4)\<rparr>"

definition mh_get_buffer :: "message_header \<Rightarrow> byte list" where
  "mh_get_buffer h = to_le 2 (mh_idx h) @ to_le 4 (mh_length h)"

definition message_header_ops :: "message_header header_ops" where
  "message_header_ops =
     \<lparr>hdr_size = mh_size, hdr_get_length = (\<lambda>h. unat (mh_length h)),
      hdr_get_buffer = mh_get_buffer, hdr_of_buffer = mh_of_buffer,
      hdr_default = mk_message_header 0 0\<rparr>"

subsection \<open>\<open>response_header\<close>\<close>

record response_header =
  rh_idx :: index_type
  rh_type :: msg_type
  rh_length :: length_type

definition rh_size :: nat where
  "rh_size = 4 + 2 + 2"

definition mk_response_header :: "index_type \<Rightarrow> length_type \<Rightarrow> msg_type \<Rightarrow> response_header" where
  "mk_response_header idx len type = \<lparr>rh_idx = idx, rh_type = type, rh_length = len\<rparr>"

definition rh_of_buffer :: "byte list \<Rightarrow> response_header" where
  "rh_of_buffer buffer =
     \<lparr>rh_idx = of_le (mem_read buffer 0 2), rh_type = of_le (mem_read buffer 2 2),
      rh_length = of_le (mem_read buffer 4 4)\<rparr>"

definition rh_get_buffer :: "response_header \<Rightarrow> byte list" where
  "rh_get_buffer h = to_le 2 (rh_idx h) @ to_le 2 (rh_type h) @ to_le 4 (rh_length h)"

definition response_header_ops :: "response_header header_ops" where
  "response_header_ops =
     \<lparr>hdr_size = rh_size, hdr_get_length = (\<lambda>h. unat (rh_length h)),
      hdr_get_buffer = rh_get_buffer, hdr_of_buffer = rh_of_buffer,
      hdr_default = mk_response_header 0 0 0\<rparr>"

subsection \<open>\<open>length_header\<close>\<close>

record length_header =
  lh_length :: length_type

definition lh_size :: nat where
  "lh_size = 4"

text \<open>The constructor from \<open>std::size_t\<close> truncates to 32 bits.\<close>

definition lh_of_size :: "nat \<Rightarrow> length_header" where
  "lh_of_size len = \<lparr>lh_length = word_of_nat len\<rparr>"

definition lh_of_buffer :: "byte list \<Rightarrow> length_header" where
  "lh_of_buffer buffer = \<lparr>lh_length = of_le (mem_read buffer 0 4)\<rparr>"

definition lh_get_buffer :: "length_header \<Rightarrow> byte list" where
  "lh_get_buffer h = to_le 4 (lh_length h)"

definition length_header_ops :: "length_header header_ops" where
  "length_header_ops =
     \<lparr>hdr_size = lh_size, hdr_get_length = (\<lambda>h. unat (lh_length h)),
      hdr_get_buffer = lh_get_buffer, hdr_of_buffer = lh_of_buffer,
      hdr_default = \<lparr>lh_length = 0\<rparr>\<rparr>"

lemmas header_size_defs = mh_size_def rh_size_def lh_size_def
lemmas header_codec_defs =
  mh_of_buffer_def mh_get_buffer_def rh_of_buffer_def rh_get_buffer_def
  lh_of_buffer_def lh_get_buffer_def
lemmas header_ops_defs = message_header_ops_def response_header_ops_def length_header_ops_def

lemma mem_read_append_left: "length xs = n \<Longrightarrow> mem_read (xs @ ys) 0 n = xs"
  by (simp add: mem_read_def)

lemma mem_read_append_right: "length xs = t \<Longrightarrow> mem_read (xs @ ys) t n = mem_read ys 0 n"
  by (simp add: mem_read_def)

lemma mem_read_append_skip: "length xs = k \<Longrightarrow> k \<le> t \<Longrightarrow> mem_read (xs @ ys) t n = mem_read ys (t - k) n"
  by (simp add: mem_read_def)

lemma mem_read_all: "length xs = n \<Longrightarrow> mem_read xs 0 n = xs"
  by (simp add: mem_read_def)

lemmas mem_read_append = mem_read_append_left mem_read_append_skip mem_read_all

subsection \<open>The three classes meet the contract\<close>

text \<open>The buffer of a message header is \<open>message_header::size\<close> bytes long, and a header read
  back from the front of any byte stream that starts with the buffer is the one written.\<close>

theorem message_header_roundtrip:
  "length (mh_get_buffer h) = mh_size \<and> mh_of_buffer (mh_get_buffer h @ rest) = h"
  by (simp add: header_codec_defs header_size_defs mem_read_append)

text \<open>The same for the eight bytes of a response header.\<close>

theorem response_header_roundtrip:
  "length (rh_get_buffer h) = rh_size \<and> rh_of_buffer (rh_get_buffer h @ rest) = h"
  by (simp add: header_codec_defs header_size_defs mem_read_append)

lemma unat_32_bound: "unat (w :: 32 word) < 2 ^ 32"
  using unsigned_less [of w] by simp

interpretation mh: wire_header message_header_ops
  by unfold_locales
    (use unat_32_bound in \<open>auto simp: header_ops_defs header_codec_defs header_size_defs mem_read_append\<close>)

interpretation rh: wire_header response_header_ops
  by unfold_locales
    (use unat_32_bound in \<open>auto simp: header_ops_defs header_codec_defs header_size_defs mem_read_append\<close>)

interpretation lh: wire_header length_header_ops
  by unfold_locales
    (use unat_32_bound in \<open>auto simp: header_ops_defs header_codec_defs header_size_defs mem_read_append\<close>)

lemma lh_of_size_length: "n < 2 ^ 32 \<Longrightarrow> unat (lh_length (lh_of_size n)) = n"
  by (simp add: lh_of_size_def unat_of_nat)

end
