(* ===== verification/Simple_Wire.thy ===== *)
theory Simple_Wire
  imports Wire_Header
begin

section \<open>\<open>simple_wire<T>\<close>: the ring buffer in shared memory\<close>

text \<open>
  \<^verbatim>\<open>class simple_wire\<close> of \<^verbatim>\<open>src/tateyama/transport/wire.h\<close>.  The object is the record below; the
  block that \<open>buffer_handle_\<close> denotes is the field \<open>sw_buffer\<close>, and an address inside the block is
  its offset from \<open>base\<close>.  \<open>sw_c_full\<close> and \<open>sw_c_empty\<close> count the \<open>notify_one\<close> calls on the two
  condition variables.  An operation that waits on a condition variable is modelled twice: as an
  executable function whose value is \<open>None\<close> where the caller would block, and (in
  \<open>Wire_Transfer\<close>) as a state machine that interleaves with the peer.
\<close>

record 'h simple_wire =
  sw_capacity :: nat
  sw_pushed :: nat
  sw_poped :: nat
  sw_wait_for_write :: bool
  sw_wait_for_read :: bool
  sw_c_full :: nat
  sw_c_empty :: nat
  sw_header_received :: 'h
  sw_need_dispose :: nat
  sw_copy_of_payload :: "byte list option"
  sw_buffer :: "byte list"

subsection \<open>Construction\<close>

text \<open>\<open>alloc\<close> stands for \<open>managed_shared_memory::allocate_aligned\<close>: the contents of the block it
  returns, or \<open>None\<close> for a null pointer.\<close>

definition simple_wire_new :: "'h header_ops \<Rightarrow> (nat \<Rightarrow> byte list option) \<Rightarrow> nat \<Rightarrow> 'h simple_wire result" where
  "simple_wire_new T alloc cap =
     (case alloc cap of
        None \<Rightarrow> Inl (runtime_error reason_internal ''cannot allocate shared memory'')
      | Some buffer \<Rightarrow>
          Inr \<lparr>sw_capacity = cap, sw_pushed = 0, sw_poped = 0, sw_wait_for_write = False,
               sw_wait_for_read = False, sw_c_full = 0, sw_c_empty = 0,
               sw_header_received = hdr_default T, sw_need_dispose = 0,
               sw_copy_of_payload = None, sw_buffer = buffer\<rparr>)"

subsection \<open>Positions and sizes\<close>

definition stored :: "('h, 'x) simple_wire_scheme \<Rightarrow> nat" where
  "stored w = u64_sub (sw_pushed w) (sw_poped w)"

definition room :: "('h, 'x) simple_wire_scheme \<Rightarrow> nat" where
  "room w = u64_sub (sw_capacity w) (stored w)"

definition index :: "('h, 'x) simple_wire_scheme \<Rightarrow> nat \<Rightarrow> nat" where
  "index w n = n mod sw_capacity w"

definition max_payload_length :: "'h header_ops \<Rightarrow> ('h, 'x) simple_wire_scheme \<Rightarrow> nat" where
  "max_payload_length T w = u64_sub (sw_capacity w) (hdr_size T)"

definition size_min :: "nat \<Rightarrow> nat \<Rightarrow> nat" where
  "size_min a b = (if a > b then b else a)"

definition buffer_address :: "('h, 'x) simple_wire_scheme \<Rightarrow> nat \<Rightarrow> nat" where
  "buffer_address w n = index w n"

definition read_address :: "('h, 'x) simple_wire_scheme \<Rightarrow> nat \<Rightarrow> nat" where
  "read_address w offset = index w (u64_add (sw_poped w) offset)"

definition read_point :: "('h, 'x) simple_wire_scheme \<Rightarrow> nat" where
  "read_point w = sw_poped w"

subsection \<open>Copies into and out of the ring\<close>

definition write_in_buffer :: "nat \<Rightarrow> byte list \<Rightarrow> nat \<Rightarrow> byte list \<Rightarrow> byte list" where
  "write_in_buffer cap base dst from =
     (if cap \<ge> dst + length from then memcpy_at base dst from
      else let first_part = cap - dst
           in memcpy_at (memcpy_at base dst (take first_part from)) 0 (drop first_part from))"

definition read_from_buffer :: "nat \<Rightarrow> byte list \<Rightarrow> nat \<Rightarrow> nat \<Rightarrow> byte list" where
  "read_from_buffer cap base from len =
     (if cap \<ge> from + len then mem_read base from len
      else let first_part = cap - from
           in mem_read base from first_part @ mem_read base 0 (len - first_part))"

definition copy_header :: "'h header_ops \<Rightarrow> ('h, 'x) simple_wire_scheme \<Rightarrow> ('h, 'x) simple_wire_scheme" where
  "copy_header T w =
     (if sw_capacity w \<ge> read_address w 0 + hdr_size T
      then w\<lparr>sw_header_received := hdr_of_buffer T (mem_read (sw_buffer w) (read_address w 0) (hdr_size T))\<rparr>
      else let first_part = sw_capacity w - index w (sw_poped w);
               buf = mem_read (sw_buffer w) (read_address w 0) first_part
                     @ mem_read (sw_buffer w) 0 (hdr_size T - first_part)
           in w\<lparr>sw_header_received := hdr_of_buffer T buf\<rparr>)"

subsection \<open>Notifications\<close>

definition notify_full :: "('h, 'x) simple_wire_scheme \<Rightarrow> ('h, 'x) simple_wire_scheme" where
  "notify_full w = (if sw_wait_for_write w then w\<lparr>sw_c_full := Suc (sw_c_full w)\<rparr> else w)"

definition notify_empty :: "('h, 'x) simple_wire_scheme \<Rightarrow> ('h, 'x) simple_wire_scheme" where
  "notify_empty w = (if sw_wait_for_read w then w\<lparr>sw_c_empty := Suc (sw_c_empty w)\<rparr> else w)"

subsection \<open>Reading a message\<close>

text \<open>The first chunk of \<open>read\<close>: what follows the header, as far as one ring of bytes holds it.
  The result is the bytes copied, the wire and the number of bytes still to come.\<close>

definition read_first_chunk ::
  "'h header_ops \<Rightarrow> ('h, 'x) simple_wire_scheme \<Rightarrow> byte list \<times> ('h, 'x) simple_wire_scheme \<times> nat" where
  "read_first_chunk T w =
     (let len = hdr_get_length T (sw_header_received w);
          msg_length = size_min len (max_payload_length T w);
          bytes = read_from_buffer (sw_capacity w) (sw_buffer w) (read_address w (hdr_size T)) msg_length
      in (bytes,
          notify_full (w\<lparr>sw_poped := u64_add (sw_poped w) (hdr_size T + msg_length)\<rparr>),
          len - msg_length))"

text \<open>One turn of the loop of \<open>read\<close> after its wait.\<close>

definition read_next_chunk ::
  "('h, 'x) simple_wire_scheme \<Rightarrow> nat \<Rightarrow> byte list \<times> ('h, 'x) simple_wire_scheme" where
  "read_next_chunk w len =
     (let msg_length = size_min len (sw_capacity w);
          bytes = read_from_buffer (sw_capacity w) (sw_buffer w) (read_address w 0) msg_length
      in (bytes, notify_full (w\<lparr>sw_poped := u64_add (sw_poped w) msg_length\<rparr>)))"

text \<open>The loop, with \<open>None\<close> where \<open>c_empty_.wait\<close> would block (and for a wire with no buffer, where
  the loop would turn forever on empty chunks).\<close>

function read_loop :: "('h, 'x) simple_wire_scheme \<Rightarrow> nat \<Rightarrow> (byte list \<times> ('h, 'x) simple_wire_scheme) option" where
  "read_loop w len =
     (if len = 0 then Some ([], w)
      else if sw_capacity w = 0 then None
      else if stored w \<ge> size_min len (sw_capacity w)
      then (case read_next_chunk (w\<lparr>sw_wait_for_read := False\<rparr>) len of
              (bytes, w') \<Rightarrow>
                map_option (\<lambda>(rest, w''). (bytes @ rest, w''))
                  (read_loop w' (len - size_min len (sw_capacity w))))
      else None)"
  by pat_completeness auto
termination
  by (relation "measure (\<lambda>(w, len). len)") (auto simp: size_min_def)

declare read_loop.simps [simp del]

definition wire_read :: "'h header_ops \<Rightarrow> ('h, 'x) simple_wire_scheme \<Rightarrow> (byte list \<times> ('h, 'x) simple_wire_scheme) option" where
  "wire_read T w =
     (case read_first_chunk T w of
        (bytes, w', len) \<Rightarrow>
          map_option (\<lambda>(rest, w''). (bytes @ rest, w'')) (read_loop w' len))"

text \<open>\<open>payload\<close> returns a view: either a window of the ring (no byte is copied) or the copy kept in
  \<open>copy_of_payload_\<close>.\<close>

datatype view = In_buffer nat nat | Copied "byte list"

definition payload :: "'h header_ops \<Rightarrow> ('h, 'x) simple_wire_scheme \<Rightarrow> (view \<times> ('h, 'x) simple_wire_scheme) option" where
  "payload T w =
     (let len = hdr_get_length T (sw_header_received w)
      in if index w (u64_add (sw_poped w) (hdr_size T))
            < index w (u64_add (sw_poped w) (hdr_size T + len))
         then Some (In_buffer (read_address w (hdr_size T)) len,
                    w\<lparr>sw_need_dispose := hdr_size T + len\<rparr>)
         else map_option (\<lambda>(bytes, w'). (Copied bytes, w'\<lparr>sw_copy_of_payload := Some bytes\<rparr>))
                (wire_read T w))"

text \<open>The bytes a view denotes; \<open>None\<close> when the window leaves the block.\<close>

fun view_bytes :: "('h, 'x) simple_wire_scheme \<Rightarrow> view \<Rightarrow> byte list option" where
  "view_bytes w (In_buffer off len) =
     (if off + len \<le> length (sw_buffer w) then Some (mem_read (sw_buffer w) off len) else None)"
| "view_bytes w (Copied bs) = Some bs"

definition dispose :: "('h, 'x) simple_wire_scheme \<Rightarrow> ('h, 'x) simple_wire_scheme" where
  "dispose w =
     (let w1 = (if sw_need_dispose w > 0
                then (notify_full (w\<lparr>sw_poped := u64_add (sw_poped w) (sw_need_dispose w)\<rparr>))
                       \<lparr>sw_need_dispose := 0\<rparr>
                else w)
      in w1\<lparr>sw_copy_of_payload := None\<rparr>)"

subsection \<open>Writing a message\<close>

text \<open>The two parts of \<open>write\<close> after its waits: the first chunk with the header, and one turn of the
  loop.  The result is the wire and what is left of \<open>from\<close>.\<close>

definition write_first_chunk ::
  "'h header_ops \<Rightarrow> ('h, 'x) simple_wire_scheme \<Rightarrow> byte list \<Rightarrow> 'h
     \<Rightarrow> ('h, 'x) simple_wire_scheme \<times> byte list" where
  "write_first_chunk T w from header =
     (let len = hdr_get_length T header + hdr_size T;
          msg_length = size_min len (sw_capacity w);
          b1 = write_in_buffer (sw_capacity w) (sw_buffer w)
                 (buffer_address w (sw_pushed w)) (hdr_get_buffer T header);
          b2 = (if msg_length > hdr_size T
                then write_in_buffer (sw_capacity w) b1
                       (buffer_address w (u64_add (sw_pushed w) (hdr_size T)))
                       (take (msg_length - hdr_size T) from)
                else b1)
      in (notify_empty (w\<lparr>sw_buffer := b2, sw_pushed := u64_add (sw_pushed w) msg_length\<rparr>),
          drop (msg_length - hdr_size T) from))"

definition write_next_chunk ::
  "('h, 'x) simple_wire_scheme \<Rightarrow> byte list \<Rightarrow> nat \<Rightarrow> ('h, 'x) simple_wire_scheme \<times> byte list" where
  "write_next_chunk w from len =
     (let msg_length = size_min len (sw_capacity w)
      in (notify_empty
            (w\<lparr>sw_buffer := write_in_buffer (sw_capacity w) (sw_buffer w)
                              (buffer_address w (sw_pushed w)) (take msg_length from),
               sw_pushed := u64_add (sw_pushed w) msg_length\<rparr>),
          drop msg_length from))"

text \<open>The whole of \<open>write\<close> with \<open>None\<close> where \<open>wait_to_write\<close> would block; \<open>closed\<close> is the flag the
  peer sets.\<close>

function write_loop :: "('h, 'x) simple_wire_scheme \<Rightarrow> byte list \<Rightarrow> nat \<Rightarrow> bool \<Rightarrow> ('h, 'x) simple_wire_scheme option" where
  "write_loop w from len closed =
     (if len = 0 then Some w
      else if size_min len (sw_capacity w) > room w \<and> \<not> closed then None
      else if closed then Some w
      else if sw_capacity w = 0 then None
      else (case write_next_chunk w from len of
              (w', from') \<Rightarrow> write_loop w' from' (len - size_min len (sw_capacity w)) closed))"
  by pat_completeness auto
termination
  by (relation "measure (\<lambda>(w, from, len, closed). len)") (auto simp: size_min_def)

declare write_loop.simps [simp del]

definition wire_write ::
  "'h header_ops \<Rightarrow> ('h, 'x) simple_wire_scheme \<Rightarrow> byte list \<Rightarrow> 'h \<Rightarrow> bool
     \<Rightarrow> ('h, 'x) simple_wire_scheme option" where
  "wire_write T w from header closed =
     (let len = hdr_get_length T header + hdr_size T;
          msg_length = size_min len (sw_capacity w)
      in if msg_length > room w \<and> \<not> closed then None
         else if closed then Some w
         else (case write_first_chunk T w from header of
                 (w', from') \<Rightarrow> write_loop w' from' (len - msg_length) closed))"

end
