(* ===== verification/Wire_Ring.thy ===== *)
theory Wire_Ring
  imports Simple_Wire
begin

section \<open>The ring buffer refines a bounded queue of bytes\<close>

text \<open>
  \<open>region\<close> reads the ring between two absolute positions; \<open>live\<close> is the region between \<open>poped_\<close> and
  \<open>pushed_\<close>: the abstract queue.  The lemmas show what the split copies of \<open>write_in_buffer\<close> and
  \<open>read_from_buffer\<close> do to regions, and lift them to the chunk operations of \<open>simple_wire\<close>.
\<close>

definition region :: "byte list \<Rightarrow> nat \<Rightarrow> nat \<Rightarrow> nat \<Rightarrow> byte list" where
  "region buf cap a b = map (\<lambda>i. buf ! (i mod cap)) [a..<b]"

definition live :: "('h, 'x) simple_wire_scheme \<Rightarrow> byte list" where
  "live w = region (sw_buffer w) (sw_capacity w) (sw_poped w) (sw_pushed w)"

definition sw_inv :: "('h, 'x) simple_wire_scheme \<Rightarrow> bool" where
  "sw_inv w \<longleftrightarrow>
     0 < sw_capacity w \<and> sw_capacity w < u64_limit \<and> length (sw_buffer w) = sw_capacity w \<and>
     sw_poped w \<le> sw_pushed w \<and> sw_pushed w - sw_poped w \<le> sw_capacity w \<and>
     sw_pushed w < u64_limit"

text \<open>The number of bytes that can be pushed before the 64-bit counter wraps.\<close>

definition budget :: "('h, 'x) simple_wire_scheme \<Rightarrow> nat" where
  "budget w = u64_limit - sw_pushed w"

subsection \<open>Regions\<close>

lemma length_region [simp]: "length (region buf cap a b) = b - a"
  by (simp add: region_def)

lemma nth_region: "i < b - a \<Longrightarrow> region buf cap a b ! i = buf ! ((a + i) mod cap)"
  by (simp add: region_def)

lemma region_append:
  assumes "a \<le> b" "b \<le> c"
  shows "region buf cap a c = region buf cap a b @ region buf cap b c"
proof -
  from assms(2) obtain k where "c = b + k" using le_Suc_ex by blast
  then have "[a..<c] = [a..<b] @ [b..<c]"
    using upt_add_eq_append [OF assms(1), of k] by simp
  then show ?thesis by (simp add: region_def)
qed

lemma region_empty [simp]: "region buf cap a a = []"
  by (simp add: region_def)

lemma drop_region: "n \<le> b - a \<Longrightarrow> drop n (region buf cap a b) = region buf cap (a + n) b"
  by (simp add: region_def drop_map drop_upt)

lemma take_region: "n \<le> b - a \<Longrightarrow> take n (region buf cap a b) = region buf cap a (a + n)"
  by (cases "a + n \<le> b") (auto simp: region_def take_map take_upt)

lemma length_write_in_buffer [simp]:
  assumes "length buf = cap" "t < cap" "length bs \<le> cap"
  shows "length (write_in_buffer cap buf t bs) = cap"
  using assms by (simp add: write_in_buffer_def Let_def)

lemma nth_write_in_buffer:
  assumes "length buf = cap" "0 < cap" "length bs \<le> cap" "i < cap"
  shows "write_in_buffer cap buf (p mod cap) bs ! i =
    (if ring_dist cap p i < length bs then bs ! ring_dist cap p i else buf ! i)"
proof -
  define t where "t = p mod cap"
  have t: "t < cap" using assms by (simp add: t_def)
  have dist: "ring_dist cap p i = (if t \<le> i then i - t else i + cap - t)"
  proof (cases "t \<le> i")
    case True
    then have "i + cap - t = (i - t) + cap" by simp
    then have "(i + cap - t) mod cap = (i - t) mod cap" by simp
    then show ?thesis using True assms by (simp add: ring_dist_def t_def)
  next
    case False
    then have "i + cap - t < cap" using t by linarith
    then show ?thesis using False by (simp add: ring_dist_def t_def)
  qed
  show ?thesis
  proof (cases "t + length bs \<le> cap")
    case True
    then have "write_in_buffer cap buf t bs ! i =
        (if t \<le> i \<and> i < t + length bs then bs ! (i - t) else buf ! i)"
      using assms by (simp add: write_in_buffer_def nth_memcpy_at)
    then show ?thesis using True dist t by (auto simp: t_def [symmetric])
  next
    case False
    define k where "k = cap - t"
    have k: "k < length bs" "t + k = cap" using False t by (auto simp: k_def)
    have w: "write_in_buffer cap buf t bs
        = memcpy_at (memcpy_at buf t (take k bs)) 0 (drop k bs)"
      using False by (simp add: write_in_buffer_def k_def Let_def)
    have "length bs - k \<le> t" using k assms(3) by linarith
    then have "write_in_buffer cap buf t bs ! i =
        (if i < length bs - k then bs ! (k + i)
         else if t \<le> i then bs ! (i - t) else buf ! i)"
      using assms k by (auto simp: w nth_memcpy_at)
    moreover have "i + cap - t = k + i" using k by linarith
    ultimately show ?thesis
      using dist k assms t \<open>length bs - k \<le> t\<close> by (auto simp: t_def [symmetric])
  qed
qed

lemma region_write_new:
  assumes "length buf = cap" "0 < cap" "length bs \<le> cap"
  shows "region (write_in_buffer cap buf (p mod cap) bs) cap p (p + length bs) = bs"
proof (rule nth_equalityI)
  fix i
  assume "i < length (region (write_in_buffer cap buf (p mod cap) bs) cap p (p + length bs))"
  then have "i < length bs" by simp
  then show "region (write_in_buffer cap buf (p mod cap) bs) cap p (p + length bs) ! i = bs ! i"
    using assms by (simp add: nth_region nth_write_in_buffer ring_dist_after)
qed simp

lemma region_write_old:
  assumes "length buf = cap" "0 < cap" "length bs \<le> cap" "b \<le> p" "p + length bs \<le> a + cap"
  shows "region (write_in_buffer cap buf (p mod cap) bs) cap a b = region buf cap a b"
proof (rule nth_equalityI)
  fix i
  assume "i < length (region (write_in_buffer cap buf (p mod cap) bs) cap a b)"
  then have i: "i < b - a" by simp
  define d where "d = p - (a + i)"
  have d: "0 < d" "d \<le> p" "a + i = p - d" using i assms by (auto simp: d_def)
  have "d + length bs \<le> cap" using i assms unfolding d_def by linarith
  then have "\<not> ring_dist cap p ((a + i) mod cap) < length bs"
    using d assms by (simp add: ring_dist_before)
  then show "region (write_in_buffer cap buf (p mod cap) bs) cap a b ! i = region buf cap a b ! i"
    using i assms by (simp add: nth_region nth_write_in_buffer)
qed simp

lemma region_write_later:
  assumes "length buf = cap" "0 < cap" "length bs \<le> cap" "p + length bs \<le> a" "b \<le> p + cap"
  shows "region (write_in_buffer cap buf (p mod cap) bs) cap a b = region buf cap a b"
proof (rule nth_equalityI)
  fix i
  assume "i < length (region (write_in_buffer cap buf (p mod cap) bs) cap a b)"
  then have i: "i < b - a" by simp
  define j where "j = a + i - p"
  have j: "a + i = p + j" "length bs \<le> j" "j < cap" using i assms by (auto simp: j_def)
  then have "\<not> ring_dist cap p ((a + i) mod cap) < length bs"
    using ring_dist_after [of cap j p] assms by simp
  then show "region (write_in_buffer cap buf (p mod cap) bs) cap a b ! i = region buf cap a b ! i"
    using i assms by (simp add: nth_region nth_write_in_buffer)
qed simp

lemma read_from_buffer_region:
  assumes "length buf = cap" "0 < cap" "n \<le> cap"
  shows "read_from_buffer cap buf (p mod cap) n = region buf cap p (p + n)"
proof (rule nth_equalityI)
  define t where "t = p mod cap"
  have t: "t < cap" using assms by (simp add: t_def)
  show len: "length (read_from_buffer cap buf (p mod cap) n) = length (region buf cap p (p + n))"
    using assms t by (auto simp: read_from_buffer_def Let_def mem_read_def t_def [symmetric])
  fix i
  assume "i < length (read_from_buffer cap buf (p mod cap) n)"
  then have i: "i < n" using len by simp
  have pos: "(p + i) mod cap = (if t + i < cap then t + i else t + i - cap)"
  proof -
    have "(p + i) mod cap = (t + i) mod cap" by (simp add: t_def mod_add_left_eq)
    moreover have "t + i - cap < cap" using t i assms by linarith
    ultimately show ?thesis by (simp add: le_mod_geq)
  qed
  show "read_from_buffer cap buf (p mod cap) n ! i = region buf cap p (p + n) ! i"
  proof (cases "t + n \<le> cap")
    case True
    then show ?thesis
      using assms i pos by (simp add: read_from_buffer_def nth_region t_def [symmetric])
  next
    case False
    then have "read_from_buffer cap buf t n = mem_read buf t (cap - t) @ mem_read buf 0 (n - (cap - t))"
      by (simp add: read_from_buffer_def Let_def)
    then show ?thesis
      using assms i pos t by (auto simp: nth_region nth_append t_def [symmetric] add.commute)
  qed
qed

subsection \<open>The interface: a bounded first-in first-out channel of bytes\<close>

text \<open>What the message protocols rely on: \<open>put\<close> appends, \<open>peek\<close> reads at an offset, \<open>pop\<close> drops from
  the front, each within the bounds \<open>size_of\<close> (the capacity) and \<open>budget_of\<close> (the bytes left before
  the push counter wraps).\<close>

locale byte_fifo =
  fixes ok :: "'w \<Rightarrow> bool"
    and contents :: "'w \<Rightarrow> byte list"
    and size_of :: "'w \<Rightarrow> nat"
    and budget_of :: "'w \<Rightarrow> nat"
    and put :: "'w \<Rightarrow> byte list \<Rightarrow> 'w"
    and peek :: "'w \<Rightarrow> nat \<Rightarrow> nat \<Rightarrow> byte list"
    and pop :: "'w \<Rightarrow> nat \<Rightarrow> 'w"
  assumes contents_bounded: "ok w \<Longrightarrow> length (contents w) \<le> size_of w"
    and put_ok: "\<lbrakk>ok w; length (contents w) + length bs \<le> size_of w; length bs < budget_of w\<rbrakk>
                 \<Longrightarrow> ok (put w bs)"
    and put_contents: "\<lbrakk>ok w; length (contents w) + length bs \<le> size_of w; length bs < budget_of w\<rbrakk>
                 \<Longrightarrow> contents (put w bs) = contents w @ bs"
    and put_size: "size_of (put w bs) = size_of w"
    and put_budget: "\<lbrakk>ok w; length bs < budget_of w\<rbrakk> \<Longrightarrow> budget_of (put w bs) = budget_of w - length bs"
    and peek_contents: "\<lbrakk>ok w; off + n \<le> length (contents w)\<rbrakk>
                 \<Longrightarrow> peek w off n = take n (drop off (contents w))"
    and pop_ok: "\<lbrakk>ok w; n \<le> length (contents w)\<rbrakk> \<Longrightarrow> ok (pop w n)"
    and pop_contents: "\<lbrakk>ok w; n \<le> length (contents w)\<rbrakk> \<Longrightarrow> contents (pop w n) = drop n (contents w)"
    and pop_size: "size_of (pop w n) = size_of w"
    and pop_budget: "budget_of (pop w n) = budget_of w"
begin

lemmas fifo_laws = put_ok put_contents put_size put_budget peek_contents pop_ok pop_contents
  pop_size pop_budget

text \<open>Reading what is at the front gives the oldest bytes; together with the rest they are what was
  there.\<close>

lemma peek_pop_split:
  assumes "ok w" "n \<le> length (contents w)"
  shows "peek w 0 n @ contents (pop w n) = contents w"
  using assms by (simp add: fifo_laws)

text \<open>A message put into an empty channel comes out unchanged and leaves it empty.\<close>

lemma put_peek_pop:
  assumes "ok w" "contents w = []" "length bs \<le> size_of w" "length bs < budget_of w"
  shows "peek (put w bs) 0 (length bs) = bs" "contents (pop (put w bs) (length bs)) = []"
  using assms by (simp_all add: fifo_laws)

text \<open>Two messages come out in the order they were put in.\<close>

lemma fifo_order:
  assumes "ok w" "contents w = []" "length xs + length ys \<le> size_of w"
    "length xs + length ys < budget_of w"
  shows "peek (put (put w xs) ys) 0 (length xs) = xs"
    "peek (pop (put (put w xs) ys) (length xs)) 0 (length ys) = ys"
proof -
  have 1: "ok (put w xs)" "contents (put w xs) = xs" "size_of (put w xs) = size_of w"
    "budget_of (put w xs) = budget_of w - length xs"
    using assms by (simp_all add: fifo_laws)
  have 2: "ok (put (put w xs) ys)" "contents (put (put w xs) ys) = xs @ ys"
    using 1 assms by (simp_all add: fifo_laws)
  show "peek (put (put w xs) ys) 0 (length xs) = xs"
    "peek (pop (put (put w xs) ys) (length xs)) 0 (length ys) = ys"
    using 2 by (simp_all add: fifo_laws)
qed

end

subsection \<open>The wire provides it\<close>

definition ring_put :: "('h, 'x) simple_wire_scheme \<Rightarrow> byte list \<Rightarrow> ('h, 'x) simple_wire_scheme" where
  "ring_put w bs =
     w\<lparr>sw_buffer := write_in_buffer (sw_capacity w) (sw_buffer w) (buffer_address w (sw_pushed w)) bs,
       sw_pushed := u64_add (sw_pushed w) (length bs)\<rparr>"

definition ring_peek :: "('h, 'x) simple_wire_scheme \<Rightarrow> nat \<Rightarrow> nat \<Rightarrow> byte list" where
  "ring_peek w off n = read_from_buffer (sw_capacity w) (sw_buffer w) (read_address w off) n"

definition ring_pop :: "('h, 'x) simple_wire_scheme \<Rightarrow> nat \<Rightarrow> ('h, 'x) simple_wire_scheme" where
  "ring_pop w n = w\<lparr>sw_poped := u64_add (sw_poped w) n\<rparr>"

lemmas ring_op_defs = ring_put_def ring_peek_def ring_pop_def

lemma length_live [simp]: "length (live w) = sw_pushed w - sw_poped w"
  by (simp add: live_def)

lemma stored_eq: "sw_inv w \<Longrightarrow> stored w = sw_pushed w - sw_poped w"
  by (simp add: sw_inv_def stored_def u64_simps)

lemma stored_live: "sw_inv w \<Longrightarrow> stored w = length (live w)"
  by (simp add: stored_eq)

lemma room_eq: "sw_inv w \<Longrightarrow> room w = sw_capacity w - length (live w)"
  by (simp add: room_def stored_eq u64_simps) (simp add: sw_inv_def u64_simps)

lemma live_bounded: "sw_inv w \<Longrightarrow> length (live w) \<le> sw_capacity w"
  by (simp add: sw_inv_def)

lemma ring_put_laws:
  assumes inv: "sw_inv w"
    and fits: "length (live w) + length bs \<le> sw_capacity w" "length bs < budget w"
  shows "sw_inv (ring_put w bs)" "live (ring_put w bs) = live w @ bs"
proof -
  let ?c = "sw_capacity w" and ?b = "sw_buffer w" and ?p = "sw_pushed w" and ?o = "sw_poped w"
  let ?b' = "write_in_buffer ?c ?b (?p mod ?c) bs"
  have add: "u64_add ?p (length bs) = ?p + length bs"
    using fits by (simp add: budget_def u64_simps)
  have put: "ring_put w bs = w\<lparr>sw_buffer := ?b', sw_pushed := ?p + length bs\<rparr>"
    by (simp add: ring_put_def buffer_address_def index_def add)
  have bounds: "length ?b = ?c" "0 < ?c" "length bs \<le> ?c" "?o \<le> ?p" "?p + length bs \<le> ?o + ?c"
    using inv fits by (auto simp: sw_inv_def)
  show "sw_inv (ring_put w bs)"
    using inv fits bounds by (simp add: put sw_inv_def budget_def)
  have "live (ring_put w bs) = region ?b' ?c ?o ?p @ region ?b' ?c ?p (?p + length bs)"
    using bounds by (simp add: put live_def flip: region_append)
  then show "live (ring_put w bs) = live w @ bs"
    using bounds by (simp add: region_write_new region_write_old live_def)
qed

lemma ring_peek_live:
  assumes "sw_inv w" "off + n \<le> length (live w)"
  shows "ring_peek w off n = take n (drop off (live w))"
proof -
  let ?c = "sw_capacity w" and ?b = "sw_buffer w" and ?o = "sw_poped w"
  have bounds: "length ?b = ?c" "0 < ?c" "n \<le> ?c" "?o + off < u64_limit \<or> off = 0"
      "?o < u64_limit"
    using assms by (auto simp: sw_inv_def)
  then have "u64_add ?o off = ?o + off" by (auto simp: u64_simps)
  then have "ring_peek w off n = region ?b ?c (?o + off) (?o + off + n)"
    using bounds by (simp add: ring_peek_def read_address_def index_def read_from_buffer_region)
  also have "\<dots> = take n (drop off (live w))"
    using assms by (simp add: live_def drop_region take_region)
  finally show ?thesis .
qed

lemma ring_pop_laws:
  assumes "sw_inv w" "n \<le> length (live w)"
  shows "sw_inv (ring_pop w n)" "live (ring_pop w n) = drop n (live w)"
proof -
  have add: "u64_add (sw_poped w) n = sw_poped w + n"
    using assms by (auto simp: sw_inv_def intro!: u64_add_small)
  show "sw_inv (ring_pop w n)"
    using assms by (auto simp: ring_pop_def sw_inv_def add)
  show "live (ring_pop w n) = drop n (live w)"
    using assms by (simp add: ring_pop_def live_def add drop_region)
qed

interpretation ring: byte_fifo sw_inv live sw_capacity budget ring_put ring_peek ring_pop
proof unfold_locales
  fix w :: "('a, 'b) simple_wire_scheme" and bs :: "byte list"
  assume "sw_inv w" "length bs < budget w"
  then show "budget (ring_put w bs) = budget w - length bs"
    by (simp add: budget_def ring_put_def u64_simps)
qed (simp_all add: live_bounded [simplified] ring_put_laws ring_peek_live ring_pop_laws,
     simp_all add: ring_op_defs budget_def)

subsection \<open>Any sequence of chunk writes and reads\<close>

text \<open>A fresh wire, as the constructor leaves it on a zeroed block.\<close>

definition fresh_wire :: "'h header_ops \<Rightarrow> nat \<Rightarrow> 'h simple_wire" where
  "fresh_wire T cap =
     \<lparr>sw_capacity = cap, sw_pushed = 0, sw_poped = 0, sw_wait_for_write = False,
      sw_wait_for_read = False, sw_c_full = 0, sw_c_empty = 0,
      sw_header_received = hdr_default T, sw_need_dispose = 0,
      sw_copy_of_payload = None, sw_buffer = replicate cap 0\<rparr>"

lemma simple_wire_new_fresh:
  "simple_wire_new T (\<lambda>n. Some (replicate n 0)) cap = Inr (fresh_wire T cap)"
  by (simp add: simple_wire_new_def fresh_wire_def)

lemma fresh_wire_simps [simp]:
  "sw_capacity (fresh_wire T cap) = cap" "live (fresh_wire T cap) = []"
  "budget (fresh_wire T cap) = u64_limit" "sw_need_dispose (fresh_wire T cap) = 0"
  "sw_poped (fresh_wire T cap) = 0" "sw_pushed (fresh_wire T cap) = 0"
  "sw_header_received (fresh_wire T cap) = hdr_default T"
  by (simp_all add: fresh_wire_def live_def budget_def)

lemma fresh_wire_inv [simp]: "0 < cap \<Longrightarrow> cap < u64_limit \<Longrightarrow> sw_inv (fresh_wire T cap)"
  by (simp add: fresh_wire_def sw_inv_def)

datatype ring_op = Ring_put "byte list" | Ring_get nat

text \<open>A run of the two ends of the wire, one chunk at a time, in any order; \<open>None\<close> where an end would
  have to wait.  The first component is what the reader copied out.\<close>

fun ring_run ::
  "('h, 'x) simple_wire_scheme \<Rightarrow> ring_op list \<Rightarrow> (byte list \<times> ('h, 'x) simple_wire_scheme) option" where
  "ring_run w [] = Some ([], w)"
| "ring_run w (Ring_put bs # ops) = (if length bs \<le> room w then ring_run (ring_put w bs) ops else None)"
| "ring_run w (Ring_get n # ops) =
     (if n \<le> stored w
      then map_option (\<lambda>(out, w'). (ring_peek w 0 n @ out, w')) (ring_run (ring_pop w n) ops)
      else None)"

fun ring_puts :: "ring_op list \<Rightarrow> byte list" where
  "ring_puts [] = []"
| "ring_puts (Ring_put bs # ops) = bs @ ring_puts ops"
| "ring_puts (Ring_get n # ops) = ring_puts ops"

text \<open>C17: whatever the order of the chunk writes and chunk reads on a ring buffer of any size, the bytes
  copied out so far followed by the bytes still in the ring are the bytes that were in the ring at the
  start followed by the bytes written: nothing is lost, duplicated, reordered or overwritten at the
  wrap-around, and the ring stays well formed.\<close>

theorem ring_run_fifo:
  assumes "sw_inv w" "length (ring_puts ops) < budget w" "ring_run w ops = Some (out, w')"
  shows "out @ live w' = live w @ ring_puts ops \<and> sw_inv w'"
  using assms
proof (induction w ops arbitrary: out rule: ring_run.induct)
  case (1 w)
  then show ?case by simp
next
  case (2 w bs ops)
  then have fits: "length (live w) + length bs \<le> sw_capacity w" "length bs < budget w"
    using live_bounded [OF 2(2)] by (auto simp: room_eq split: if_splits)
  then have "length (ring_puts ops) < budget (ring_put w bs)"
    using 2(3) by (simp add: ring.put_budget [OF 2(2)])
  with 2 fits show ?case
    by (simp add: ring_put_laws split: if_splits)
next
  case (3 w n ops)
  then obtain out' where out: "out = ring_peek w 0 n @ out'"
      and run: "ring_run (ring_pop w n) ops = Some (out', w')" and n: "n \<le> length (live w)"
    by (auto simp: stored_live simp del: length_live split: if_splits)
  have "out' @ live w' = live (ring_pop w n) @ ring_puts ops \<and> sw_inv w'"
    using 3 run n by (intro "3.IH") (simp_all add: stored_live ring_pop_laws ring.pop_budget)
  then show ?case
    using ring.peek_pop_split [OF 3(2) n] by (metis append_assoc out ring_puts.simps(3))
qed

text \<open>What evaluates the ring operations on a concrete wire.\<close>

lemmas ring_eval = ring_op_defs room_def stored_def u64_add_def u64_sub_def write_in_buffer_def
  read_from_buffer_def memcpy_at_def mem_read_def buffer_address_def read_address_def index_def
  size_min_def Let_def

theorem ring_run_fifo_witness:
  "sw_inv (fresh_wire message_header_ops 4) \<and>
   (\<exists>w'. ring_run (fresh_wire message_header_ops 4)
           [Ring_put [1, 2, 3], Ring_get 2, Ring_put [4, 5, 6], Ring_get 3] = Some ([1, 2, 3, 4, 5], w') \<and>
         live w' = [6])"
proof -
  let ?w = "fresh_wire message_header_ops 4"
  let ?ops = "[Ring_put [1, 2, 3], Ring_get 2, Ring_put [4, 5, 6], Ring_get 3]"
  have "map_option fst (ring_run ?w ?ops) = Some [1, 2, 3, 4, 5]"
    by (simp add: ring_eval fresh_wire_def)
  then obtain w' where run: "ring_run ?w ?ops = Some ([1, 2, 3, 4, 5], w')"
    by (auto simp: map_option_case split: option.splits)
  have "[1, 2, 3, 4, 5] @ live w' = live ?w @ ring_puts ?ops \<and> sw_inv w'"
    by (rule ring_run_fifo [OF _ _ run]) simp_all
  with run show ?thesis by simp
qed

end
