(* ===== verification/Wire_Message.thy ===== *)
theory Wire_Message
  imports Wire_Ring
begin

section \<open>Messages over a \<open>simple_wire\<close>\<close>

text \<open>
  The chunk operations of \<open>write\<close> and \<open>read\<close> in terms of the byte channel, and from them what
  \<open>write\<close>, \<open>copy_header\<close>, \<open>read\<close>, \<open>payload\<close> and \<open>dispose\<close> do to the queue of messages, for every
  header class.
\<close>

subsection \<open>Fields the notifications leave alone\<close>

lemma notify_simps [simp]:
  "sw_capacity (notify_full w) = sw_capacity w" "sw_capacity (notify_empty w) = sw_capacity w"
  "sw_pushed (notify_full w) = sw_pushed w" "sw_pushed (notify_empty w) = sw_pushed w"
  "sw_poped (notify_full w) = sw_poped w" "sw_poped (notify_empty w) = sw_poped w"
  "sw_buffer (notify_full w) = sw_buffer w" "sw_buffer (notify_empty w) = sw_buffer w"
  "sw_header_received (notify_full w) = sw_header_received w"
  "sw_header_received (notify_empty w) = sw_header_received w"
  "sw_wait_for_write (notify_full w) = sw_wait_for_write w"
  "sw_wait_for_write (notify_empty w) = sw_wait_for_write w"
  "sw_wait_for_read (notify_full w) = sw_wait_for_read w"
  "sw_wait_for_read (notify_empty w) = sw_wait_for_read w"
  "sw_need_dispose (notify_empty w) = sw_need_dispose w"
  "sw_need_dispose (notify_full w) = sw_need_dispose w"
  by (simp_all add: notify_full_def notify_empty_def)

lemma ring_put_simps [simp]:
  "sw_capacity (ring_put w bs) = sw_capacity w" "sw_poped (ring_put w bs) = sw_poped w"
  "sw_header_received (ring_put w bs) = sw_header_received w"
  "sw_wait_for_read (ring_put w bs) = sw_wait_for_read w"
  "sw_wait_for_write (ring_put w bs) = sw_wait_for_write w"
  "sw_need_dispose (ring_put w bs) = sw_need_dispose w"
  by (simp_all add: ring_put_def)

lemma ring_pop_simps [simp]:
  "sw_capacity (ring_pop w n) = sw_capacity w" "sw_pushed (ring_pop w n) = sw_pushed w"
  "sw_buffer (ring_pop w n) = sw_buffer w"
  "sw_header_received (ring_pop w n) = sw_header_received w"
  "sw_wait_for_read (ring_pop w n) = sw_wait_for_read w"
  "sw_wait_for_write (ring_pop w n) = sw_wait_for_write w"
  "sw_need_dispose (ring_pop w n) = sw_need_dispose w"
  by (simp_all add: ring_pop_def)

text \<open>The queue, its invariant and its bounds depend on four fields only.\<close>

lemma queue_cong:
  assumes "sw_capacity w = sw_capacity v" "sw_pushed w = sw_pushed v"
    "sw_poped w = sw_poped v" "sw_buffer w = sw_buffer v"
  shows "live w = live v" "sw_inv w = sw_inv v" "budget w = budget v"
    "stored w = stored v" "room w = room v"
  using assms by (simp_all add: live_def sw_inv_def budget_def stored_def room_def)

lemma notify_queue [simp]:
  "live (notify_full w) = live w" "live (notify_empty w) = live w"
  "sw_inv (notify_full w) = sw_inv w" "sw_inv (notify_empty w) = sw_inv w"
  "budget (notify_full w) = budget w" "budget (notify_empty w) = budget w"
  by (rule queue_cong; simp)+

lemma update_queue [simp]:
  "live (w\<lparr>sw_header_received := h\<rparr>) = live w" "sw_inv (w\<lparr>sw_header_received := h\<rparr>) = sw_inv w"
  "budget (w\<lparr>sw_header_received := h\<rparr>) = budget w"
  "live (w\<lparr>sw_wait_for_read := f\<rparr>) = live w" "sw_inv (w\<lparr>sw_wait_for_read := f\<rparr>) = sw_inv w"
  "budget (w\<lparr>sw_wait_for_read := f\<rparr>) = budget w"
  "live (w\<lparr>sw_wait_for_write := f\<rparr>) = live w" "sw_inv (w\<lparr>sw_wait_for_write := f\<rparr>) = sw_inv w"
  "budget (w\<lparr>sw_wait_for_write := f\<rparr>) = budget w"
  "live (w\<lparr>sw_need_dispose := n\<rparr>) = live w" "sw_inv (w\<lparr>sw_need_dispose := n\<rparr>) = sw_inv w"
  "budget (w\<lparr>sw_need_dispose := n\<rparr>) = budget w"
  "live (w\<lparr>sw_copy_of_payload := p\<rparr>) = live w" "sw_inv (w\<lparr>sw_copy_of_payload := p\<rparr>) = sw_inv w"
  "budget (w\<lparr>sw_copy_of_payload := p\<rparr>) = budget w"
  by (rule queue_cong; simp)+

subsection \<open>Chunks are puts and pops\<close>

lemma size_min_min [simp]: "size_min a b = min a b"
  by (simp add: size_min_def)

lemma u64_add_assoc: "u64_add (u64_add a b) c = u64_add a (b + c)"
  by (simp add: u64_add_def mod_add_left_eq add.assoc)

lemma write_in_buffer_Nil: "t \<le> cap \<Longrightarrow> write_in_buffer cap buf t [] = buf"
  by (simp add: write_in_buffer_def)

lemma write_next_chunk_put:
  assumes "len \<le> length from"
  shows "write_next_chunk w from len =
    (notify_empty (ring_put w (take (min len (sw_capacity w)) from)), drop (min len (sw_capacity w)) from)"
proof -
  have "length (take (min len (sw_capacity w)) from) = min len (sw_capacity w)"
    using assms by simp
  then show ?thesis
    by (simp add: write_next_chunk_def ring_put_def Let_def)
qed

lemma read_next_chunk_pop:
  "read_next_chunk w len =
    (ring_peek w 0 (min len (sw_capacity w)), notify_full (ring_pop w (min len (sw_capacity w))))"
  by (simp add: read_next_chunk_def ring_peek_def ring_pop_def Let_def)

context wire_header
begin

lemma write_first_chunk_put:
  assumes "0 < sw_capacity w" "hdr_size T \<le> sw_capacity w" "hdr_get_length T h \<le> length from"
  defines "m \<equiv> min (hdr_get_length T h) (sw_capacity w - hdr_size T)"
  shows "write_first_chunk T w from h =
    (notify_empty (ring_put (ring_put w (hdr_get_buffer T h)) (take m from)), drop m from)"
proof -
  let ?msg = "min (hdr_get_length T h + hdr_size T) (sw_capacity w)"
  have m: "?msg = hdr_size T + m" "?msg - hdr_size T = m" "length (take m from) = m"
    using assms by (auto simp: m_def)
  have addr: "buffer_address w n \<le> sw_capacity w" for n
    using assms(1) by (simp add: buffer_address_def index_def order.strict_implies_order)
  have second: "(if hdr_size T < ?msg then write_in_buffer (sw_capacity w) b (buffer_address w n)
       (take (?msg - hdr_size T) from) else b)
     = write_in_buffer (sw_capacity w) b (buffer_address w n) (take m from)" for b n
    using m addr [of n] by (cases "m = 0") (simp_all add: write_in_buffer_Nil)
  show ?thesis
    unfolding write_first_chunk_def Let_def size_min_min second
    using m by (simp add: ring_put_def u64_add_assoc buffer_address_def index_def)
qed

lemma read_first_chunk_pop:
  assumes "hdr_size T \<le> sw_capacity w" "sw_capacity w < u64_limit"
  defines "len \<equiv> hdr_get_length T (sw_header_received w)"
  defines "m \<equiv> min len (sw_capacity w - hdr_size T)"
  shows "read_first_chunk T w =
    (ring_peek w (hdr_size T) m, notify_full (ring_pop w (hdr_size T + m)), len - m)"
  using assms
  by (simp add: read_first_chunk_def ring_peek_def ring_pop_def Let_def max_payload_length_def u64_simps)

text \<open>\<open>copy_header\<close> reads the header at the front of the queue, wherever it lies in the ring.\<close>

lemma copy_header_peek:
  "copy_header T w = w\<lparr>sw_header_received := hdr_of_buffer T (ring_peek w 0 (hdr_size T))\<rparr>"
  if "sw_poped w < u64_limit"
  using that
  by (simp add: copy_header_def ring_peek_def read_from_buffer_def Let_def read_address_def u64_simps)

lemma copy_header_front:
  assumes "sw_inv w" "live w = hdr_get_buffer T h @ rest"
  shows "copy_header T w = w\<lparr>sw_header_received := h\<rparr>"
proof -
  have "length (hdr_get_buffer T h) \<le> length (live w)"
    unfolding assms(2) by simp
  then have "ring_peek w 0 (hdr_size T) = hdr_get_buffer T h"
    using ring_peek_live [OF assms(1), of 0 "hdr_size T"] assms(2) by simp
  moreover have "sw_poped w < u64_limit"
    using assms(1) by (simp add: sw_inv_def)
  ultimately show ?thesis by (simp add: copy_header_peek)
qed

text \<open>\<open>write\<close> of a message that fits appends header and body to the queue; it blocks exactly when the
  first chunk does not fit, and does nothing once the peer has closed the wire.\<close>

lemma wire_write_fits:
  assumes inv: "sw_inv w" and len: "length from = hdr_get_length T h"
    and fits: "length (live w) + hdr_size T + length from \<le> sw_capacity w"
      "hdr_size T + length from < budget w"
  defines "w' \<equiv> notify_empty (ring_put (ring_put w (hdr_get_buffer T h)) from)"
  shows "wire_write T w from h False = Some w'"
    "sw_inv w'" "live w' = live w @ hdr_get_buffer T h @ from"
    "sw_poped w' = sw_poped w" "sw_capacity w' = sw_capacity w"
proof -
  let ?w1 = "ring_put w (hdr_get_buffer T h)"
  have cap: "0 < sw_capacity w" using inv by (simp add: sw_inv_def)
  have w1: "sw_inv ?w1" "live ?w1 = live w @ hdr_get_buffer T h" "budget ?w1 = budget w - hdr_size T"
    using inv fits by (simp_all add: ring.put_ok ring.put_contents ring.put_budget)
  have "length (live ?w1) + length from \<le> sw_capacity ?w1" "length from < budget ?w1"
    using fits w1 by (simp_all del: length_live)
  note put = ring_put_laws [OF w1(1) this]
  show "sw_inv w'" "live w' = live w @ hdr_get_buffer T h @ from"
    "sw_poped w' = sw_poped w" "sw_capacity w' = sw_capacity w"
    using put w1(2) by (simp_all add: w'_def)
  have "write_first_chunk T w from h = (w', [])"
    using cap fits len by (simp add: write_first_chunk_put w'_def)
  moreover have "\<not> room w < min (hdr_get_length T h + hdr_size T) (sw_capacity w)"
    using fits len inv by (simp add: room_eq)
  ultimately show "wire_write T w from h False = Some w'"
    using fits len by (simp add: wire_write_def Let_def write_loop.simps)
qed

lemma wire_write_closed: "wire_write T w from h True = Some w"
  by (simp add: wire_write_def Let_def)

lemma wire_write_blocks:
  "room w < min (hdr_get_length T h + hdr_size T) (sw_capacity w) \<Longrightarrow> wire_write T w from h False = None"
  by (simp add: wire_write_def Let_def)

text \<open>\<open>read\<close> of the message at the front of the queue.\<close>

lemma wire_read_front:
  assumes inv: "sw_inv w" and hdr: "sw_header_received w = h"
    and front: "live w = hdr_get_buffer T h @ body @ rest"
    and len: "length body = hdr_get_length T h"
  defines "w' \<equiv> notify_full (ring_pop w (hdr_size T + length body))"
  shows "wire_read T w = Some (body, w')" "sw_inv w'" "live w' = rest"
proof -
  have total: "length (live w) = hdr_size T + length body + length rest"
    by (simp add: front del: length_live)
  then have bound: "hdr_size T + length body \<le> sw_capacity w"
    using live_bounded [OF inv] by linarith
  have limit: "sw_capacity w < u64_limit" using inv by (simp add: sw_inv_def)
  note pop = ring_pop_laws [OF inv, of "hdr_size T + length body"]
  show "sw_inv w'" "live w' = rest"
    using pop total by (simp_all add: w'_def front del: length_live)
  have "ring_peek w (hdr_size T) (length body) = body"
    using ring_peek_live [OF inv, of "hdr_size T" "length body"] total
    by (simp add: front del: length_live)
  then have "read_first_chunk T w = (body, w', 0)"
    using bound limit len hdr by (simp add: read_first_chunk_pop w'_def)
  then show "wire_read T w = Some (body, w')"
    by (simp add: wire_read_def read_loop.simps)
qed

text \<open>\<open>payload\<close> then \<open>dispose\<close>: the view denotes the body of the message, and disposing of it removes
  exactly that message from the queue.\<close>

lemma mod_less_no_wrap:
  assumes "s mod c < (s + n) mod c" "n \<le> c" "0 < (c :: nat)"
  shows "s mod c + n < c \<or> n = c"
proof (rule ccontr)
  assume no: "\<not> (s mod c + n < c \<or> n = c)"
  then have "s mod c + n - c < c" using assms(2) mod_less_divisor [OF assms(3), of s] by linarith
  then have "(s mod c + n) mod c = s mod c + n - c" using no by (simp add: le_mod_geq)
  then have "(s + n) mod c = s mod c + n - c" by (simp add: mod_add_left_eq)
  with assms no show False by linarith
qed

lemma payload_indices:
  assumes "sw_inv w" "hdr_size T + n \<le> length (live w)" "n = hdr_get_length T h"
  shows "index w (u64_add (sw_poped w) (hdr_size T)) = (sw_poped w + hdr_size T) mod sw_capacity w"
    "index w (u64_add (sw_poped w) (hdr_size T + hdr_get_length T h)) = (sw_poped w + hdr_size T + n) mod sw_capacity w"
    "read_address w (hdr_size T) = (sw_poped w + hdr_size T) mod sw_capacity w"
proof -
  have "sw_poped w + hdr_size T + n < u64_limit" using assms(1,2) by (auto simp: sw_inv_def)
  then show "index w (u64_add (sw_poped w) (hdr_size T)) = (sw_poped w + hdr_size T) mod sw_capacity w"
    "index w (u64_add (sw_poped w) (hdr_size T + hdr_get_length T h)) = (sw_poped w + hdr_size T + n) mod sw_capacity w"
    "read_address w (hdr_size T) = (sw_poped w + hdr_size T) mod sw_capacity w"
    by (simp_all add: index_def read_address_def u64_simps assms(3) add.assoc)
qed

text \<open>The message at the front, left in the buffer until it is disposed of.\<close>

lemma payload_in_buffer:
  assumes inv: "sw_inv w" and front: "live w = hdr_get_buffer T h @ body @ rest"
    and nowrap: "(sw_poped w + hdr_size T) mod sw_capacity w + length body < sw_capacity w"
    and w': "w' = w\<lparr>sw_need_dispose := hdr_size T + length body\<rparr>"
  shows "view_bytes w' (In_buffer ((sw_poped w + hdr_size T) mod sw_capacity w) (length body)) = Some body \<and>
    sw_inv (dispose w') \<and> live (dispose w') = rest"
proof -
  let ?s = "(sw_poped w + hdr_size T) mod sw_capacity w" and ?n = "length body"
  have total: "length (live w) = hdr_size T + ?n + length rest"
    by (simp add: front del: length_live)
  have cap: "length (sw_buffer w) = sw_capacity w" using inv by (simp add: sw_inv_def)
  have "sw_poped w + hdr_size T + ?n < u64_limit" using inv total by (auto simp: sw_inv_def)
  then have "read_address w (hdr_size T) = ?s" by (simp add: index_def read_address_def u64_simps)
  then have "mem_read (sw_buffer w) ?s ?n = ring_peek w (hdr_size T) ?n"
    using nowrap by (simp add: ring_peek_def read_from_buffer_def)
  then have "mem_read (sw_buffer w) ?s ?n = body"
    using ring_peek_live [OF inv, of "hdr_size T" ?n] total by (simp add: front del: length_live)
  moreover have "sw_inv (dispose w') \<and> live (dispose w') = rest"
  proof -
    let ?p = "ring_pop w' (hdr_size T + ?n)"
    have same: "dispose w' = ((notify_full ?p)\<lparr>sw_need_dispose := 0\<rparr>)\<lparr>sw_copy_of_payload := None\<rparr>"
      by (simp add: w' dispose_def Let_def ring_pop_def)
    have "sw_inv ?p" "live ?p = rest"
      using ring_pop_laws [of w' "hdr_size T + ?n"] inv total by (simp_all add: w' front del: length_live)
    then show ?thesis by (simp add: same)
  qed
  ultimately show ?thesis using nowrap cap by (simp add: w')
qed

lemma payload_front:
  assumes inv: "sw_inv w" and hdr: "sw_header_received w = h" and nd: "sw_need_dispose w = 0"
    and front: "live w = hdr_get_buffer T h @ body @ rest"
    and len: "length body = hdr_get_length T h"
  shows "\<exists>v w'. payload T w = Some (v, w') \<and> view_bytes w' v = Some body \<and>
           sw_inv (dispose w') \<and> live (dispose w') = rest"
proof -
  let ?c = "sw_capacity w" and ?s = "sw_poped w + hdr_size T" and ?n = "length body"
  have "length (live w) = hdr_size T + ?n + length rest" by (simp add: front del: length_live)
  then have bound: "hdr_size T + ?n \<le> ?c" and popped: "hdr_size T + ?n \<le> length (live w)"
    using live_bounded [OF inv] by linarith+
  note idx = payload_indices [OF inv popped len]
  show ?thesis
  proof (cases "?s mod ?c < (?s + ?n) mod ?c")
    case True
    have "0 < ?c" using inv by (simp add: sw_inv_def)
    then have "?s mod ?c + ?n < ?c"
      using mod_less_no_wrap [OF True] bound size_pos by linarith
    from payload_in_buffer [OF inv front this refl] show ?thesis
      using True by (auto simp: payload_def Let_def hdr idx len)
  next
    case False
    let ?w = "notify_full (ring_pop w (hdr_size T + ?n))"
    note rd = wire_read_front [OF inv hdr front len]
    have "payload T w = Some (Copied body, ?w\<lparr>sw_copy_of_payload := Some body\<rparr>)"
      using False rd(1) by (simp add: payload_def Let_def hdr idx)
    moreover have "sw_need_dispose ?w = 0"
      using nd by (simp add: notify_full_def ring_pop_def)
    then have "dispose (?w\<lparr>sw_copy_of_payload := Some body\<rparr>) = ?w\<lparr>sw_copy_of_payload := None\<rparr>"
      by (simp add: dispose_def Let_def)
    ultimately show ?thesis using rd by auto
  qed
qed

text \<open>Where the message is longer than the ring, \<open>payload\<close> may still take the window branch: then the
  window leaves the block.\<close>

lemma payload_window_overrun:
  assumes "sw_inv w" "sw_capacity w < hdr_get_length T (sw_header_received w)"
    and "payload T w = Some (In_buffer off len, w')"
  shows "view_bytes w' (In_buffer off len) = None"
proof -
  have "len = hdr_get_length T (sw_header_received w)" "sw_buffer w' = sw_buffer w"
      "index w (u64_add (sw_poped w) (hdr_size T))
         < index w (u64_add (sw_poped w) (hdr_size T + len))"
      "off = read_address w (hdr_size T)"
    using assms(3) by (auto simp: payload_def Let_def split: if_splits)
  moreover have "length (sw_buffer w) = sw_capacity w" using assms(1) by (simp add: sw_inv_def)
  ultimately show ?thesis
    using assms(2) size_pos by (auto simp: read_address_def)
qed

end

subsection \<open>The request and the response wire\<close>

lemma mh_ops_simps [simp]:
  "hdr_size message_header_ops = 6" "hdr_get_length message_header_ops h = unat (mh_length h)"
  "hdr_get_buffer message_header_ops = mh_get_buffer"
  by (simp_all add: message_header_ops_def mh_size_def)

lemma rh_ops_simps [simp]:
  "hdr_size response_header_ops = 8" "hdr_get_length response_header_ops k = unat (rh_length k)"
  "hdr_get_buffer response_header_ops = rh_get_buffer"
  by (simp_all add: response_header_ops_def rh_size_def)

lemma lh_ops_simps [simp]:
  "hdr_size length_header_ops = 4" "hdr_get_length length_header_ops l = unat (lh_length l)"
  "hdr_get_buffer length_header_ops = lh_get_buffer"
  by (simp_all add: length_header_ops_def lh_size_def)

lemma get_buffer_lengths [simp]:
  "length (mh_get_buffer h) = 6" "length (rh_get_buffer k) = 8" "length (lh_get_buffer l) = 4"
  using mh.length_get_buffer [of h] rh.length_get_buffer [of k] lh.length_get_buffer [of l]
  by simp_all

text \<open>Writing a request that fits into the free part of the request wire returns at once and appends
  the six header bytes and the body to the queue; the messages already queued are untouched.\<close>

theorem request_write_appends:
  assumes "sw_inv w" "length from = unat (mh_length h)"
    and "length (live w) + mh_size + length from \<le> sw_capacity w"
    and "mh_size + length from < budget w"
  shows "\<exists>w'. wire_write message_header_ops w from h False = Some w' \<and> sw_inv w' \<and>
           live w' = live w @ mh_get_buffer h @ from \<and> sw_poped w' = sw_poped w"
  using mh.wire_write_fits [of w "from" h] assms by (auto simp: mh_size_def)

theorem request_write_appends_witness:
  "\<exists>w'. wire_write message_header_ops (fresh_wire message_header_ops 16) [7, 8, 9]
         (mk_message_header 5 3) False = Some w' \<and> sw_inv w' \<and>
       live w' = [5, 0, 3, 0, 0, 0, 7, 8, 9]"
proof -
  have "mh_get_buffer (mk_message_header 5 3) = [5, 0, 3, 0, 0, 0]"
    by code_simp
  then show ?thesis
    using request_write_appends [of "fresh_wire message_header_ops 16" "[7, 8, 9]" "mk_message_header 5 3"]
    by (auto simp: mh_size_def mk_message_header_def)
qed

text \<open>With a response at the front of the response wire, wherever it lies in the ring,
  \<open>copy_header\<close> followed by \<open>read\<close> yields exactly its header and its body and leaves the rest of the
  queue.\<close>

theorem response_read_front:
  assumes "sw_inv w" "live w = rh_get_buffer h @ body @ rest" "length body = unat (rh_length h)"
  shows "sw_header_received (copy_header response_header_ops w) = h \<and>
    (\<exists>w'. wire_read response_header_ops (copy_header response_header_ops w) = Some (body, w') \<and>
          sw_inv w' \<and> live w' = rest)"
proof -
  have hdr: "copy_header response_header_ops w = w\<lparr>sw_header_received := h\<rparr>"
    using assms by (intro rh.copy_header_front [where rest = "body @ rest"]) simp_all
  show ?thesis
    using assms rh.wire_read_front [of "w\<lparr>sw_header_received := h\<rparr>" h body rest]
    by (simp add: hdr)
qed

theorem response_read_front_witness:
  "\<exists>w' v. wire_write response_header_ops (fresh_wire response_header_ops 16) [7, 8, 9]
            (mk_response_header 5 3 1) False = Some w' \<and>
          wire_read response_header_ops (copy_header response_header_ops w') = Some ([7, 8, 9], v) \<and>
          live v = []"
proof -
  let ?w = "fresh_wire response_header_ops 16" and ?h = "mk_response_header 5 3 1"
  obtain w' where w': "wire_write response_header_ops ?w [7, 8, 9] ?h False = Some w'" "sw_inv w'"
      "live w' = rh_get_buffer ?h @ [7, 8, 9] @ []"
    using rh.wire_write_fits [of ?w "[7, 8, 9]" ?h] by (auto simp: mk_response_header_def)
  show ?thesis
    using response_read_front [OF w'(2,3)] w'(1) by (auto simp: mk_response_header_def)
qed

text \<open>C27: with a request at the front of the request wire, \<open>payload\<close> never blocks and its view (a window of
  the ring, or a copy when the body crosses the end of the ring) denotes the body; \<open>dispose\<close> then
  removes exactly that request.\<close>

theorem request_payload_dispose:
  assumes "sw_inv w" "sw_need_dispose w = 0"
    and "live w = mh_get_buffer h @ body @ rest" "length body = unat (mh_length h)"
  shows "\<exists>v w'. payload message_header_ops (copy_header message_header_ops w) = Some (v, w') \<and>
           view_bytes w' v = Some body \<and> sw_inv (dispose w') \<and> live (dispose w') = rest"
proof -
  have hdr: "copy_header message_header_ops w = w\<lparr>sw_header_received := h\<rparr>"
    using assms by (intro mh.copy_header_front [where rest = "body @ rest"]) simp_all
  show ?thesis
    using assms mh.payload_front [of "w\<lparr>sw_header_received := h\<rparr>" h body rest]
    by (simp add: hdr mh_size_def)
qed

theorem request_payload_dispose_witness:
  "\<exists>w' v w''. wire_write message_header_ops (fresh_wire message_header_ops 16) [7, 8, 9]
            (mk_message_header 5 3) False = Some w' \<and>
          payload message_header_ops (copy_header message_header_ops w') = Some (v, w'') \<and>
          view_bytes w'' v = Some [7, 8, 9] \<and> live (dispose w'') = []"
proof -
  let ?w = "fresh_wire message_header_ops 16" and ?h = "mk_message_header 5 3"
  let ?w' = "notify_empty (ring_put (ring_put ?w (mh_get_buffer ?h)) [7, 8, 9])"
  have w': "wire_write message_header_ops ?w [7, 8, 9] ?h False = Some ?w'" "sw_inv ?w'"
      "live ?w' = mh_get_buffer ?h @ [7, 8, 9] @ []" "budget ?w' = u64_limit - 9"
    using mh.wire_write_fits [of ?w "[7, 8, 9]" ?h]
    by (simp_all add: mk_message_header_def ring.put_ok ring.put_contents ring.put_budget)
  have "sw_need_dispose ?w' = 0"
    by (simp add: notify_empty_def ring_put_def)
  from request_payload_dispose [OF w'(2) this w'(3)] w' show ?thesis
    by (auto simp: mk_message_header_def mh_size_def)
qed

text \<open>A request longer than the ring is transferred in several chunks, but \<open>payload\<close> decides between
  window and copy by comparing two positions modulo the capacity; when it takes the window, the view
  reaches past the end of the shared-memory block.\<close>

theorem payload_overrun:
  assumes "sw_inv w" "sw_capacity w < unat (mh_length (sw_header_received w))"
    and "payload message_header_ops w = Some (In_buffer off len, w')"
  shows "view_bytes w' (In_buffer off len) = None"
  using mh.payload_window_overrun [OF assms(1) _ assms(3)] assms(2) by simp

text \<open>A 20-byte request on a 16-byte ring, after the first chunk of its \<open>write\<close>.\<close>

theorem payload_overrun_witness:
  "let w0 = fst (write_first_chunk message_header_ops (fresh_wire message_header_ops 16)
                   (replicate 20 1) (mk_message_header 0 20));
       w = copy_header message_header_ops w0
   in sw_inv w \<and> sw_header_received w = mk_message_header 0 20 \<and>
      payload message_header_ops w = Some (In_buffer 6 20, w\<lparr>sw_need_dispose := 26\<rparr>) \<and>
      view_bytes (w\<lparr>sw_need_dispose := 26\<rparr>) (In_buffer 6 20) = None"
proof -
  let ?f = "fresh_wire message_header_ops 16" and ?h = "mk_message_header 0 20"
  let ?u = "notify_empty (ring_put (ring_put ?f (mh_get_buffer ?h)) (replicate 10 1))"
  let ?w = "copy_header message_header_ops ?u"
  have first: "fst (write_first_chunk message_header_ops ?f (replicate 20 1) ?h) = ?u"
    using mh.write_first_chunk_put [of ?f ?h "replicate 20 1"] by (simp add: mk_message_header_def)
  have w0: "sw_inv ?u" "live ?u = mh_get_buffer ?h @ replicate 10 1"
    by (simp_all add: ring.put_ok ring.put_contents ring.put_budget)
  have w: "?w = ?u\<lparr>sw_header_received := ?h\<rparr>"
    using mh.copy_header_front [of ?u ?h "replicate 10 1"] w0 by simp
  have len: "unat (mh_length ?h) = 20" by (simp add: mk_message_header_def)
  have payload: "payload message_header_ops ?w = Some (In_buffer 6 20, ?w\<lparr>sw_need_dispose := 26\<rparr>)"
    by (simp add: payload_def w len Let_def index_def read_address_def u64_add_def)
  have "view_bytes (?w\<lparr>sw_need_dispose := 26\<rparr>) (In_buffer 6 20) = None"
    by (rule payload_overrun [OF _ _ payload]) (use w0 in \<open>simp_all add: w len\<close>)
  with w0 payload first show ?thesis by (simp add: Let_def w split: if_splits)
qed

end
