(* ===== verification/Wire_Transfer.thy ===== *)
theory Wire_Transfer
  imports Wire_Message "HOL-Library.Sublist"
begin

section \<open>A message of any length crosses the wire\<close>

text \<open>
  \<open>simple_wire::write\<close> and \<open>simple_wire::read\<close> run in two processes.  Here each is a state machine
  whose steps are the code between two accesses to the condition variables: \<open>W_wait\<close>, \<open>W_loop_wait\<close>
  and \<open>R_wait\<close> are the waits, which a step leaves only when their predicate holds.  A run interleaves
  the steps of the two sides in any order.  The invariant relates the bytes each side has handled to
  the stream header @ body, chunk by chunk; it gives safety (the reader only ever holds a prefix of the
  body), freedom from deadlock and, with a measure, delivery of the whole message, also of one longer
  than the ring.
\<close>

datatype 'h writer =
    W_enter 'h "byte list"
  | W_wait 'h "byte list"
  | W_go 'h "byte list"
  | W_loop nat "byte list"
  | W_loop_wait nat "byte list"
  | W_loop_go nat "byte list"
  | W_return

datatype reader =
    R_peep
  | R_read
  | R_loop nat "byte list"
  | R_wait nat "byte list"
  | R_go nat "byte list"
  | R_return "byte list"

fun write_step ::
  "'h header_ops \<Rightarrow> bool \<Rightarrow> ('h, 'x) simple_wire_scheme \<Rightarrow> 'h writer
     \<Rightarrow> ('h, 'x) simple_wire_scheme \<times> 'h writer" where
  "write_step T closed w (W_enter h from) =
     (if size_min (hdr_get_length T h + hdr_size T) (sw_capacity w) > room w \<and> \<not> closed
      then (w\<lparr>sw_wait_for_write := True\<rparr>, W_wait h from)
      else (w, W_go h from))"
| "write_step T closed w (W_wait h from) =
     (if room w \<ge> size_min (hdr_get_length T h + hdr_size T) (sw_capacity w) \<or> closed
      then (w\<lparr>sw_wait_for_write := False\<rparr>, W_go h from)
      else (w, W_wait h from))"
| "write_step T closed w (W_go h from) =
     (if closed then (w, W_return)
      else (case write_first_chunk T w from h of
              (w', from') \<Rightarrow>
                (w', W_loop (hdr_get_length T h + hdr_size T
                             - size_min (hdr_get_length T h + hdr_size T) (sw_capacity w)) from')))"
| "write_step T closed w (W_loop len from) =
     (if len = 0 then (w, W_return)
      else if size_min len (sw_capacity w) > room w \<and> \<not> closed
      then (w\<lparr>sw_wait_for_write := True\<rparr>, W_loop_wait len from)
      else (w, W_loop_go len from))"
| "write_step T closed w (W_loop_wait len from) =
     (if room w \<ge> size_min len (sw_capacity w) \<or> closed
      then (w\<lparr>sw_wait_for_write := False\<rparr>, W_loop_go len from)
      else (w, W_loop_wait len from))"
| "write_step T closed w (W_loop_go len from) =
     (if closed then (w, W_return)
      else (case write_next_chunk w from len of
              (w', from') \<Rightarrow> (w', W_loop (len - size_min len (sw_capacity w)) from')))"
| "write_step T closed w W_return = (w, W_return)"

fun read_step ::
  "'h header_ops \<Rightarrow> ('h, 'x) simple_wire_scheme \<Rightarrow> reader
     \<Rightarrow> ('h, 'x) simple_wire_scheme \<times> reader" where
  "read_step T w R_peep =
     (if stored w \<ge> hdr_size T then (copy_header T w, R_read) else (w, R_peep))"
| "read_step T w R_read =
     (case read_first_chunk T w of (bytes, w', len) \<Rightarrow> (w', R_loop len bytes))"
| "read_step T w (R_loop len acc) =
     (if len = 0 then (w, R_return acc) else (w\<lparr>sw_wait_for_read := True\<rparr>, R_wait len acc))"
| "read_step T w (R_wait len acc) =
     (if stored w \<ge> size_min len (sw_capacity w)
      then (w\<lparr>sw_wait_for_read := False\<rparr>, R_go len acc)
      else (w, R_wait len acc))"
| "read_step T w (R_go len acc) =
     (case read_next_chunk w len of
        (bytes, w') \<Rightarrow> (w', R_loop (len - size_min len (sw_capacity w)) (acc @ bytes)))"
| "read_step T w (R_return acc) = (w, R_return acc)"

type_synonym ('h, 'x) link = "('h, 'x) simple_wire_scheme \<times> 'h writer \<times> reader"

inductive transfer_step :: "'h header_ops \<Rightarrow> ('h, 'x) link \<Rightarrow> ('h, 'x) link \<Rightarrow> bool" for T where
  writer: "write_step T False w p = (w', p') \<Longrightarrow> transfer_step T (w, p, r) (w', p', r)"
| reader: "read_step T w r = (w', r') \<Longrightarrow> transfer_step T (w, p, r) (w', p, r')"

inductive transfer_reach :: "'h header_ops \<Rightarrow> ('h, 'x) link \<Rightarrow> ('h, 'x) link \<Rightarrow> bool" for T s where
  start: "transfer_reach T s s"
| step: "transfer_reach T s t \<Longrightarrow> transfer_step T t u \<Longrightarrow> transfer_reach T s u"

inductive_simps transfer_step_iff: "transfer_step T (w, p, r) s"

subsection \<open>The invariant\<close>

text \<open>What crosses the wire: the header followed by the body.\<close>

definition msg_stream :: "'h header_ops \<Rightarrow> 'h \<Rightarrow> byte list \<Rightarrow> byte list" where
  "msg_stream T h from = hdr_get_buffer T h @ from"

text \<open>The bytes handled after \<open>i\<close> chunks of a stream of \<open>n\<close> bytes on a ring of \<open>c\<close> bytes.\<close>

definition chunked :: "nat \<Rightarrow> nat \<Rightarrow> nat \<Rightarrow> nat" where
  "chunked n c i = min n (i * c)"

fun writer_at :: "'h header_ops \<Rightarrow> 'h \<Rightarrow> byte list \<Rightarrow> nat \<Rightarrow> nat \<Rightarrow> nat \<Rightarrow> 'h writer \<Rightarrow> bool" where
  "writer_at T h from c rm n (W_enter h' f) = (h' = h \<and> f = from \<and> n = 0)"
| "writer_at T h from c rm n (W_wait h' f) = (h' = h \<and> f = from \<and> n = 0)"
| "writer_at T h from c rm n (W_go h' f) = (h' = h \<and> f = from \<and> n = 0)"
| "writer_at T h from c rm n (W_loop len f) =
     (0 < n \<and> f = drop n (msg_stream T h from) \<and> len = length f)"
| "writer_at T h from c rm n (W_loop_wait len f) =
     (0 < n \<and> f = drop n (msg_stream T h from) \<and> len = length f \<and> 0 < len)"
| "writer_at T h from c rm n (W_loop_go len f) =
     (0 < n \<and> f = drop n (msg_stream T h from) \<and> len = length f \<and> 0 < len \<and> min len c \<le> rm)"
| "writer_at T h from c rm n W_return = (n = hdr_size T + length from)"

fun reader_at :: "'h header_ops \<Rightarrow> 'h \<Rightarrow> byte list \<Rightarrow> 'h \<Rightarrow> nat \<Rightarrow> nat \<Rightarrow> nat \<Rightarrow> reader \<Rightarrow> bool" where
  "reader_at T h from hr c n m R_peep = (m = 0)"
| "reader_at T h from hr c n m R_read = (m = 0 \<and> hr = h \<and> 0 < n)"
| "reader_at T h from hr c n m (R_loop len acc) =
     (0 < m \<and> acc = drop (hdr_size T) (take m (msg_stream T h from)) \<and>
      len = hdr_size T + length from - m)"
| "reader_at T h from hr c n m (R_wait len acc) =
     (0 < m \<and> acc = drop (hdr_size T) (take m (msg_stream T h from)) \<and>
      len = hdr_size T + length from - m \<and> 0 < len)"
| "reader_at T h from hr c n m (R_go len acc) =
     (0 < m \<and> acc = drop (hdr_size T) (take m (msg_stream T h from)) \<and>
      len = hdr_size T + length from - m \<and> 0 < len \<and> min len c \<le> n - m)"
| "reader_at T h from hr c n m (R_return acc) = (m = hdr_size T + length from \<and> acc = from)"

definition transfer_inv ::
  "'h header_ops \<Rightarrow> 'h \<Rightarrow> byte list \<Rightarrow> nat \<Rightarrow> nat \<Rightarrow> ('h, 'x) link \<Rightarrow> bool" where
  "transfer_inv T h from i j s =
     (case s of (w, p, r) \<Rightarrow>
       let S = msg_stream T h from; c = sw_capacity w;
           n = chunked (length S) c i; m = chunked (length S) c j
       in sw_inv w \<and> hdr_size T \<le> c \<and> m \<le> n \<and> n \<le> m + c \<and>
          live w = drop m (take n S) \<and> length S - n < budget w \<and>
          writer_at T h from c (c - (n - m)) n p \<and>
          reader_at T h from (sw_header_received w) c n m r)"

text \<open>What the reader holds.\<close>

fun received :: "reader \<Rightarrow> byte list" where
  "received R_peep = []"
| "received R_read = []"
| "received (R_loop l acc) = acc"
| "received (R_wait l acc) = acc"
| "received (R_go l acc) = acc"
| "received (R_return acc) = acc"

text \<open>The termination measure: what each side still has to do, four points a byte.\<close>

fun writer_measure :: "'h header_ops \<Rightarrow> 'h writer \<Rightarrow> nat" where
  "writer_measure T (W_enter h f) = 4 * (hdr_get_length T h + hdr_size T) + 4"
| "writer_measure T (W_wait h f) = 4 * (hdr_get_length T h + hdr_size T) + 3"
| "writer_measure T (W_go h f) = 4 * (hdr_get_length T h + hdr_size T) + 2"
| "writer_measure T (W_loop l f) = 4 * l + 4"
| "writer_measure T (W_loop_wait l f) = 4 * l + 3"
| "writer_measure T (W_loop_go l f) = 4 * l + 2"
| "writer_measure T W_return = 0"

fun reader_measure :: "nat \<Rightarrow> reader \<Rightarrow> nat" where
  "reader_measure n R_peep = 4 * n + 8"
| "reader_measure n R_read = 4 * n + 7"
| "reader_measure n (R_loop l acc) = 4 * l + 4"
| "reader_measure n (R_wait l acc) = 4 * l + 3"
| "reader_measure n (R_go l acc) = 4 * l + 2"
| "reader_measure n (R_return acc) = 0"

definition transfer_measure :: "'h header_ops \<Rightarrow> nat \<Rightarrow> ('h, 'x) link \<Rightarrow> nat" where
  "transfer_measure T n s = (case s of (w, p, r) \<Rightarrow> writer_measure T p + reader_measure n r)"

lemma transfer_measure_simp [simp]:
  "transfer_measure T n (w, p, r) = writer_measure T p + reader_measure n r"
  by (simp add: transfer_measure_def)

lemma chunked_le: "chunked n c i \<le> n"
  by (simp add: chunked_def)

lemma chunked_Suc: "chunked n c (Suc i) = chunked n c i + min (n - chunked n c i) c"
  by (auto simp: chunked_def min_def)

lemma chunked_0 [simp]: "chunked n c 0 = 0"
  by (simp add: chunked_def)

lemma chunked_pos_iff: "0 < c \<Longrightarrow> 0 < n \<Longrightarrow> 0 < chunked n c i \<longleftrightarrow> 0 < i"
  by (auto simp: chunked_def)

lemma chunked_mono: "i \<le> j \<Longrightarrow> chunked n c i \<le> chunked n c j"
  unfolding chunked_def by (intro min.mono mult_le_mono1) auto

text \<open>Between two chunk counts there is no chunk or at least one whole chunk.\<close>

lemma chunked_gap:
  assumes "chunked n c j < chunked n c i"
  shows "min (n - chunked n c j) c \<le> chunked n c i - chunked n c j"
proof -
  have "Suc j \<le> i"
    using assms chunked_mono [of i j n c] by (cases "i \<le> j") auto
  then have "chunked n c (Suc j) \<le> chunked n c i" by (rule chunked_mono)
  then show ?thesis by (simp add: chunked_Suc)
qed

lemma writer_at_mono:
  "writer_at T h from c rm n p \<Longrightarrow> rm \<le> rm' \<Longrightarrow> writer_at T h from c rm' n p"
  by (cases p) auto

lemma reader_at_mono:
  "reader_at T h from hr c n m r \<Longrightarrow> n \<le> n' \<Longrightarrow> reader_at T h from hr c n' m r"
  by (cases r) auto

lemma wait_flag_simps [simp]:
  "sw_capacity (w\<lparr>sw_wait_for_write := f\<rparr>) = sw_capacity w"
  "sw_capacity (w\<lparr>sw_wait_for_read := f\<rparr>) = sw_capacity w"
  by simp_all

subsection \<open>Chunks advance the stream\<close>

lemma write_next_chunk_stream:
  assumes inv: "sw_inv w" and k: "k = min (length f) (sw_capacity w)"
    and fits: "length (live w) + k \<le> sw_capacity w" "k < budget w"
    and step: "write_next_chunk w f (length f) = (w', f')"
  shows "sw_inv w' \<and> live w' = live w @ take k f \<and> budget w' = budget w - k \<and> f' = drop k f \<and>
    sw_capacity w' = sw_capacity w \<and> sw_header_received w' = sw_header_received w"
proof -
  have len: "length (take k f) = k" using k by simp
  have "w' = notify_empty (ring_put w (take k f))" "f' = drop k f"
    using step k by (simp_all add: write_next_chunk_put)
  then show ?thesis
    using ring_put_laws [OF inv, of "take k f"] fits len ring.put_budget [OF inv, of "take k f"]
    by (simp del: length_live)
qed

lemma read_next_chunk_stream:
  assumes inv: "sw_inv w" and k: "k = min len (sw_capacity w)" and avail: "k \<le> length (live w)"
    and step: "read_next_chunk w len = (bytes, w')"
  shows "sw_inv w' \<and> bytes = take k (live w) \<and> live w' = drop k (live w) \<and> budget w' = budget w \<and>
    sw_capacity w' = sw_capacity w \<and> sw_header_received w' = sw_header_received w"
proof -
  have "bytes = ring_peek w 0 k" "w' = notify_full (ring_pop w k)"
    using step k by (simp_all add: read_next_chunk_pop)
  then show ?thesis
    using ring_pop_laws [OF inv avail] ring_peek_live [OF inv, of 0 k] avail ring.pop_budget [of w k]
    by (simp del: length_live)
qed

context wire_header
begin

lemma length_msg_stream [simp]: "length (msg_stream T h from) = hdr_size T + length from"
  by (simp add: msg_stream_def)

lemma drop_msg_stream [simp]: "drop (hdr_size T + m) (msg_stream T h from) = drop m from"
  by (simp add: msg_stream_def)

lemma take_msg_stream [simp]:
  "take (hdr_size T + m) (msg_stream T h from) = hdr_get_buffer T h @ take m from"
  by (simp add: msg_stream_def)

lemma write_first_chunk_stream:
  assumes inv: "sw_inv w" and empty: "live w = []" and cap: "hdr_size T \<le> sw_capacity w"
    and len: "length from = hdr_get_length T h"
    and S: "S = msg_stream T h from" and k: "k = min (length S) (sw_capacity w)"
    and b: "length S < budget w"
    and step: "write_first_chunk T w from h = (w', f')"
  shows "sw_inv w' \<and> live w' = take k S \<and> budget w' = budget w - k \<and> f' = drop k S \<and>
    sw_capacity w' = sw_capacity w \<and> sw_header_received w' = sw_header_received w"
proof -
  define m where "m = min (length from) (sw_capacity w - hdr_size T)"
  let ?w1 = "ring_put w (hdr_get_buffer T h)"
  have km: "k = hdr_size T + m" using cap by (auto simp: k m_def S)
  have c: "0 < sw_capacity w" using inv by (simp add: sw_inv_def)
  have w': "w' = notify_empty (ring_put ?w1 (take m from))" "f' = drop m from"
    using step c cap len by (simp_all add: write_first_chunk_put m_def)
  have w1: "sw_inv ?w1" "live ?w1 = hdr_get_buffer T h" "budget ?w1 = budget w - hdr_size T"
    using inv empty cap b ring.put_ok [of w "hdr_get_buffer T h"]
      ring.put_contents [of w "hdr_get_buffer T h"] ring.put_budget [of w "hdr_get_buffer T h"]
    by (simp_all add: S del: length_live)
  have lm: "length (take m from) = m" "hdr_size T + m \<le> sw_capacity w" "m < budget ?w1"
    using cap b w1 by (auto simp: m_def S)
  show ?thesis
    using ring_put_laws [OF w1(1), of "take m from"] ring.put_budget [OF w1(1), of "take m from"]
      lm w1 cap by (simp add: w' km S del: length_live)
qed

lemma read_first_chunk_stream:
  assumes inv: "sw_inv w" and hdr: "sw_header_received w = h" and cap: "hdr_size T \<le> sw_capacity w"
    and len: "length from = hdr_get_length T h"
    and S: "S = msg_stream T h from" and k: "k = min (length S) (sw_capacity w)"
    and front: "live w = take n S" and n: "k \<le> n" "n \<le> length S"
    and step: "read_first_chunk T w = (bytes, w', rest)"
  shows "sw_inv w' \<and> bytes = drop (hdr_size T) (take k S) \<and> live w' = drop k (take n S) \<and>
    rest = length S - k \<and> budget w' = budget w \<and> sw_capacity w' = sw_capacity w"
proof -
  define m where "m = min (length from) (sw_capacity w - hdr_size T)"
  have km: "k = hdr_size T + m" using cap by (auto simp: k m_def S)
  have limit: "sw_capacity w < u64_limit" using inv by (simp add: sw_inv_def)
  have avail: "hdr_size T + m \<le> length (live w)" using n km by (simp add: front del: length_live)
  have eqs: "bytes = ring_peek w (hdr_size T) m" "w' = notify_full (ring_pop w (hdr_size T + m))"
      "rest = length from - m"
    using step cap limit hdr len by (simp_all add: read_first_chunk_pop m_def)
  have "bytes = take m (drop (hdr_size T) (take n S))"
    using ring_peek_live [OF inv avail] by (simp add: eqs front)
  also have "\<dots> = drop (hdr_size T) (take k S)"
    using n km by (simp add: drop_take min_absorb1)
  finally show ?thesis
    using ring_pop_laws [OF inv avail] km ring.pop_budget [of w "hdr_size T + m"]
    by (simp add: eqs front S)
qed

subsection \<open>Every step keeps the invariant\<close>

lemma transfer_room:
  assumes "transfer_inv T h from i j (w, p, r)"
  shows "room w = sw_capacity w - (chunked (hdr_size T + length from) (sw_capacity w) i
                                   - chunked (hdr_size T + length from) (sw_capacity w) j)"
    "stored w = chunked (hdr_size T + length from) (sw_capacity w) i
                - chunked (hdr_size T + length from) (sw_capacity w) j"
proof -
  let ?n = "chunked (hdr_size T + length from) (sw_capacity w)"
  have inv: "sw_inv w" and live: "live w = drop (?n j) (take (?n i) (msg_stream T h from))"
    using assms by (auto simp: transfer_inv_def Let_def)
  have "length (live w) = ?n i - ?n j"
    using chunked_le [of "hdr_size T + length from" "sw_capacity w" i] by (simp add: live del: length_live)
  then show "room w = sw_capacity w - (?n i - ?n j)" "stored w = ?n i - ?n j"
    using inv by (simp_all add: room_eq stored_live del: length_live)
qed

lemma writer_go_inv:
  assumes len: "length from = hdr_get_length T h"
    and inv: "transfer_inv T h from i j (w, W_go h from, r)"
    and step: "write_first_chunk T w from h = (w', f')"
    and k: "k = min (hdr_size T + length from) (sw_capacity w)"
  shows "transfer_inv T h from (Suc i) j (w', W_loop (hdr_size T + length from - k) f', r)"
proof -
  let ?S = "msg_stream T h from" and ?c = "sw_capacity w"
  let ?n = "chunked (hdr_size T + length from) ?c"
  from inv have w: "sw_inv w" "hdr_size T \<le> ?c" "?n i = 0" "?n j = 0" "live w = []"
      "length ?S < budget w" and rd: "reader_at T h from (sw_header_received w) ?c (?n i) (?n j) r"
    by (auto simp: transfer_inv_def Let_def)
  have n: "?n (Suc i) = k" using w k by (simp add: chunked_Suc)
  have pos: "0 < k" using k w(2) size_pos by linarith
  note fc = write_first_chunk_stream [OF w(1) w(5) w(2) len refl _ w(6) step, of k]
  have "reader_at T h from (sw_header_received w) ?c (?n (Suc i)) (?n j) r"
    using rd by (rule reader_at_mono) (use w n in simp)
  moreover have "k \<le> ?c" "k \<le> hdr_size T + length from" using k by auto
  ultimately show ?thesis
    using fc k w n pos by (auto simp: transfer_inv_def Let_def)
qed

lemma writer_loop_go_inv:
  assumes inv: "transfer_inv T h from i j (w, W_loop_go len f, r)"
    and step: "write_next_chunk w f len = (w', f')" and k: "k = min len (sw_capacity w)"
  shows "transfer_inv T h from (Suc i) j (w', W_loop (len - k) f', r)"
proof -
  let ?S = "msg_stream T h from" and ?c = "sw_capacity w"
  let ?n = "chunked (hdr_size T + length from) ?c"
  from inv have w: "sw_inv w" "hdr_size T \<le> ?c" "?n j \<le> ?n i" "?n i \<le> ?n j + ?c"
      "live w = drop (?n j) (take (?n i) ?S)" "length ?S - ?n i < budget w"
    and wr: "0 < ?n i" "f = drop (?n i) ?S" "len = length f" "0 < len" "k \<le> ?c - (?n i - ?n j)"
    and rd: "reader_at T h from (sw_header_received w) ?c (?n i) (?n j) r"
    by (auto simp: transfer_inv_def Let_def k)
  have flen: "length f = hdr_size T + length from - ?n i" using wr by simp
  have n: "?n (Suc i) = ?n i + k" using flen wr k by (simp add: chunked_Suc)
  have live: "length (live w) = ?n i - ?n j"
    using chunked_le [of "hdr_size T + length from" ?c i] by (simp add: w(5) del: length_live)
  have ext: "live w @ take k f = drop (?n j) (take (?n i + k) ?S)"
    unfolding w(5) wr(2) by (rule window_extend) (use w(3) chunked_le in auto)
  have rd': "reader_at T h from (sw_header_received w) ?c (?n i + k) (?n j) r"
    using rd by (rule reader_at_mono) simp
  have kb: "k < budget w" using w(6) flen wr(3) k by simp
  have kc: "length (live w) + k \<le> ?c" using live wr(5) w(4) by linarith
  have nc: "sw_inv w'" "live w' = live w @ take k f" "budget w' = budget w - k" "f' = drop k f"
      "sw_capacity w' = ?c" "sw_header_received w' = sw_header_received w"
    using write_next_chunk_stream [OF w(1) _ kc kb, of f w' f'] step k wr(3) by simp_all
  have f': "f' = drop (?n i + k) ?S" "len - k = length f'"
    using nc(4) wr(2,3) by (simp_all add: add.commute)
  have "?n i + k \<le> ?n j + ?c" using kc live w(3) by linarith
  moreover have "hdr_size T + length from - (?n i + k) < budget w - k"
    using w(6) kb by simp
  ultimately show ?thesis
    unfolding transfer_inv_def prod.case Let_def nc(5) length_msg_stream n
    using nc(1,2,3,6) ext rd' f' w(2,3) wr(1) by simp
qed

lemma writer_step_inv:
  assumes len: "length from = hdr_get_length T h"
    and inv: "transfer_inv T h from i j (w, p, r)" and step: "write_step T False w p = (w', p')"
  shows "\<exists>i'. transfer_inv T h from i' j (w', p', r)"
proof (cases p)
  case (W_go h' f)
  then have "h' = h" "f = from" using inv by (auto simp: transfer_inv_def Let_def)
  then show ?thesis
    using writer_go_inv [OF len _ _ refl, of i j w r] W_go inv step len
    by (auto split: prod.splits simp: add.commute intro!: exI [of _ "Suc i"])
next
  case (W_loop_go l f)
  then show ?thesis
    using writer_loop_go_inv [OF _ _ refl, of h "from" i j w l f r] inv step
    by (auto split: prod.splits intro!: exI [of _ "Suc i"])
next
  case (W_loop l f)
  then show ?thesis
    using inv step transfer_room(1) [OF inv]
      chunked_le [of "hdr_size T + length from" "sw_capacity w" i]
    by (auto simp: transfer_inv_def Let_def split: if_splits intro!: exI [of _ i])
next
  case (W_loop_wait l f)
  then show ?thesis
    using inv step transfer_room(1) [OF inv]
    by (auto simp: transfer_inv_def Let_def split: if_splits intro!: exI [of _ i])
qed (use inv step in \<open>auto simp: transfer_inv_def Let_def split: if_splits intro!: exI [of _ i]\<close>)

lemma stream_front:
  assumes "transfer_inv T h from i j (w, p, r)"
    and "chunked (hdr_size T + length from) (sw_capacity w) j = 0" "0 < stored w"
  shows "min (hdr_size T + length from) (sw_capacity w)
           \<le> chunked (hdr_size T + length from) (sw_capacity w) i"
    "\<exists>rest. live w = hdr_get_buffer T h @ rest"
proof -
  let ?n = "chunked (hdr_size T + length from) (sw_capacity w)"
  have w: "hdr_size T \<le> sw_capacity w" "live w = take (?n i) (msg_stream T h from)"
    using assms by (auto simp: transfer_inv_def Let_def)
  show le: "min (hdr_size T + length from) (sw_capacity w) \<le> ?n i"
    using chunked_gap [of "hdr_size T + length from" "sw_capacity w" j i] assms(2,3)
      transfer_room(2) [OF assms(1)] by simp
  then have "hdr_size T \<le> ?n i" using w(1) by linarith
  then obtain m where "?n i = hdr_size T + m" using le_Suc_ex by blast
  then show "\<exists>rest. live w = hdr_get_buffer T h @ rest" by (simp add: w(2))
qed

lemma reader_read_inv:
  assumes len: "length from = hdr_get_length T h"
    and inv: "transfer_inv T h from i j (w, p, R_read)"
    and step: "read_first_chunk T w = (bytes, w', rest)"
  shows "transfer_inv T h from i (Suc j) (w', p, R_loop rest bytes)"
proof -
  let ?S = "msg_stream T h from" and ?c = "sw_capacity w"
  let ?n = "chunked (hdr_size T + length from) ?c" and ?k = "min (hdr_size T + length from) (sw_capacity w)"
  from inv have w: "sw_inv w" "hdr_size T \<le> ?c" "?n j = 0" "live w = take (?n i) ?S" "?n i \<le> ?c"
      "length ?S - ?n i < budget w" "sw_header_received w = h" "0 < ?n i"
    and wr: "writer_at T h from ?c (?c - ?n i) (?n i) p"
    by (auto simp: transfer_inv_def Let_def)
  have st: "0 < stored w" using transfer_room(2) [OF inv] w by simp
  note front = stream_front(1) [OF inv w(3) st]
  have n: "?n (Suc j) = ?k" using w(3) by (simp add: chunked_Suc)
  have pos: "0 < ?k" using w(2) size_pos by linarith
  note fc = read_first_chunk_stream [OF w(1) w(7) w(2) len refl _ w(4) _ _ step, of ?k]
  have "writer_at T h from ?c (?c - (?n i - ?k)) (?n i) p"
    using wr by (rule writer_at_mono) simp
  then show ?thesis
    using fc front w n pos chunked_le [of "hdr_size T + length from" ?c i]
    by (auto simp: transfer_inv_def Let_def)
qed

lemma reader_go_inv:
  assumes inv: "transfer_inv T h from i j (w, p, R_go len acc)"
    and step: "read_next_chunk w len = (bytes, w')" and k: "k = min len (sw_capacity w)"
  shows "transfer_inv T h from i (Suc j) (w', p, R_loop (len - k) (acc @ bytes))"
proof -
  let ?S = "msg_stream T h from" and ?c = "sw_capacity w"
  let ?n = "chunked (hdr_size T + length from) ?c"
  from inv have w: "sw_inv w" "hdr_size T \<le> ?c" "?n j \<le> ?n i" "?n i \<le> ?n j + ?c"
      "live w = drop (?n j) (take (?n i) ?S)" "length ?S - ?n i < budget w"
    and rd: "0 < ?n j" "acc = drop (hdr_size T) (take (?n j) ?S)"
      "len = hdr_size T + length from - ?n j" "0 < len" "k \<le> ?n i - ?n j"
    and wr: "writer_at T h from ?c (?c - (?n i - ?n j)) (?n i) p"
    by (auto simp: transfer_inv_def Let_def k)
  have n: "?n (Suc j) = ?n j + k" using rd k by (simp add: chunked_Suc)
  have "length (live w) = ?n i - ?n j"
    using chunked_le [of "hdr_size T + length from" ?c i] by (simp add: w(5) del: length_live)
  then have "k \<le> length (live w)" using rd(5) by simp
  note nc = read_next_chunk_stream [OF w(1) k this step]
  have hj: "hdr_size T \<le> ?n j"
    using chunked_gap [of "hdr_size T + length from" ?c 0 j] rd(1) w(2) by simp
  have "acc @ bytes = drop (hdr_size T) (take (?n j + k) ?S)"
  proof -
    have "bytes = take k (drop (?n j) ?S)"
      using nc rd(5) w(3) by (simp add: w(5) take_drop min_def)
    then show ?thesis
      unfolding rd(2) using hj chunked_le [of "hdr_size T + length from" ?c j]
      by (simp add: window_extend)
  qed
  moreover have "writer_at T h from ?c (?c - (?n i - (?n j + k))) (?n i) p"
    using wr by (rule writer_at_mono) simp
  moreover have "live w' = drop (?n j + k) (take (?n i) ?S)"
    using nc by (simp add: w(5) add.commute)
  ultimately show ?thesis
    using nc w rd n by (auto simp: transfer_inv_def Let_def)
qed

lemma reader_peep_inv:
  assumes inv: "transfer_inv T h from i j (w, p, R_peep)" and avail: "hdr_size T \<le> stored w"
  shows "transfer_inv T h from i j (copy_header T w, p, R_read)"
proof -
  have n: "chunked (hdr_size T + length from) (sw_capacity w) j = 0" and w: "sw_inv w"
    using inv by (auto simp: transfer_inv_def Let_def)
  have st: "0 < stored w" using avail size_pos by linarith
  have "copy_header T w = w\<lparr>sw_header_received := h\<rparr>"
    using stream_front(2) [OF inv n st] copy_header_front [OF w, of h] by blast
  then show ?thesis
    using inv st transfer_room(2) [OF inv] by (auto simp: transfer_inv_def Let_def)
qed

lemma reader_step_inv:
  assumes len: "length from = hdr_get_length T h"
    and inv: "transfer_inv T h from i j (w, p, r)" and step: "read_step T w r = (w', r')"
  shows "\<exists>j'. transfer_inv T h from i j' (w', p, r')"
proof (cases r)
  case R_peep
  then show ?thesis
    using inv step reader_peep_inv [of h "from" i j w p] by (auto split: if_splits)
next
  case R_read
  then show ?thesis
    using inv step reader_read_inv [OF len, of i j w p]
    by (auto split: prod.splits intro!: exI [of _ "Suc j"])
next
  case (R_loop l acc)
  then show ?thesis
    using inv step chunked_le [of "hdr_size T + length from" "sw_capacity w" j]
    by (auto simp: transfer_inv_def Let_def split: if_splits intro!: exI [of _ j])
next
  case (R_wait l acc)
  then show ?thesis
    using inv step transfer_room(2) [OF inv]
    by (auto simp: transfer_inv_def Let_def split: if_splits intro!: exI [of _ j])
next
  case (R_go l acc)
  then show ?thesis
    using inv step reader_go_inv [OF _ _ refl, of h "from" i j w p l acc]
    by (auto split: prod.splits intro!: exI [of _ "Suc j"])
next
  case (R_return acc)
  then show ?thesis using inv step by auto
qed

lemma transfer_start:
  assumes "sw_inv w" "live w = []" "hdr_size T \<le> sw_capacity w" "hdr_size T + length from < budget w"
  shows "transfer_inv T h from 0 0 (w, W_enter h from, R_peep)"
  using assms by (simp add: transfer_inv_def)

lemma transfer_reach_inv:
  assumes "transfer_reach T s t" "length from = hdr_get_length T h" "transfer_inv T h from 0 0 s"
  shows "\<exists>i j. transfer_inv T h from i j t"
  using assms
proof (induction rule: transfer_reach.induct)
  case (step t u)
  then obtain i j where t: "transfer_inv T h from i j t" by blast
  from step.hyps(2) show ?case
    using writer_step_inv [OF step.prems(1)] reader_step_inv [OF step.prems(1)] t
    by cases blast+
qed blast

subsection \<open>Progress\<close>

lemma chunk_measure:
  "0 < l \<Longrightarrow> 0 < c \<Longrightarrow> Suc (Suc (4 * (l - min l c))) < 4 * l" for c l :: nat
  by (cases "l \<le> c") auto

lemma writer_progress:
  assumes "0 < sw_capacity w" "write_step T False w p = (w', p')" "\<And>l f. p = W_loop_go l f \<Longrightarrow> 0 < l"
  shows "(w', p') = (w, p) \<or> writer_measure T p' < writer_measure T p"
proof (cases p)
  case (W_go h f)
  then show ?thesis
    using assms(1,2) chunk_measure [of "hdr_get_length T h + hdr_size T" "sw_capacity w"] size_pos
    by (auto split: prod.splits)
next
  case (W_loop_go l f)
  then show ?thesis
    using assms chunk_measure [of l "sw_capacity w"] by (auto split: prod.splits)
qed (use assms in \<open>auto split: if_splits\<close>)

lemma reader_progress:
  assumes "0 < sw_capacity w" "read_step T w r = (w', r')" "\<And>l acc. r = R_go l acc \<Longrightarrow> 0 < l"
    and "r = R_read \<Longrightarrow> hdr_get_length T (sw_header_received w) \<le> n"
  shows "(w', r') = (w, r) \<or> reader_measure n r' < reader_measure n r"
proof (cases r)
  case (R_go l acc)
  then show ?thesis
    using assms chunk_measure [of l "sw_capacity w"] by (auto split: prod.splits)
qed (use assms in \<open>auto simp: read_first_chunk_def Let_def split: if_splits prod.splits\<close>)

lemma transfer_step_progress:
  assumes "transfer_inv T h from i j s" "transfer_step T s t" "length from = hdr_get_length T h"
  shows "t = s \<or> transfer_measure T (length from) t < transfer_measure T (length from) s"
proof -
  obtain w p r where s: "s = (w, p, r)" by (cases s)
  have c: "0 < sw_capacity w" and hdr: "r = R_read \<Longrightarrow> sw_header_received w = h"
    and go: "\<And>l f. p = W_loop_go l f \<Longrightarrow> 0 < l" "\<And>l acc. r = R_go l acc \<Longrightarrow> 0 < l"
    using assms(1) by (auto simp: s transfer_inv_def Let_def sw_inv_def)
  show ?thesis
    using assms(2) writer_progress [OF c _ go(1)] reader_progress [OF c _ go(2), where n = "length from"]
      hdr assms(3)
    by (fastforce simp: s transfer_step_iff)
qed

text \<open>A state in which neither side can move is the final one.\<close>

lemma transfer_stuck:
  assumes inv: "transfer_inv T h from i j (w, p, r)" and len: "length from = hdr_get_length T h"
    and stuck: "write_step T False w p = (w, p)" "read_step T w r = (w, r)"
  shows "p = W_return \<and> r = R_return from \<and> live w = []"
proof -
  let ?N = "hdr_size T + length from" and ?c = "sw_capacity w"
  let ?n = "chunked ?N ?c"
  have w: "?n j \<le> ?n i" "hdr_size T \<le> ?c" "live w = drop (?n j) (take (?n i) (msg_stream T h from))"
    and wr: "writer_at T h from ?c (?c - (?n i - ?n j)) (?n i) p"
    and rd: "reader_at T h from (sw_header_received w) ?c (?n i) (?n j) r"
    using inv by (auto simp: transfer_inv_def Let_def)
  note room = transfer_room [OF inv] and le = chunked_le [of ?N ?c i]
  have reader: "r = R_return from \<and> ?n j = ?N" if "?n j < ?n i \<or> ?n i = ?N"
  proof -
    have full: "min (?N - ?n j) ?c \<le> stored w"
      using chunked_gap [of ?N ?c j i] that room(2) w(1) le by (cases "?n j < ?n i") auto
    show ?thesis
      using stuck(2) rd full w(2) by (cases r) (auto split: if_splits prod.splits)
  qed
  have "p = W_return"
  proof (rule ccontr)
    assume "p \<noteq> W_return"
    then obtain l f where p: "p = W_loop_wait l f" and less: "\<not> min l ?c \<le> room w"
      using stuck(1) wr room(1) w(1) by (cases p) (auto split: if_splits prod.splits)
    then have "?n j < ?n i" using room(1) w(1) by (cases "?n j = ?n i") auto
    then show False using reader le by simp
  qed
  moreover then have "?n i = ?N" using wr by simp
  ultimately show ?thesis using reader w(3) by simp
qed

lemma transfer_delivers_any:
  assumes len: "length from = hdr_get_length T h"
    and w0: "sw_inv w0" "live w0 = []" "hdr_size T \<le> sw_capacity w0" "hdr_size T + length from < budget w0"
    and reach: "transfer_reach T (w0, W_enter h from, R_peep) s"
  shows "\<And>t. transfer_step T s t \<Longrightarrow>
             t = s \<or> transfer_measure T (length from) t < transfer_measure T (length from) s"
    and "(\<exists>t. transfer_step T s t \<and> t \<noteq> s) \<or>
         (\<exists>w. s = (w, W_return, R_return from) \<and> live w = [])"
proof -
  obtain i j where inv: "transfer_inv T h from i j s"
    using transfer_reach_inv [OF reach len transfer_start [OF w0]] by blast
  show "\<And>t. transfer_step T s t \<Longrightarrow>
          t = s \<or> transfer_measure T (length from) t < transfer_measure T (length from) s"
    using transfer_step_progress [OF inv _ len] by blast
  obtain w p r where s: "s = (w, p, r)" by (cases s)
  show "(\<exists>t. transfer_step T s t \<and> t \<noteq> s) \<or> (\<exists>w. s = (w, W_return, R_return from) \<and> live w = [])"
    using transfer_stuck [OF inv [unfolded s] len]
      transfer_step.writer [of T w p _ _ r] transfer_step.reader [of T w r _ _ p]
    unfolding s by (metis prod.exhaust prod.inject)
qed

lemma reader_prefix:
  assumes "transfer_inv T h from i j (w, p, r)"
  shows "prefix (received r) from"
proof -
  have *: "prefix (drop (hdr_size T) (take m (msg_stream T h from))) from" for m
  proof (cases "hdr_size T \<le> m")
    case True
    then obtain k where "m = hdr_size T + k" using le_Suc_ex by blast
    then show ?thesis by (simp add: take_is_prefix)
  qed (simp add: drop_take)
  show ?thesis
    using assms * by (cases r) (auto simp: transfer_inv_def Let_def)
qed

lemma transfer_safe_any:
  assumes "length from = hdr_get_length T h"
    and "sw_inv w0" "live w0 = []" "hdr_size T \<le> sw_capacity w0" "hdr_size T + length from < budget w0"
    and "transfer_reach T (w0, W_enter h from, R_peep) (w, p, r)"
  shows "sw_inv w \<and> prefix (received r) from \<and> (\<forall>acc. r = R_return acc \<longrightarrow> acc = from)"
proof -
  obtain i j where inv: "transfer_inv T h from i j (w, p, r)"
    using transfer_reach_inv [OF assms(6,1) transfer_start [OF assms(2-5)]] by blast
  then have "sw_inv w" "\<forall>acc. r = R_return acc \<longrightarrow> acc = from"
    by (auto simp: transfer_inv_def Let_def)
  then show ?thesis using reader_prefix [OF inv] by simp
qed

end

subsection \<open>Running a schedule\<close>

text \<open>\<open>True\<close> lets the writer move, \<open>False\<close> the reader.\<close>

fun transfer_run :: "'h header_ops \<Rightarrow> bool list \<Rightarrow> ('h, 'x) link \<Rightarrow> ('h, 'x) link" where
  "transfer_run T [] s = s"
| "transfer_run T (True # bs) (w, p, r) =
     (case write_step T False w p of (w', p') \<Rightarrow> transfer_run T bs (w', p', r))"
| "transfer_run T (False # bs) (w, p, r) =
     (case read_step T w r of (w', r') \<Rightarrow> transfer_run T bs (w', p, r'))"

lemma transfer_run_reach: "transfer_reach T s t \<Longrightarrow> transfer_reach T s (transfer_run T bs t)"
proof (induction T bs t rule: transfer_run.induct)
  case (2 T bs w p r)
  then show ?case
    using transfer_reach.step [OF "2.prems" transfer_step.writer] by (auto split: prod.splits)
next
  case (3 T bs w p r)
  then show ?case
    using transfer_reach.step [OF "3.prems" transfer_step.reader] by (auto split: prod.splits)
qed simp

text \<open>A run for the witnesses: a body of three bytes on a ring that the header alone fills.\<close>

definition sample_schedule :: "bool list" where
  "sample_schedule = [True, True, True, False, False, True, True, True, False, False, False, False]"

definition sample_link :: "(response_header, unit) link" where
  "sample_link = transfer_run response_header_ops sample_schedule
     (fresh_wire response_header_ops 8, W_enter (mk_response_header 5 3 1) [7, 8, 9], R_peep)"

lemma sample_link_reach:
  "transfer_reach response_header_ops
     (fresh_wire response_header_ops 8, W_enter (mk_response_header 5 3 1) [7, 8, 9], R_peep) sample_link"
  unfolding sample_link_def by (rule transfer_run_reach) (rule transfer_reach.start)

subsection \<open>Properties\<close>

fun write_steps ::
  "'h header_ops \<Rightarrow> bool \<Rightarrow> nat \<Rightarrow> ('h, 'x) simple_wire_scheme \<times> 'h writer
     \<Rightarrow> ('h, 'x) simple_wire_scheme \<times> 'h writer" where
  "write_steps T closed 0 s = s"
| "write_steps T closed (Suc n) s = write_steps T closed n (write_step T closed (fst s) (snd s))"

text \<open>C14: while a response of any length, also one longer than the ring, crosses the response wire with
  writer and reader interleaving in any order, the ring stays well formed, the bytes the reader holds
  are a prefix of the body, and when its \<open>read\<close> has returned they are the body.\<close>

theorem response_transfer_safe:
  assumes "length body = unat (rh_length h)"
    and "sw_inv w0" "live w0 = []" "rh_size \<le> sw_capacity w0" "rh_size + length body < budget w0"
    and "transfer_reach response_header_ops (w0, W_enter h body, R_peep) (w, p, r)"
  shows "sw_inv w \<and> prefix (received r) body \<and> (\<forall>acc. r = R_return acc \<longrightarrow> acc = body)"
  using rh.transfer_safe_any [of body h w0 w p r] assms by (simp add: rh_size_def)

lemma sample_link_received: "snd (snd sample_link) = R_return [7, 8, 9]"
proof -
  have hdr: "rh_get_buffer (mk_response_header 5 3 1) = [5, 0, 1, 0, 3, 0, 0, 0]" by code_simp
  have undo: "rh_of_buffer [5, 0, 1, 0, 3, 0, 0, 0] = mk_response_header 5 3 1" by code_simp
  have len: "rh_length (mk_response_header 5 3 1) = 3" by (simp add: mk_response_header_def)
  have ops: "hdr_of_buffer response_header_ops = rh_of_buffer" by (simp add: response_header_ops_def)
  show ?thesis
    by (simp add: sample_link_def sample_schedule_def ring_eval fresh_wire_def write_first_chunk_def
        write_next_chunk_def read_first_chunk_def read_next_chunk_def copy_header_def hdr undo len ops
        notify_full_def notify_empty_def max_payload_length_def)
qed

theorem response_transfer_safe_witness:
  "sw_inv (fst sample_link) \<and> prefix (received (snd (snd sample_link))) [7, 8, 9] \<and>
   snd (snd sample_link) = R_return [7, 8, 9]"
proof -
  have "sw_inv (fst sample_link) \<and> prefix (received (snd (snd sample_link))) [7, 8, 9]"
    using response_transfer_safe [of "[7, 8, 9]" "mk_response_header 5 3 1"
        "fresh_wire response_header_ops 8" "fst sample_link" "fst (snd sample_link)" "snd (snd sample_link)"]
      sample_link_reach by (simp add: mk_response_header_def rh_size_def)
  then show ?thesis using sample_link_received by blast
qed

text \<open>C1: the same transfer never deadlocks and ends: in every reachable state some side can move unless
  both have returned, the reader with the whole body and the ring empty; and every move that changes
  the state decreases a natural number.\<close>

theorem response_transfer_delivers:
  assumes "length body = unat (rh_length h)"
    and "sw_inv w0" "live w0 = []" "rh_size \<le> sw_capacity w0" "rh_size + length body < budget w0"
    and "transfer_reach response_header_ops (w0, W_enter h body, R_peep) s"
  shows "((\<exists>t. transfer_step response_header_ops s t \<and> t \<noteq> s) \<or>
          (\<exists>w. s = (w, W_return, R_return body) \<and> live w = [])) \<and>
         (\<forall>t. transfer_step response_header_ops s t \<and> t \<noteq> s \<longrightarrow>
              transfer_measure response_header_ops (length body) t
                < transfer_measure response_header_ops (length body) s)"
proof -
  have w0: "hdr_size response_header_ops \<le> sw_capacity w0"
      "hdr_size response_header_ops + length body < budget w0"
      "length body = hdr_get_length response_header_ops h"
    using assms by (simp_all add: rh_size_def)
  note * = rh.transfer_delivers_any [OF w0(3) assms(2,3) w0(1,2) assms(6)]
  show ?thesis using *(1) *(2) by blast
qed

theorem response_transfer_delivers_witness:
  "(\<exists>t. transfer_step response_header_ops sample_link t \<and> t \<noteq> sample_link) \<or>
   (\<exists>w. sample_link = (w, W_return, R_return [7, 8, 9]) \<and> live w = [])"
  using response_transfer_delivers [of "[7, 8, 9]" "mk_response_header 5 3 1"
      "fresh_wire response_header_ops 8" sample_link]
    sample_link_reach by (simp add: mk_response_header_def rh_size_def)


end
