(* ===== verification/Wire_Wakeup.thy ===== *)
theory Wire_Wakeup
  imports Bootstrap_Prelude
begin

section \<open>No wake-up is lost\<close>

text \<open>
  Every blocking operation of \<^verbatim>\<open>src/tateyama/transport/wire.h\<close> uses one protocol.  The sleeper
  (\<open>peep\<close>, \<open>await\<close>, \<open>read\<close>, \<open>wait_to_write\<close>, \<open>wait_to_resultset_write\<close>) takes the mutex, sets its
  \<open>wait_for_*\<close> flag, and waits on the condition variable until its predicate holds.  The waker
  (\<open>write\<close>, \<open>notify\<close>, \<open>terminate\<close>, \<open>close\<close>, \<open>read\<close>, \<open>dispose\<close>) first makes the predicate true, then
  reads the flag \<^emph>\<open>without\<close> the mutex, and takes the mutex and signals only if the flag is set.  Here
  each of these accesses is a step of its own and the steps of the two sides interleave freely; the
  memory fences of the source make the accesses sequentially consistent.  The theorem is that the
  waker's unlocked test never misses a sleeper.
\<close>

datatype sleeper =
    S_start        \<comment> \<open>before \<open>scoped_lock lock(m_mutex_)\<close>\<close>
  | S_locked       \<comment> \<open>holds the mutex, flag not yet set\<close>
  | S_checking     \<comment> \<open>holds the mutex, flag set, about to evaluate the predicate\<close>
  | S_sleeping     \<comment> \<open>inside \<open>wait\<close>, mutex released\<close>
  | S_leaving      \<comment> \<open>predicate true, about to clear the flag and release the mutex\<close>
  | S_done

datatype waker =
    K_start        \<comment> \<open>before the store that makes the predicate true\<close>
  | K_stored       \<comment> \<open>stored, about to read the flag\<close>
  | K_locking      \<comment> \<open>saw the flag set, waits for the mutex\<close>
  | K_locked       \<comment> \<open>holds the mutex, about to call \<open>notify_one\<close>\<close>
  | K_done

datatype mutex = Free | By_sleeper | By_waker

record wakeup =
  wu_sleeper :: sleeper
  wu_waker :: waker
  wu_mutex :: mutex
  wu_flag :: bool
  wu_ready :: bool
  wu_signal :: bool

definition wakeup_new :: wakeup where
  "wakeup_new = \<lparr>wu_sleeper = S_start, wu_waker = K_start, wu_mutex = Free, wu_flag = False,
     wu_ready = False, wu_signal = False\<rparr>"

fun sleeper_step :: "wakeup \<Rightarrow> wakeup option" where
  "sleeper_step s =
     (case wu_sleeper s of
        S_start \<Rightarrow>
          if wu_mutex s = Free then Some (s\<lparr>wu_sleeper := S_locked, wu_mutex := By_sleeper\<rparr>) else None
      | S_locked \<Rightarrow> Some (s\<lparr>wu_sleeper := S_checking, wu_flag := True\<rparr>)
      | S_checking \<Rightarrow>
          if wu_ready s then Some (s\<lparr>wu_sleeper := S_leaving\<rparr>)
          else Some (s\<lparr>wu_sleeper := S_sleeping, wu_mutex := Free, wu_signal := False\<rparr>)
      | S_sleeping \<Rightarrow>
          if wu_signal s \<and> wu_mutex s = Free
          then Some (s\<lparr>wu_sleeper := S_checking, wu_mutex := By_sleeper, wu_signal := False\<rparr>)
          else None
      | S_leaving \<Rightarrow> Some (s\<lparr>wu_sleeper := S_done, wu_flag := False, wu_mutex := Free\<rparr>)
      | S_done \<Rightarrow> None)"

fun waker_step :: "wakeup \<Rightarrow> wakeup option" where
  "waker_step s =
     (case wu_waker s of
        K_start \<Rightarrow> Some (s\<lparr>wu_waker := K_stored, wu_ready := True\<rparr>)
      | K_stored \<Rightarrow> Some (s\<lparr>wu_waker := (if wu_flag s then K_locking else K_done)\<rparr>)
      | K_locking \<Rightarrow>
          if wu_mutex s = Free then Some (s\<lparr>wu_waker := K_locked, wu_mutex := By_waker\<rparr>) else None
      | K_locked \<Rightarrow>
          Some (s\<lparr>wu_waker := K_done, wu_mutex := Free,
                  wu_signal := (wu_signal s \<or> wu_sleeper s = S_sleeping)\<rparr>)
      | K_done \<Rightarrow> None)"

inductive wakeup_step :: "wakeup \<Rightarrow> wakeup \<Rightarrow> bool" where
  sleeper: "sleeper_step s = Some t \<Longrightarrow> wakeup_step s t"
| waker: "waker_step s = Some t \<Longrightarrow> wakeup_step s t"
| spurious:
    "wu_sleeper s = S_sleeping \<Longrightarrow> wu_mutex s = Free \<Longrightarrow>
     wakeup_step s (s\<lparr>wu_sleeper := S_checking, wu_mutex := By_sleeper, wu_signal := False\<rparr>)"

inductive wakeup_reach :: "wakeup \<Rightarrow> bool" where
  start: "wakeup_reach wakeup_new"
| step: "wakeup_reach s \<Longrightarrow> wakeup_step s t \<Longrightarrow> wakeup_reach t"

subsection \<open>Invariant\<close>

definition wakeup_inv :: "wakeup \<Rightarrow> bool" where
  "wakeup_inv s \<longleftrightarrow>
     (wu_mutex s = By_sleeper \<longleftrightarrow> wu_sleeper s \<in> {S_locked, S_checking, S_leaving}) \<and>
     (wu_mutex s = By_waker \<longleftrightarrow> wu_waker s = K_locked) \<and>
     (wu_flag s \<longleftrightarrow> wu_sleeper s \<in> {S_checking, S_sleeping, S_leaving}) \<and>
     (wu_ready s \<longleftrightarrow> wu_waker s \<noteq> K_start) \<and>
     (wu_sleeper s = S_leaving \<or> wu_sleeper s = S_done \<longrightarrow> wu_ready s) \<and>
     (wu_sleeper s = S_sleeping \<and> wu_waker s = K_done \<longrightarrow> wu_signal s)"

lemma wakeup_inv_init: "wakeup_inv wakeup_new"
  by (simp add: wakeup_inv_def wakeup_new_def)

lemma sleeper_step_inv: "wakeup_inv s \<Longrightarrow> sleeper_step s = Some t \<Longrightarrow> wakeup_inv t"
  by (cases "wu_sleeper s"; cases "wu_waker s"; cases "wu_mutex s")
    (auto simp: wakeup_inv_def split: if_splits)

lemma waker_step_inv: "wakeup_inv s \<Longrightarrow> waker_step s = Some t \<Longrightarrow> wakeup_inv t"
  by (cases "wu_waker s"; cases "wu_sleeper s"; cases "wu_mutex s")
    (auto simp: wakeup_inv_def split: if_splits)

lemma wakeup_reach_inv: "wakeup_reach s \<Longrightarrow> wakeup_inv s"
proof (induction rule: wakeup_reach.induct)
  case (step s t)
  from step.hyps(2) step.IH show ?case
    by cases (blast intro: sleeper_step_inv waker_step_inv, blast intro: sleeper_step_inv waker_step_inv,
      auto simp: wakeup_inv_def)
qed (rule wakeup_inv_init)

subsection \<open>Progress\<close>

text \<open>What is left to do: the waker's program, then the sleeper's, which turns once more for each signal.\<close>

fun waker_rank :: "waker \<Rightarrow> nat" where
  "waker_rank K_start = 4"
| "waker_rank K_stored = 3"
| "waker_rank K_locking = 2"
| "waker_rank K_locked = 1"
| "waker_rank K_done = 0"

fun sleeper_rank :: "sleeper \<Rightarrow> nat" where
  "sleeper_rank S_start = 5"
| "sleeper_rank S_locked = 4"
| "sleeper_rank S_sleeping = 3"
| "sleeper_rank S_checking = 2"
| "sleeper_rank S_leaving = 1"
| "sleeper_rank S_done = 0"

lemma wakeup_progress:
  assumes "wakeup_inv s" "wu_waker s = K_done" "wu_sleeper s \<noteq> S_done"
  shows "\<exists>t. sleeper_step s = Some t \<and> sleeper_rank (wu_sleeper t) < sleeper_rank (wu_sleeper s)"
proof -
  have "wu_mutex s = By_sleeper \<or> wu_mutex s = Free"
    using assms by (cases "wu_mutex s") (auto simp: wakeup_inv_def)
  then show ?thesis
    using assms by (cases "wu_sleeper s") (auto simp: wakeup_inv_def)
qed

lemma waker_progress:
  assumes "wakeup_inv s" "wu_waker s \<noteq> K_done"
  shows "(\<exists>t. waker_step s = Some t \<and> waker_rank (wu_waker t) < waker_rank (wu_waker s)) \<or>
         (wu_waker s = K_locking \<and> (\<exists>t. sleeper_step s = Some t))"
  using assms by (cases "wu_waker s"; cases "wu_mutex s"; cases "wu_sleeper s") (auto simp: wakeup_inv_def)

section \<open>Properties\<close>

text \<open>C22: the unlocked test of \<open>wait_for_read_\<close> (and \<open>wait_for_write_\<close>) loses no wake-up.  In every reachable
  state: a sleeper that sleeps although its predicate holds has been signalled or the waker is still on
  its way to signal it; once the waker has finished, the sleeper, if not done, has an enabled step that
  brings it closer to returning; and the waker itself is delayed only by a sleeper that holds the mutex
  and can move.\<close>

theorem no_lost_wakeup:
  assumes "wakeup_reach s"
  shows "(wu_sleeper s = S_sleeping \<and> wu_ready s \<longrightarrow>
            wu_signal s \<or> wu_waker s \<in> {K_stored, K_locking, K_locked}) \<and>
    (wu_waker s = K_done \<and> wu_sleeper s \<noteq> S_done \<longrightarrow>
       (\<exists>t. sleeper_step s = Some t \<and> sleeper_rank (wu_sleeper t) < sleeper_rank (wu_sleeper s))) \<and>
    (wu_waker s \<noteq> K_done \<longrightarrow>
       (\<exists>t. waker_step s = Some t) \<or> (\<exists>t. sleeper_step s = Some t))"
proof (intro conjI impI)
  note inv = wakeup_reach_inv [OF assms]
  show "wu_signal s \<or> wu_waker s \<in> {K_stored, K_locking, K_locked}"
    if "wu_sleeper s = S_sleeping \<and> wu_ready s"
    using that inv by (cases "wu_waker s") (auto simp: wakeup_inv_def)
  show "\<exists>t. sleeper_step s = Some t \<and> sleeper_rank (wu_sleeper t) < sleeper_rank (wu_sleeper s)"
    if "wu_waker s = K_done \<and> wu_sleeper s \<noteq> S_done"
    using that wakeup_progress [OF inv] by blast
  show "(\<exists>t. waker_step s = Some t) \<or> (\<exists>t. sleeper_step s = Some t)" if "wu_waker s \<noteq> K_done"
    using that waker_progress [OF inv] by blast
qed

text \<open>A run in which the waker stores while the sleeper goes to sleep.\<close>

definition sample_wakeup :: wakeup where
  "sample_wakeup = \<lparr>wu_sleeper = S_sleeping, wu_waker = K_locking, wu_mutex = Free, wu_flag = True,
     wu_ready = True, wu_signal = False\<rparr>"

lemma sample_wakeup_reach: "wakeup_reach sample_wakeup"
proof -
  let ?s1 = "wakeup_new\<lparr>wu_sleeper := S_locked, wu_mutex := By_sleeper\<rparr>"
  let ?s2 = "?s1\<lparr>wu_sleeper := S_checking, wu_flag := True\<rparr>"
  let ?s3 = "?s2\<lparr>wu_sleeper := S_sleeping, wu_mutex := Free, wu_signal := False\<rparr>"
  let ?s4 = "?s3\<lparr>wu_waker := K_stored, wu_ready := True\<rparr>"
  let ?s5 = "?s4\<lparr>wu_waker := K_locking\<rparr>"
  have 1: "wakeup_reach ?s1"
    by (rule wakeup_reach.step [OF wakeup_reach.start], rule wakeup_step.sleeper) (simp add: wakeup_new_def)
  have 2: "wakeup_reach ?s2"
    by (rule wakeup_reach.step [OF 1], rule wakeup_step.sleeper) (simp add: wakeup_new_def)
  have 3: "wakeup_reach ?s3"
    by (rule wakeup_reach.step [OF 2], rule wakeup_step.sleeper) (simp add: wakeup_new_def)
  have 4: "wakeup_reach ?s4"
    by (rule wakeup_reach.step [OF 3], rule wakeup_step.waker) (simp add: wakeup_new_def)
  have 5: "wakeup_reach ?s5"
    by (rule wakeup_reach.step [OF 4], rule wakeup_step.waker) (simp add: wakeup_new_def)
  have "sample_wakeup = ?s5" by (simp add: sample_wakeup_def wakeup_new_def)
  then show ?thesis using 5 by simp
qed

theorem no_lost_wakeup_witness:
  "wu_signal sample_wakeup \<or> wu_waker sample_wakeup \<in> {K_stored, K_locking, K_locked}"
  using no_lost_wakeup [OF sample_wakeup_reach] by (simp add: sample_wakeup_def)

end
