(* ===== verification/Resultset_Wire.thy ===== *)
theory Resultset_Wire
  imports Wire_Message
begin

section \<open>\<open>unidirectional_simple_wire\<close>: a stream of records\<close>

text \<open>
  \<^verbatim>\<open>unidirectional_simple_wires::unidirectional_simple_wire\<close> of \<^verbatim>\<open>src/tateyama/transport/wire.h\<close>.  The
  server writes a record in pieces; the first piece reserves room for the record's length header, and
  \<open>flush\<close> writes that header and makes the record visible by advancing \<open>pushed_valid_\<close>.  The client reads
  the record at the front as one or two windows of the ring (\<open>get_chunk\<close>) and disposes of it.  Operations
  that wait for room have the value \<open>None\<close> where they would block.
\<close>

record resultset_wire = "length_header simple_wire" +
  uw_buffer_handle :: nat
  uw_pushed_valid :: nat
  uw_closed :: bool
  uw_continued :: bool

subsection \<open>Server side\<close>

text \<open>\<open>wait_to_resultset_write\<close>.\<close>

definition uw_wait_to_resultset_write :: "resultset_wire \<Rightarrow> nat \<Rightarrow> resultset_wire option" where
  "uw_wait_to_resultset_write w len =
     (if room w \<ge> len \<or> uw_closed w then Some (w\<lparr>sw_wait_for_write := False\<rparr>) else None)"

definition uw_wait_if_full :: "resultset_wire \<Rightarrow> nat \<Rightarrow> resultset_wire option" where
  "uw_wait_if_full w len = (if len > room w then uw_wait_to_resultset_write w len else Some w)"

definition uw_brand_new :: "resultset_wire \<Rightarrow> resultset_wire option" where
  "uw_brand_new w =
     map_option (\<lambda>w. w\<lparr>sw_pushed := u64_add (sw_pushed w) lh_size\<rparr>) (uw_wait_if_full w lh_size)"

definition uw_write_bytes :: "resultset_wire \<Rightarrow> byte list \<Rightarrow> resultset_wire option" where
  "uw_write_bytes w from =
     map_option
       (\<lambda>w. w\<lparr>sw_buffer := write_in_buffer (sw_capacity w) (sw_buffer w) (buffer_address w (sw_pushed w)) from,
              sw_pushed := u64_add (sw_pushed w) (length from)\<rparr>)
       (uw_wait_if_full w (length from))"

definition uw_write :: "resultset_wire \<Rightarrow> byte list \<Rightarrow> resultset_wire option" where
  "uw_write w from =
     (if \<not> uw_closed w \<and> length from > 0
      then (case (if \<not> uw_continued w
                  then map_option (\<lambda>w. w\<lparr>uw_continued := True\<rparr>) (uw_brand_new w)
                  else Some w) of
              None \<Rightarrow> None
            | Some w' \<Rightarrow> uw_write_bytes w' from)
      else Some w)"

text \<open>\<open>flush\<close>; the flag of the result tells whether \<open>notify_record_arrival\<close> was called.\<close>

definition uw_flush_bytes :: "resultset_wire \<Rightarrow> resultset_wire" where
  "uw_flush_bytes w =
     (let header = lh_of_size (u64_sub (sw_pushed w) (u64_add (uw_pushed_valid w) lh_size))
      in w\<lparr>sw_buffer := write_in_buffer (sw_capacity w) (sw_buffer w)
                          (buffer_address w (uw_pushed_valid w)) (lh_get_buffer header),
           uw_pushed_valid := sw_pushed w,
           uw_continued := False\<rparr>)"

definition uw_flush :: "resultset_wire \<Rightarrow> resultset_wire \<times> bool" where
  "uw_flush w = (if uw_continued w then (uw_flush_bytes w, True) else (w, False))"

definition uw_check_room :: "resultset_wire \<Rightarrow> nat \<Rightarrow> bool" where
  "uw_check_room w len =
     (if uw_continued w then room w \<ge> len else room w \<ge> u64_add len lh_size)"

definition uw_wait_room :: "resultset_wire \<Rightarrow> nat \<Rightarrow> (bool \<times> resultset_wire) option" where
  "uw_wait_room w len =
     (let len' = (if \<not> uw_continued w then u64_add len lh_size else len)
      in map_option (\<lambda>w. (uw_closed w, w)) (uw_wait_to_resultset_write w len'))"

subsection \<open>Client side\<close>

definition uw_stored_valid :: "resultset_wire \<Rightarrow> nat" where
  "uw_stored_valid w = u64_sub (uw_pushed_valid w) (sw_poped w)"

definition uw_has_record :: "resultset_wire \<Rightarrow> bool" where
  "uw_has_record w \<longleftrightarrow> uw_stored_valid w > 0"

text \<open>The chunk, and the second window when the record crosses the end of the ring.\<close>

definition uw_get_chunk :: "resultset_wire \<Rightarrow> view \<times> view option \<times> resultset_wire" where
  "uw_get_chunk w0 =
     (let w = copy_header length_header_ops w0;
          len = unat (lh_length (sw_header_received w));
          body = u64_add (sw_poped w) lh_size
      in if body div sw_capacity w = u64_sub (u64_add body len) 1 div sw_capacity w
         then (In_buffer (read_address w lh_size) len, None, w)
         else (let buffer_end = (uw_pushed_valid w div sw_capacity w) * sw_capacity w;
                   first_length = u64_sub buffer_end body
               in (In_buffer (read_address w lh_size) first_length,
                   Some (In_buffer (read_address w (u64_add lh_size first_length)) (u64_sub len first_length)),
                   w)))"

definition uw_dispose :: "resultset_wire \<Rightarrow> resultset_wire" where
  "uw_dispose w0 =
     (let w = copy_header length_header_ops w0
      in notify_full (w\<lparr>sw_poped :=
           u64_add (sw_poped w) (unat (lh_length (sw_header_received w)) + lh_size)\<rparr>))"

subsection \<open>Buffers\<close>

definition uw_attach_buffer :: "resultset_wire \<Rightarrow> nat \<Rightarrow> byte list \<Rightarrow> nat \<Rightarrow> resultset_wire" where
  "uw_attach_buffer w handle block cap =
     w\<lparr>uw_buffer_handle := handle, sw_buffer := block, sw_capacity := cap\<rparr>"

definition uw_detach_buffer :: "resultset_wire \<Rightarrow> resultset_wire" where
  "uw_detach_buffer w = w\<lparr>uw_buffer_handle := 0, sw_buffer := [], sw_capacity := 0\<rparr>"

definition uw_equal :: "resultset_wire \<Rightarrow> nat \<Rightarrow> bool" where
  "uw_equal w handle \<longleftrightarrow> handle = uw_buffer_handle w"

definition uw_reset_handle :: "resultset_wire \<Rightarrow> resultset_wire" where
  "uw_reset_handle w = w\<lparr>uw_buffer_handle := 0\<rparr>"

definition uw_set_closed :: "resultset_wire \<Rightarrow> resultset_wire" where
  "uw_set_closed w = notify_full (w\<lparr>uw_closed := True\<rparr>)"

section \<open>The wire refines a queue of records\<close>

text \<open>\<open>uw_abs recs part w\<close>: the records not yet disposed of are \<open>recs\<close>, and \<open>part\<close> is the record the
  server is writing.\<close>

definition record_bytes :: "byte list \<Rightarrow> byte list" where
  "record_bytes r = lh_get_buffer (lh_of_size (length r)) @ r"

definition records_bytes :: "byte list list \<Rightarrow> byte list" where
  "records_bytes recs = concat (map record_bytes recs)"

definition uw_tail :: "byte list option \<Rightarrow> byte list \<Rightarrow> bool" where
  "uw_tail part tail = (case part of None \<Rightarrow> tail = [] | Some b \<Rightarrow> length tail = lh_size + length b \<and> drop lh_size tail = b)"

definition uw_abs :: "byte list list \<Rightarrow> byte list option \<Rightarrow> resultset_wire \<Rightarrow> bool" where
  "uw_abs recs part w \<longleftrightarrow>
     sw_inv w \<and> sw_capacity w < 2 ^ 32 \<and> (uw_continued w \<longleftrightarrow> part \<noteq> None) \<and> (\<forall>r\<in>set recs. r \<noteq> []) \<and> part \<noteq> Some [] \<and>
     uw_pushed_valid w = sw_poped w + length (records_bytes recs) \<and>
     (\<exists>tail. live w = records_bytes recs @ tail \<and> uw_tail part tail)"

lemma length_record_bytes [simp]: "length (record_bytes r) = lh_size + length r"
  by (simp add: record_bytes_def lh_size_def)

lemma records_bytes_simps [simp]:
  "records_bytes [] = []" "records_bytes (r # rs) = record_bytes r @ records_bytes rs"
  "records_bytes (rs @ rs') = records_bytes rs @ records_bytes rs'"
  by (simp_all add: records_bytes_def)

lemma uw_abs_live:
  assumes "uw_abs recs part w"
  shows "sw_inv w" "sw_capacity w < 2 ^ 32"
    "uw_pushed_valid w = sw_poped w + length (records_bytes recs)"
    "\<exists>tail. live w = records_bytes recs @ tail \<and> uw_tail part tail"
    "sw_poped w + length (live w) = sw_pushed w" "length (records_bytes recs) \<le> length (live w)"
    "uw_pushed_valid w \<le> sw_pushed w"
proof -
  show w: "sw_inv w" "sw_capacity w < 2 ^ 32"
      "uw_pushed_valid w = sw_poped w + length (records_bytes recs)"
      "\<exists>tail. live w = records_bytes recs @ tail \<and> uw_tail part tail"
    using assms by (simp_all add: uw_abs_def)
  show "sw_poped w + length (live w) = sw_pushed w" using w(1) by (simp add: sw_inv_def)
  then show "uw_pushed_valid w \<le> sw_pushed w" "length (records_bytes recs) \<le> length (live w)"
    using w(3,4) by (auto simp del: length_live)
qed

lemma uw_absI:
  assumes "sw_inv w" "sw_capacity w < 2 ^ 32" "uw_continued w \<longleftrightarrow> part \<noteq> None" "\<forall>r\<in>set recs. r \<noteq> []"
    and "part \<noteq> Some []" "uw_pushed_valid w = sw_poped w + length (records_bytes recs)"
    and "live w = records_bytes recs @ tail" "uw_tail part tail"
  shows "uw_abs recs part w"
  using assms unfolding uw_abs_def by blast

lemma uw_ring_put_simps [simp]:
  "uw_pushed_valid (ring_put w bs) = uw_pushed_valid w" "uw_continued (ring_put w bs) = uw_continued w"
  "uw_closed (ring_put w bs) = uw_closed w"
  by (simp_all add: ring_put_def)

lemma uw_tail_append: "uw_tail (Some b) tail \<Longrightarrow> uw_tail (Some (b @ bs)) (tail @ bs)"
  by (auto simp: uw_tail_def)

lemma uw_tail_first: "length gap = lh_size \<Longrightarrow> uw_tail (Some bs) (gap @ bs)"
  by (simp add: uw_tail_def)

subsection \<open>Writing\<close>

lemma uw_write_bytes_fits:
  assumes inv: "sw_inv w" and fits: "length (live w) + length from \<le> sw_capacity w" "length from < budget w"
  shows "uw_write_bytes w from = Some (ring_put w from)"
proof -
  have "\<not> length from > room w" using fits room_eq [OF inv] by linarith
  then show ?thesis by (simp add: uw_write_bytes_def uw_wait_if_full_def ring_put_def)
qed

lemma uw_brand_new_fits:
  assumes inv: "sw_inv w" and fits: "length (live w) + lh_size \<le> sw_capacity w" "lh_size < budget w"
  shows "\<exists>gap w'. uw_brand_new w = Some w' \<and> sw_inv w' \<and> live w' = live w @ gap \<and> length gap = lh_size \<and>
    w' = w\<lparr>sw_pushed := sw_pushed w + lh_size\<rparr>"
proof -
  have "\<not> lh_size > room w" using fits room_eq [OF inv] by linarith
  moreover have add: "u64_add (sw_pushed w) lh_size = sw_pushed w + lh_size"
    using fits by (simp add: budget_def u64_simps)
  ultimately have new: "uw_brand_new w = Some (w\<lparr>sw_pushed := sw_pushed w + lh_size\<rparr>)"
    by (simp add: uw_brand_new_def uw_wait_if_full_def)
  let ?gap = "region (sw_buffer w) (sw_capacity w) (sw_pushed w) (sw_pushed w + lh_size)"
  have "live (w\<lparr>sw_pushed := sw_pushed w + lh_size\<rparr>) = live w @ ?gap"
    using inv by (simp add: live_def sw_inv_def flip: region_append)
  moreover have "sw_inv (w\<lparr>sw_pushed := sw_pushed w + lh_size\<rparr>)"
    using inv fits by (auto simp: sw_inv_def budget_def)
  ultimately show ?thesis using new by (intro exI [of _ ?gap]) simp
qed

lemma uw_write_part:
  assumes abs: "uw_abs recs part w" and unclosed: "\<not> uw_closed w" and ne: "from \<noteq> []"
    and fits: "length (live w) + (if part = None then lh_size else 0) + length from \<le> sw_capacity w"
      "lh_size + length from < budget w"
  shows "\<exists>w'. uw_write w from = Some w' \<and> uw_closed w' = uw_closed w \<and>
    uw_abs recs (Some (case part of None \<Rightarrow> from | Some b \<Rightarrow> b @ from)) w'"
proof -
  note a = uw_abs_live [OF abs]
  from a(4) obtain tail where tail: "live w = records_bytes recs @ tail" "uw_tail part tail" by blast
  show ?thesis
  proof (cases part)
    case (Some b)
    have f: "length (live w) + length from \<le> sw_capacity w" "length from < budget w"
      using fits Some by simp_all
    have "uw_write w from = Some (ring_put w from)"
      using unclosed ne abs Some uw_write_bytes_fits [OF a(1) f] by (auto simp: uw_write_def uw_abs_def)
    moreover have "uw_abs recs (Some (b @ from)) (ring_put w from)"
    proof (rule uw_absI [where tail = "tail @ from"])
      show "uw_tail (Some (b @ from)) (tail @ from)" using tail(2) Some uw_tail_append by simp
      show "live (ring_put w from) = records_bytes recs @ tail @ from"
        using ring_put_laws(2) [OF a(1) f] tail(1) by simp
      show "sw_inv (ring_put w from)" by (rule ring_put_laws(1) [OF a(1) f])
    qed (use abs Some ne in \<open>simp_all add: uw_abs_def\<close>)
    ultimately show ?thesis using Some by simp
  next
    case None
    have f: "length (live w) + lh_size \<le> sw_capacity w" "lh_size < budget w"
      using fits None by simp_all
    from uw_brand_new_fits [OF a(1) f] obtain gap w1 where w1: "uw_brand_new w = Some w1" "sw_inv w1"
        "live w1 = live w @ gap" "length gap = lh_size" "w1 = w\<lparr>sw_pushed := sw_pushed w + lh_size\<rparr>"
      by blast
    let ?w2 = "w1\<lparr>uw_continued := True\<rparr>"
    have same: "sw_inv ?w2" "live ?w2 = live w @ gap" "budget ?w2 = budget w - lh_size"
      using w1 by (simp_all add: sw_inv_def live_def budget_def)
    have f2: "length (live ?w2) + length from \<le> sw_capacity ?w2" "length from < budget ?w2"
      unfolding same using fits None w1(4,5) by (simp_all del: length_live)
    have "uw_write w from = Some (ring_put ?w2 from)"
      using unclosed ne abs None w1(1) uw_write_bytes_fits [OF same(1) f2] by (auto simp: uw_write_def uw_abs_def)
    moreover have "uw_abs recs (Some from) (ring_put ?w2 from)"
    proof (rule uw_absI [where tail = "gap @ from"])
      show "uw_tail (Some from) (gap @ from)" by (rule uw_tail_first [OF w1(4)])
      show "live (ring_put ?w2 from) = records_bytes recs @ gap @ from"
        using ring_put_laws(2) [OF same(1) f2] tail None same(2) by (simp add: uw_tail_def)
      show "sw_inv (ring_put ?w2 from)" by (rule ring_put_laws(1) [OF same(1) f2])
    qed (use abs ne w1(5) in \<open>simp_all add: uw_abs_def\<close>)
    ultimately show ?thesis using None w1(5) by simp
  qed
qed

subsection \<open>Making a record visible\<close>

lemma uw_flush_record:
  assumes abs: "uw_abs recs (Some b) w"
  shows "\<exists>w'. uw_flush w = (w', True) \<and> uw_abs (recs @ [b]) None w' \<and> uw_closed w' = uw_closed w"
proof -
  note a = uw_abs_live [OF abs]
  let ?c = "sw_capacity w" and ?pv = "uw_pushed_valid w" and ?p = "sw_pushed w" and ?o = "sw_poped w"
  from a(4) obtain tail where tail: "live w = records_bytes recs @ tail" "uw_tail (Some b) tail" by blast
  have "length (live w) = length (records_bytes recs) + lh_size + length b"
    using tail by (simp add: uw_tail_def del: length_live)
  then have p: "?p = ?pv + lh_size + length b" using a(3,5) by linarith
  have w: "length (sw_buffer w) = ?c" "0 < ?c" "?p \<le> ?o + ?c" "?p < u64_limit" "?o \<le> ?pv"
    using a by (auto simp: sw_inv_def)
  let ?h = "lh_get_buffer (lh_of_size (length b))"
  let ?b = "write_in_buffer ?c (sw_buffer w) (?pv mod ?c) ?h"
  let ?w = "w\<lparr>sw_buffer := ?b, uw_pushed_valid := ?p, uw_continued := False\<rparr>"
  have h: "length ?h = lh_size" "lh_size \<le> ?c" using w p by (simp_all add: lh_size_def)
  have "u64_sub ?p (u64_add ?pv lh_size) = length b" using w(4) p by (simp add: u64_simps)
  then have "uw_flush_bytes w = ?w"
    by (simp add: uw_flush_bytes_def Let_def buffer_address_def index_def)
  then have flush: "uw_flush w = (?w, True)" using abs by (simp add: uw_flush_def uw_abs_def)
  have b: "length b + lh_size < 2 ^ 32 + lh_size" using a(2) p w by simp
  have drops: "region (sw_buffer w) ?c ?o ?pv = records_bytes recs"
      "region (sw_buffer w) ?c (?pv + lh_size) ?p = b"
  proof -
    have "region (sw_buffer w) ?c ?o ?pv = take (length (records_bytes recs)) (live w)"
      unfolding live_def using a(3,5,6) by (subst take_region) auto
    then show "region (sw_buffer w) ?c ?o ?pv = records_bytes recs" by (simp add: tail(1))
    have "region (sw_buffer w) ?c (?pv + lh_size) ?p = drop (length (records_bytes recs) + lh_size) (live w)"
      unfolding live_def using a(3) p by (subst drop_region) (auto simp: add.assoc)
    then show "region (sw_buffer w) ?c (?pv + lh_size) ?p = b"
      using tail by (simp add: uw_tail_def)
  qed
  have "live ?w = region ?b ?c ?o ?pv @ region ?b ?c ?pv (?pv + lh_size) @ region ?b ?c (?pv + lh_size) ?p"
    using w p by (simp add: live_def flip: region_append)
  also have "region ?b ?c ?o ?pv = records_bytes recs"
    using region_write_old [of "sw_buffer w" ?c ?h ?pv ?pv ?o] w h p drops by simp
  also have "region ?b ?c ?pv (?pv + lh_size) = ?h"
    using region_write_new [of "sw_buffer w" ?c ?h ?pv] w h by simp
  also have "region ?b ?c (?pv + lh_size) ?p = b"
    using region_write_later [of "sw_buffer w" ?c ?h ?pv "?pv + lh_size" ?p] w h p drops by simp
  finally have live: "live ?w = records_bytes (recs @ [b]) @ []" by (simp add: record_bytes_def)
  have "uw_abs (recs @ [b]) None ?w"
  proof (rule uw_absI [OF _ _ _ _ _ _ live])
    show "sw_inv ?w" using a(1) h w by (simp add: sw_inv_def)
    show "uw_pushed_valid ?w = sw_poped ?w + length (records_bytes (recs @ [b]))"
      using a(3) p by simp
  qed (use abs in \<open>auto simp: uw_abs_def uw_tail_def\<close>)
  then show ?thesis using flush by auto
qed

subsection \<open>Reading\<close>

lemma uw_header:
  assumes abs: "uw_abs (r # recs) part w"
  shows "copy_header length_header_ops w = w\<lparr>sw_header_received := lh_of_size (length r)\<rparr>"
    "unat (lh_length (lh_of_size (length r))) = length r"
proof -
  note a = uw_abs_live [OF abs]
  from a(4) obtain tail where "live w = records_bytes (r # recs) @ tail" by blast
  then show "copy_header length_header_ops w = w\<lparr>sw_header_received := lh_of_size (length r)\<rparr>"
    using lh.copy_header_front [OF a(1), of "lh_of_size (length r)"] by (simp add: record_bytes_def)
  have "length r \<le> sw_capacity w" using a(6) live_bounded [OF a(1)] by simp
  then show "unat (lh_length (lh_of_size (length r))) = length r"
    using a(2) by (intro lh_of_size_length) simp
qed

lemma uw_window:
  assumes abs: "uw_abs (r # recs) part w"
    and x: "k + m \<le> length r" "pos + m \<le> sw_capacity w"
    and pos: "pos = (sw_poped w + lh_size + k) mod sw_capacity w"
    and w': "sw_buffer w' = sw_buffer w"
  shows "view_bytes w' (In_buffer pos m) = Some (take m (drop k r))"
proof -
  note a = uw_abs_live [OF abs]
  let ?c = "sw_capacity w" and ?o = "sw_poped w + lh_size + k"
  from a(4) obtain tail where live: "live w = records_bytes (r # recs) @ tail" by blast
  have w: "length (sw_buffer w) = ?c" "0 < ?c" using a(1) by (auto simp: sw_inv_def)
  have "m \<le> ?c" using x(2) by linarith
  then have "mem_read (sw_buffer w) pos m = region (sw_buffer w) ?c ?o (?o + m)"
    using read_from_buffer_region [OF w, of m ?o] x(2) by (simp add: read_from_buffer_def pos)
  also have "\<dots> = take m (drop (lh_size + k) (live w))"
    using a(5,6) x(1) by (simp add: live_def drop_region take_region add.assoc)
  also have "\<dots> = take m (drop k r)"
    using x(1) by (simp add: live record_bytes_def lh_size_def)
  finally show ?thesis using x(2) w w' by simp
qed

lemma same_page:
  fixes q n c :: nat
  assumes "0 < c" "0 < n"
  shows "q div c = (q + n - 1) div c \<longleftrightarrow> q mod c + n \<le> c"
proof
  assume eq: "q div c = (q + n - 1) div c"
  have "q + n - 1 = c * (q div c) + (q + n - 1) mod c" using eq by simp
  moreover have "q = c * (q div c) + q mod c" by simp
  moreover have "(q + n - 1) mod c < c" using assms by simp
  ultimately show "q mod c + n \<le> c" using assms(2) by linarith
next
  assume le: "q mod c + n \<le> c"
  have "q = c * (q div c) + q mod c" by simp
  then have "q + n - 1 = c * (q div c) + (q mod c + n - 1)" using assms(2) by linarith
  then have "c * (q div c) \<le> q + n - 1" "q + n - 1 < c * Suc (q div c)"
    using le assms(2) unfolding mult_Suc_right by linarith+
  then show "q div c = (q + n - 1) div c" by (rule div_nat_eqI [symmetric])
qed

lemma next_page:
  assumes "0 < (c :: nat)" "c < q mod c + n" "q + n \<le> pv" "pv < q + c"
  shows "pv div c * c = q + (c - q mod c)" "c - q mod c < n" "0 < c - q mod c" "(q + (c - q mod c)) mod c = 0"
proof -
  have k: "q mod c + (c - q mod c) = c" "c - q mod c < n" "0 < c - q mod c"
    using assms(1,2) mod_less_divisor [OF assms(1), of q] by linarith+
  have B: "q + (c - q mod c) = c * Suc (q div c)"
    using k(1) mult_div_mod_eq [of c q] unfolding mult_Suc_right by linarith
  have "pv div c = Suc (q div c)"
  proof (rule div_nat_eqI)
    show "c * Suc (q div c) \<le> pv" using B k(2) assms(3) by linarith
    show "pv < c * Suc (Suc (q div c))" using B k(3) assms(4) by simp
  qed
  then show "pv div c * c = q + (c - q mod c)" by (simp only: B mult.commute)
  show "c - q mod c < n" "0 < c - q mod c" by (fact k)+
  show "(q + (c - q mod c)) mod c = 0" unfolding B by simp
qed

lemma uw_get_chunk_record:
  assumes abs: "uw_abs (r # recs) part w"
  shows "\<exists>v v2 w'. uw_get_chunk w = (v, v2, w') \<and> uw_abs (r # recs) part w' \<and>
    (\<exists>x y. view_bytes w' v = Some x \<and>
       (case v2 of None \<Rightarrow> y = [] | Some u \<Rightarrow> view_bytes w' u = Some y) \<and> r = x @ y)"
proof -
  note a = uw_abs_live [OF abs] and h = uw_header [OF abs]
  let ?c = "sw_capacity w" and ?w = "w\<lparr>sw_header_received := lh_of_size (length r)\<rparr>"
  define q where "q = sw_poped w + lh_size"
  let ?n = "length r"
  have c: "0 < ?c" "uw_pushed_valid w < u64_limit" "uw_pushed_valid w \<le> sw_poped w + ?c"
      "q + ?n \<le> uw_pushed_valid w" "0 < ?n"
    using a abs by (auto simp: sw_inv_def q_def uw_abs_def)
  have "u64_add q ?n = q + ?n" using c(2,4) by (simp add: u64_simps)
  moreover have "u64_sub (q + ?n) (Suc 0) = q + ?n - Suc 0"
    by (rule u64_sub_small) (use c in linarith)+
  ultimately have add: "u64_add (sw_poped w) lh_size = q" "u64_sub (u64_add q ?n) (Suc 0) = q + ?n - 1"
    using c(2,4) by (simp_all add: u64_simps q_def)
  have ra: "read_address ?w k = (sw_poped w + k) mod ?c" if "k \<le> lh_size + ?n" for k
    using c that by (simp add: read_address_def index_def u64_simps q_def)
  have abs': "uw_abs (r # recs) part ?w" using abs by (simp add: uw_abs_def)
  show ?thesis
  proof (cases "q mod ?c + ?n \<le> ?c")
    case True
    then have "uw_get_chunk w = (In_buffer (q mod ?c) ?n, None, ?w)"
      using same_page [OF c(1,5), of q] ra [of lh_size]
      by (simp add: uw_get_chunk_def h add Let_def flip: q_def)
    moreover have "view_bytes ?w (In_buffer (q mod ?c) ?n) = Some r"
      using uw_window [OF abs, of 0 ?n "q mod ?c" ?w] True by (simp add: q_def del: view_bytes.simps)
    ultimately show ?thesis using abs' by auto
  next
    case False
    let ?k = "?c - q mod ?c"
    have "uw_pushed_valid w < q + ?c" using c(3) by (simp add: q_def lh_size_def)
    from next_page [OF c(1) _ c(4) this] False
    have k: "uw_pushed_valid w div ?c * ?c = q + ?k" "?k < ?n" "0 < ?k" "(q + ?k) mod ?c = 0" by simp_all
    have first: "u64_sub (uw_pushed_valid w div ?c * ?c) q = ?k"
    proof -
      have "q + ?k < u64_limit" using k(2) c(2,4) by linarith
      then have "u64_sub (q + ?k) q = q + ?k - q" by (intro u64_sub_small) simp_all
      then show ?thesis by (simp add: k(1))
    qed
    have "u64_add lh_size ?k = lh_size + ?k" "u64_sub ?n ?k = ?n - ?k"
      using k c by (simp_all add: u64_simps q_def)
    moreover have "(sw_poped w + (lh_size + ?k)) mod ?c = 0"
      using k(4) by (simp add: q_def add.assoc)
    ultimately have chunk: "uw_get_chunk w =
        (In_buffer (q mod ?c) ?k, Some (In_buffer 0 (?n - ?k)), ?w)"
      using same_page [OF c(1,5), of q] ra [of lh_size] ra [of "lh_size + ?k"] False k first
      by (simp add: uw_get_chunk_def h add Let_def flip: q_def)
    have x: "view_bytes ?w (In_buffer (q mod ?c) ?k) = Some (take ?k r)"
      using uw_window [OF abs, of 0 ?k "q mod ?c" ?w] k by (simp add: q_def del: view_bytes.simps)
    have zero: "0 = (sw_poped w + lh_size + ?k) mod ?c" unfolding q_def [symmetric] using k(4) by simp
    have "?n \<le> ?c" using c(3,4) by (simp add: q_def)
    then have "?n - ?k \<le> ?c" by linarith
    then have y: "view_bytes ?w (In_buffer 0 (?n - ?k)) = Some (drop ?k r)"
      using uw_window [OF abs _ _ zero, of "?n - ?k" ?w] k by (simp del: view_bytes.simps)
    show ?thesis
      using chunk abs' x y append_take_drop_id [of ?k r]
      by (intro exI [of _ "In_buffer (q mod ?c) ?k"] exI [of _ "Some (In_buffer 0 (?n - ?k))"]
          exI [of _ ?w]) (simp del: view_bytes.simps)
  qed
qed

lemma uw_dispose_record:
  assumes abs: "uw_abs (r # recs) part w"
  shows "uw_abs recs part (uw_dispose w)"
proof -
  note a = uw_abs_live [OF abs] and h = uw_header [OF abs]
  let ?w = "w\<lparr>sw_header_received := lh_of_size (length r)\<rparr>"
  from a(4) obtain tail where live: "live w = records_bytes (r # recs) @ tail" "uw_tail part tail" by blast
  have le: "lh_size + length r \<le> length (live ?w)" using a(6) by simp
  have eq: "uw_dispose w = notify_full (ring_pop ?w (lh_size + length r))"
    by (simp add: uw_dispose_def h ring_pop_def Let_def add.commute)
  have inv: "sw_inv ?w" using a(1) by simp
  show ?thesis
  proof (rule uw_absI [where tail = tail])
    show "sw_inv (uw_dispose w)" using ring_pop_laws(1) [OF inv le] by (simp add: eq)
    show "live (uw_dispose w) = records_bytes recs @ tail"
      using ring_pop_laws(2) [OF inv le] live(1) by (simp add: eq)
    have "u64_add (sw_poped w) (lh_size + length r) = sw_poped w + lh_size + length r"
      using le a(1) u64_add_small [of "sw_poped w" "lh_size + length r"]
      by (auto simp: sw_inv_def add.assoc)
    then show "uw_pushed_valid (uw_dispose w) = sw_poped (uw_dispose w) + length (records_bytes recs)"
      using a(3) by (simp add: eq ring_pop_def notify_full_def)
  qed (use abs live(2) in \<open>auto simp: uw_abs_def eq ring_pop_def notify_full_def\<close>)
qed

lemma uw_has_record_iff:
  assumes "uw_abs recs part w"
  shows "uw_has_record w \<longleftrightarrow> recs \<noteq> []"
proof -
  note a = uw_abs_live [OF assms]
  have "uw_stored_valid w = length (records_bytes recs)"
    using a by (simp add: uw_stored_valid_def u64_simps sw_inv_def)
  then show ?thesis by (cases recs) (auto simp: uw_has_record_def lh_size_def)
qed

text \<open>A write that returns on an open wire found the room it needs.\<close>

lemma uw_wait_if_full_room: "uw_wait_if_full w n = Some w' \<Longrightarrow> \<not> uw_closed w \<Longrightarrow> n \<le> room w"
  by (auto simp: uw_wait_if_full_def uw_wait_to_resultset_write_def split: if_splits)

lemma uw_write_returns:
  assumes abs: "uw_abs recs part w" and unclosed: "\<not> uw_closed w" and ne: "from \<noteq> []"
    and ret: "uw_write w from = Some w'" and b: "lh_size < budget w"
  shows "length (live w) + (if part = None then lh_size else 0) + length from \<le> sw_capacity w"
proof (cases part)
  case None
  note a = uw_abs_live [OF abs]
  obtain w1 where w1: "uw_brand_new w = Some w1" "uw_write_bytes (w1\<lparr>uw_continued := True\<rparr>) from = Some w'"
    using ret unclosed ne abs None by (auto simp: uw_write_def uw_abs_def split: option.splits)
  then have "lh_size \<le> room w"
    using uw_wait_if_full_room unclosed by (auto simp: uw_brand_new_def)
  then have fits: "length (live w) + lh_size \<le> sw_capacity w"
    using room_eq [OF a(1)] live_bounded [OF a(1)] by linarith
  from uw_brand_new_fits [OF a(1) this b] w1(1) obtain gap where
      w1': "sw_inv w1" "live w1 = live w @ gap" "length gap = lh_size" "w1 = w\<lparr>sw_pushed := sw_pushed w + lh_size\<rparr>"
    by auto
  let ?w = "w1\<lparr>uw_continued := True\<rparr>"
  have "length from \<le> room ?w"
    using w1(2) w1'(4) uw_wait_if_full_room [of ?w] unclosed by (auto simp: uw_write_bytes_def)
  moreover have "room ?w = sw_capacity w - length (live w @ gap)"
    using room_eq [OF w1'(1)] w1'(2,4) by (simp add: room_def stored_def del: length_live)
  ultimately show ?thesis using None fits w1'(3) by (simp del: length_live) 
next
  case (Some b)
  then have "uw_write_bytes w from = Some w'"
    using ret unclosed ne abs by (auto simp: uw_write_def uw_abs_def)
  then have "length from \<le> room w"
    using uw_wait_if_full_room unclosed by (auto simp: uw_write_bytes_def)
  then show ?thesis
    using Some room_eq [OF uw_abs_live(1) [OF abs]] live_bounded [OF uw_abs_live(1) [OF abs]]
    by (simp del: length_live)
qed

section \<open>The record channel as an interface\<close>

locale record_channel =
  fixes rep :: "'r list list \<Rightarrow> 'r list option \<Rightarrow> 'w \<Rightarrow> bool"
    and room_for :: "'w \<Rightarrow> 'r list \<Rightarrow> bool"
    and put :: "'w \<Rightarrow> 'r list \<Rightarrow> 'w option" and commit :: "'w \<Rightarrow> 'w"
    and chunk :: "'w \<Rightarrow> 'r list option" and drop_front :: "'w \<Rightarrow> 'w"
  assumes put_law: "rep recs part w \<Longrightarrow> bs \<noteq> [] \<Longrightarrow> room_for w bs \<Longrightarrow> put w bs = Some w' \<Longrightarrow>
        rep recs (Some (case part of None \<Rightarrow> bs | Some b \<Rightarrow> b @ bs)) w'"
    and commit_law: "rep recs (Some b) w \<Longrightarrow> rep (recs @ [b]) None (commit w)"
    and commit_none: "rep recs None w \<Longrightarrow> commit w = w"
    and chunk_law: "rep (r # recs) part w \<Longrightarrow> chunk w = Some r"
    and chunk_none: "rep [] part w \<Longrightarrow> chunk w = None"
    and drop_law: "rep (r # recs) part w \<Longrightarrow> rep recs part (drop_front w)"
begin

lemma put_commit_chunk:
  assumes "rep [] None w" "bs \<noteq> []" "room_for w bs" "put w bs = Some w'"
  shows "chunk w' = None" "chunk (commit w') = Some bs" "rep [] None (drop_front (commit w'))"
proof -
  have part: "rep [] (Some bs) w'" using put_law [OF assms] by simp
  then show "chunk w' = None" by (rule chunk_none)
  have "rep [bs] None (commit w')" using commit_law [OF part] by simp
  then show "chunk (commit w') = Some bs" "rep [] None (drop_front (commit w'))"
    using chunk_law drop_law by blast+
qed

end

text \<open>What the client reads: the two windows put together, if there is a record.\<close>

definition uw_read_record :: "resultset_wire \<Rightarrow> byte list option" where
  "uw_read_record w =
     (if uw_has_record w
      then (case uw_get_chunk w of
              (v, None, w') \<Rightarrow> view_bytes w' v
            | (v, Some v2, w') \<Rightarrow>
                (case (view_bytes w' v, view_bytes w' v2) of
                   (Some x, Some y) \<Rightarrow> Some (x @ y)
                 | _ \<Rightarrow> None))
      else None)"

definition uw_open :: "byte list list \<Rightarrow> byte list option \<Rightarrow> resultset_wire \<Rightarrow> bool" where
  "uw_open recs part w \<longleftrightarrow> uw_abs recs part w \<and> \<not> uw_closed w"

lemma uw_read_record_front: "uw_abs (r # recs) part w \<Longrightarrow> uw_read_record w = Some r"
  using uw_get_chunk_record [of r recs part w] uw_has_record_iff [of "r # recs" part w]
  by (auto simp: uw_read_record_def split: option.splits)

lemma uw_dispose_closed: "uw_closed (uw_dispose w) = uw_closed w"
  by (simp add: uw_dispose_def notify_full_def copy_header_def Let_def)

interpretation rc: record_channel uw_open "\<lambda>w bs. lh_size + length bs < budget w" uw_write
  "\<lambda>w. fst (uw_flush w)" uw_read_record uw_dispose
proof
  show "uw_open recs (Some (case part of None \<Rightarrow> bs | Some b \<Rightarrow> b @ bs)) w'"
    if "uw_open recs part w" "bs \<noteq> []" "lh_size + length bs < budget w" "uw_write w bs = Some w'"
    for recs part w bs w'
    using that uw_write_returns [of recs part w bs w'] uw_write_part [of recs part w bs]
    by (auto simp: uw_open_def)
  show "uw_open (recs @ [b]) None (fst (uw_flush w))" if "uw_open recs (Some b) w" for recs b w
    using that uw_flush_record [of recs b w] by (auto simp: uw_open_def)
  show "fst (uw_flush w) = w" if "uw_open recs None w" for recs w
    using that by (simp add: uw_open_def uw_flush_def uw_abs_def)
  show "uw_read_record w = Some r" if "uw_open (r # recs) part w" for r recs part w
    using that uw_read_record_front by (auto simp: uw_open_def)
  show "uw_read_record w = None" if "uw_open [] part w" for part w
    using that uw_has_record_iff [of "[]" part w] by (auto simp: uw_open_def uw_read_record_def)
  show "uw_open recs part (uw_dispose w)" if "uw_open (r # recs) part w" for r recs part w
    using that uw_dispose_record by (auto simp: uw_open_def uw_dispose_closed)
qed

subsection \<open>Sequences of operations\<close>

datatype rs_op = Rs_write "byte list" | Rs_flush | Rs_read

text \<open>\<open>rs_run\<close> returns the records the client read; its value is \<open>None\<close> where a write would block.
  \<open>rs_sent\<close> lists the records a sequence completes, \<open>rs_cost\<close> bounds the bytes it pushes.\<close>

fun rs_run :: "resultset_wire \<Rightarrow> rs_op list \<Rightarrow> (byte list list \<times> resultset_wire) option" where
  "rs_run w [] = Some ([], w)"
| "rs_run w (Rs_write bs # ops) = (case uw_write w bs of None \<Rightarrow> None | Some w' \<Rightarrow> rs_run w' ops)"
| "rs_run w (Rs_flush # ops) = rs_run (fst (uw_flush w)) ops"
| "rs_run w (Rs_read # ops) =
     (case uw_read_record w of
        None \<Rightarrow> rs_run w ops
      | Some r \<Rightarrow> map_option (\<lambda>(out, w'). (r # out, w')) (rs_run (uw_dispose w) ops))"

fun rs_sent :: "byte list option \<Rightarrow> rs_op list \<Rightarrow> byte list list" where
  "rs_sent part [] = []"
| "rs_sent part (Rs_write bs # ops) =
     rs_sent (if bs = [] then part else Some (case part of None \<Rightarrow> bs | Some b \<Rightarrow> b @ bs)) ops"
| "rs_sent part (Rs_flush # ops) =
     (case part of None \<Rightarrow> rs_sent None ops | Some b \<Rightarrow> b # rs_sent None ops)"
| "rs_sent part (Rs_read # ops) = rs_sent part ops"

fun rs_cost :: "rs_op list \<Rightarrow> nat" where
  "rs_cost [] = 0"
| "rs_cost (Rs_write bs # ops) = lh_size + length bs + rs_cost ops"
| "rs_cost (op # ops) = rs_cost ops"

lemma uw_wait_if_full_pushed: "uw_wait_if_full w n = Some w' \<Longrightarrow> sw_pushed w' = sw_pushed w"
  by (auto simp: uw_wait_if_full_def uw_wait_to_resultset_write_def split: if_splits)

lemma uw_write_budget:
  assumes "uw_write w bs = Some w'" "lh_size + length bs < budget w"
  shows "budget w \<le> budget w' + lh_size + length bs"
proof -
  have le: "u64_add a b \<le> a + b" for a b by (simp add: u64_add_def)
  have add: "u64_add (sw_pushed w) lh_size = sw_pushed w + lh_size"
    using assms(2) by (simp add: budget_def u64_simps)
  have "sw_pushed w' \<le> sw_pushed w + lh_size + length bs"
    using assms(1) add le [of "sw_pushed w" "length bs"] le [of "sw_pushed w + lh_size" "length bs"]
    by (auto simp: uw_write_def uw_brand_new_def uw_write_bytes_def
        dest!: uw_wait_if_full_pushed split: if_splits option.splits)
  then show ?thesis by (simp add: budget_def)
qed

lemma uw_other_budget: "budget (fst (uw_flush w)) = budget w" "budget (uw_dispose w) = budget w"
  by (simp_all add: uw_flush_def uw_flush_bytes_def uw_dispose_def budget_def copy_header_def
      notify_full_def Let_def)

lemma rs_run_queue:
  "rs_run w ops = Some (out, w') \<Longrightarrow> uw_open recs part w \<Longrightarrow> rs_cost ops < budget w \<Longrightarrow>
   \<exists>recs' part'. uw_open recs' part' w' \<and> out @ recs' = recs @ rs_sent part ops"
proof (induction ops arbitrary: w recs part out)
  case Nil
  then show ?case by auto
next
  case (Cons op ops)
  show ?case
  proof (cases op)
    case (Rs_write bs)
    then obtain w1 where w1: "uw_write w bs = Some w1" "rs_run w1 ops = Some (out, w')"
      using Cons.prems(1) by (auto split: option.splits)
    have cost: "rs_cost ops < budget w1" "lh_size + length bs < budget w"
      using uw_write_budget [OF w1(1)] Cons.prems(3) Rs_write by auto
    show ?thesis
    proof (cases "bs = []")
      case True
      then have "w1 = w" using w1(1) by (simp add: uw_write_def)
      then show ?thesis using Cons.IH [OF w1(2)] Cons.prems(2) cost(1) Rs_write True by simp
    next
      case False
      then show ?thesis
        using Cons.IH [OF w1(2) rc.put_law [OF Cons.prems(2) False cost(2) w1(1)] cost(1)] Rs_write by simp
    qed
  next
    case Rs_flush
    then show ?thesis
      using Cons.IH [of "fst (uw_flush w)" out "case part of None \<Rightarrow> recs | Some b \<Rightarrow> recs @ [b]" None]
        Cons.prems rc.commit_law rc.commit_none uw_other_budget(1)
      by (cases part) auto
  next
    case Rs_read
    show ?thesis
    proof (cases recs)
      case Nil
      then show ?thesis
        using Cons.IH [of w out "[]" part] Cons.prems Rs_read rc.chunk_none [of part w] by simp
    next
      case (Cons r rs)
      then obtain out' where "rs_run (uw_dispose w) ops = Some (out', w')" "out = r # out'"
        using Cons.prems(1,2) Rs_read rc.chunk_law [of r rs part w] by auto
      then show ?thesis
        using Cons.IH [of "uw_dispose w" out' rs part] Cons.prems(2,3) Rs_read Cons rc.drop_law
          uw_other_budget(2) by auto
    qed
  qed
qed

section \<open>Properties\<close>

text \<open>C18: the result-set wire is a queue of records: after any sequence of writes, flushes and reads in which
  no write blocks, the records the client has read, followed by those still queued, are exactly the
  flushed records in the order of their flushes, each reassembled from its pieces and, where it crosses
  the end of the ring, from its two windows; a record being written is not visible.\<close>

theorem resultset_run_fifo:
  assumes "uw_abs [] None w" "\<not> uw_closed w" "rs_cost ops < budget w" "rs_run w ops = Some (out, w')"
  shows "\<exists>recs part. uw_abs recs part w' \<and> out @ recs = rs_sent None ops"
  using rs_run_queue [OF assms(4), of "[]" None] assms(1-3) by (auto simp: uw_open_def)

definition sample_resultset_wire :: resultset_wire where
  "sample_resultset_wire =
     simple_wire.extend (fresh_wire length_header_ops 16) (resultset_wire.fields 1 0 False False)"

lemma sample_resultset_wire_abs:
  "uw_abs [] None sample_resultset_wire" "\<not> uw_closed sample_resultset_wire"
  "budget sample_resultset_wire = u64_limit" "sw_capacity sample_resultset_wire = 16"
  by (auto simp: sample_resultset_wire_def uw_abs_def uw_tail_def sw_inv_def live_def budget_def fresh_wire_def
      simple_wire.extend_def resultset_wire.fields_def)

text \<open>Two records of six bytes on a ring of sixteen; the second crosses the end of the ring.\<close>

definition sample_rs_ops :: "rs_op list" where
  "sample_rs_ops = [Rs_write [1, 2, 3], Rs_write [4, 5, 6], Rs_flush, Rs_read,
     Rs_write [7, 8, 9, 10], Rs_write [11, 12], Rs_flush, Rs_read]"

lemma sample_rs_run: "map_option fst (rs_run sample_resultset_wire sample_rs_ops) =
  Some [[1, 2, 3, 4, 5, 6], [7, 8, 9, 10, 11, 12]]"
proof -
  have hdr: "lh_get_buffer (lh_of_size 6) = [6, 0, 0, 0]" by code_simp
  have undo: "lh_length (lh_of_buffer [6, 0, 0, 0]) = 6" by code_simp
  show ?thesis
    by (simp add: sample_rs_ops_def sample_resultset_wire_def fresh_wire_def simple_wire.extend_def
        resultset_wire.fields_def ring_eval uw_write_def uw_brand_new_def uw_write_bytes_def
        uw_wait_if_full_def uw_flush_def uw_flush_bytes_def uw_read_record_def uw_has_record_def
        uw_stored_valid_def uw_get_chunk_def uw_dispose_def copy_header_def length_header_ops_def
        lh_size_def notify_full_def hdr undo)
qed

theorem resultset_run_fifo_witness:
  "\<exists>out w' recs part. rs_run sample_resultset_wire sample_rs_ops = Some (out, w') \<and>
     uw_abs recs part w' \<and> out @ recs = [[1, 2, 3, 4, 5, 6], [7, 8, 9, 10, 11, 12]]"
proof -
  obtain out w' where run: "rs_run sample_resultset_wire sample_rs_ops = Some (out, w')"
    using sample_rs_run by (auto simp: map_option_case split: option.splits)
  have "rs_cost sample_rs_ops < budget sample_resultset_wire"
    by (simp add: sample_rs_ops_def sample_resultset_wire_abs lh_size_def)
  with resultset_run_fifo [OF sample_resultset_wire_abs(1,2) _ run] run show ?thesis
    by (auto simp: sample_rs_ops_def)
qed

end
