(* ===== verification/Resultset_Wires.thy ===== *)
theory Resultset_Wires
  imports Resultset_Wire
begin

section \<open>\<open>unidirectional_simple_wires\<close>: the wires of one result set\<close>

text \<open>
  \<^verbatim>\<open>class unidirectional_simple_wires\<close> of \<^verbatim>\<open>src/tateyama/transport/wire.h\<close>.  The server acquires a wire
  for each writer and releases it; buffers come from the shared-memory segment, with one kept in
  reserve.  The client looks for a wire that holds a record.  A buffer is named by its handle; a null
  pointer and a detached wire have handle 0.  \<open>us_shm\<close> maps the handles of allocated blocks to their
  contents.  The segment's allocator is a parameter: the handle it returns for a given heap and size.
\<close>

datatype us_exception = Us_runtime_error runtime_error | Us_out_of_range | Us_abort

record resultset_wires =
  us_wires :: "resultset_wire list"
  us_buffer_size :: nat
  us_reserved :: nat
  us_count_using :: nat
  us_next_index :: nat
  us_only_one_buffer :: bool
  us_eor :: bool
  us_closed :: bool
  us_wait_for_record :: bool
  us_c_record :: nat
  us_shm :: "nat \<rightharpoonup> byte list"

type_synonym allocator = "(nat \<rightharpoonup> byte list) \<Rightarrow> nat \<Rightarrow> nat option"

definition allocate_aligned :: "allocator \<Rightarrow> (nat \<rightharpoonup> byte list) \<Rightarrow> nat \<Rightarrow> (nat \<times> (nat \<rightharpoonup> byte list)) option" where
  "allocate_aligned alloc shm n = map_option (\<lambda>h. (h, shm(h \<mapsto> replicate n 0))) (alloc shm n)"

definition resultset_wire_new :: resultset_wire where
  "resultset_wire_new =
     simple_wire.extend (fresh_wire length_header_ops 0) (resultset_wire.fields 0 0 False False)"

definition us_new :: "allocator \<Rightarrow> (nat \<rightharpoonup> byte list) \<Rightarrow> nat \<Rightarrow> nat \<Rightarrow> us_exception + resultset_wires" where
  "us_new alloc shm count buffer_size =
     (case allocate_aligned alloc shm buffer_size of
        None \<Rightarrow> Inl (Us_runtime_error (runtime_error reason_internal ''cannot allocate shared memory''))
      | Some (h, shm') \<Rightarrow>
          Inr \<lparr>us_wires = replicate count resultset_wire_new, us_buffer_size = buffer_size, us_reserved = h,
               us_count_using = 0, us_next_index = 0, us_only_one_buffer = False, us_eor = False,
               us_closed = False, us_wait_for_record = False, us_c_record = 0, us_shm = shm'\<rparr>)"

subsection \<open>Acquiring and releasing a wire\<close>

text \<open>\<open>unidirectional_simple_wires_.at(index).attach_buffer(handle, buffer_size_)\<close>\<close>

definition us_attach :: "resultset_wires \<Rightarrow> nat \<Rightarrow> nat \<Rightarrow> resultset_wires option" where
  "us_attach u i h =
     (if i < length (us_wires u)
      then Some (u\<lparr>us_wires := (us_wires u)
             [i := uw_attach_buffer (us_wires u ! i) h (the (us_shm u h)) (us_buffer_size u)]\<rparr>)
      else None)"

definition us_handle :: "resultset_wires \<Rightarrow> nat \<Rightarrow> nat" where
  "us_handle u i = (if i < length (us_wires u) then uw_buffer_handle (us_wires u ! i) else 0)"

text \<open>\<open>search_free_wire\<close>: \<open>None\<close> stands for \<open>std::abort()\<close>.\<close>

definition us_search_free_wire :: "resultset_wires \<Rightarrow> (nat \<times> resultset_wires) option" where
  "us_search_free_wire u =
     (if us_count_using u = us_next_index u
      then Some (us_next_index u,
             u\<lparr>us_count_using := Suc (us_count_using u), us_next_index := Suc (us_next_index u)\<rparr>)
      else (case filter (\<lambda>i. uw_equal (us_wires u ! i) 0) [0..<us_next_index u] of
              [] \<Rightarrow> None
            | i # _ \<Rightarrow> Some (i, u\<lparr>us_count_using := Suc (us_count_using u)\<rparr>)))"

definition us_acquire :: "allocator \<Rightarrow> resultset_wires \<Rightarrow> resultset_wires \<times> (us_exception + nat)" where
  "us_acquire alloc u =
     (if us_count_using u = 0
      then (let u1 = u\<lparr>us_count_using := 1, us_next_index := 1\<rparr>
            in case us_attach u1 0 (us_reserved u1) of
                 None \<Rightarrow> (u1, Inl Us_out_of_range)
               | Some u2 \<Rightarrow> (u2\<lparr>us_reserved := 0, us_only_one_buffer := True\<rparr>, Inr 0))
      else (case (if us_reserved u \<noteq> 0 then Some (us_reserved u, u\<lparr>us_reserved := 0\<rparr>)
                  else map_option (\<lambda>(h, shm). (h, u\<lparr>us_shm := shm\<rparr>))
                         (allocate_aligned alloc (us_shm u) (us_buffer_size u))) of
              None \<Rightarrow>
                (u, Inl (Us_runtime_error (runtime_error reason_internal ''cannot allocate shared memory'')))
            | Some (h, u1) \<Rightarrow>
                (case us_search_free_wire u1 of
                   None \<Rightarrow> (u1, Inl Us_abort)
                 | Some (i, u2) \<Rightarrow>
                     (case us_attach u2 i h of
                        None \<Rightarrow> (u2, Inl Us_out_of_range)
                      | Some u3 \<Rightarrow> (u3\<lparr>us_only_one_buffer := False\<rparr>, Inr i)))))"

definition us_search_wire :: "resultset_wires \<Rightarrow> nat \<Rightarrow> nat option" where
  "us_search_wire u h =
     (case filter (\<lambda>i. uw_equal (us_wires u ! i) h) [0..<us_next_index u] of
        [] \<Rightarrow> None
      | i # _ \<Rightarrow> Some i)"

text \<open>\<open>release\<close> of the wire at index \<open>w\<close>.\<close>

definition us_release :: "resultset_wires \<Rightarrow> nat \<Rightarrow> resultset_wires \<times> (us_exception + unit)" where
  "us_release u w =
     (let buffer = us_handle u w
      in case us_search_wire u buffer of
           None \<Rightarrow> (u, Inl Us_abort)
         | Some i \<Rightarrow>
             (let u1 = u\<lparr>us_wires := (us_wires u)[i := uw_reset_handle (us_wires u ! i)]\<rparr>;
                  u2 = (if us_reserved u1 = 0 then u1\<lparr>us_reserved := buffer\<rparr>
                        else u1\<lparr>us_shm := (us_shm u1)(buffer := None)\<rparr>)
              in (u2\<lparr>us_count_using := u64_sub (us_count_using u2) 1\<rparr>, Inr ())))"

subsection \<open>The client's search for a record\<close>

definition us_find_record :: "resultset_wires \<Rightarrow> nat option" where
  "us_find_record u =
     (case filter (\<lambda>i. uw_has_record (us_wires u ! i)) [0..<length (us_wires u)] of
        [] \<Rightarrow> None
      | i # _ \<Rightarrow> Some i)"

definition us_set_closed :: "resultset_wires \<Rightarrow> resultset_wires" where
  "us_set_closed u = u\<lparr>us_wires := map uw_set_closed (us_wires u), us_closed := True\<rparr>"

definition us_is_closed :: "resultset_wires \<Rightarrow> bool" where
  "us_is_closed u = us_closed u"

definition us_set_eor :: "resultset_wires \<Rightarrow> resultset_wires" where
  "us_set_eor u = u\<lparr>us_eor := True, us_c_record := Suc (us_c_record u)\<rparr>"

definition us_is_eor :: "resultset_wires \<Rightarrow> bool" where
  "us_is_eor u = us_eor u"

definition us_notify_record_arrival :: "resultset_wires \<Rightarrow> resultset_wires" where
  "us_notify_record_arrival u = u\<lparr>us_c_record := Suc (us_c_record u)\<rparr>"

text \<open>\<open>flush\<close> of the wire at index \<open>i\<close>, with the notification of its envelope.\<close>

definition us_flush :: "resultset_wires \<Rightarrow> nat \<Rightarrow> resultset_wires" where
  "us_flush u i =
     (case uw_flush (us_wires u ! i) of
        (w, notified) \<Rightarrow>
          (let u' = u\<lparr>us_wires := (us_wires u)[i := w]\<rparr>
           in if notified then us_notify_record_arrival u' else u'))"

text \<open>\<open>active_wire\<close>, with the effect of the server on the wires at each wait as an argument, as for
  \<open>peep\<close>.  The result is the index of the wire, or \<open>None\<close> for the null pointer.\<close>

fun us_active_wire ::
  "(resultset_wires \<Rightarrow> resultset_wires) list \<Rightarrow> resultset_wires \<Rightarrow> resultset_wires \<times> (runtime_error + nat option)" where
  "us_active_wire env u =
     (case us_find_record u of
        Some i \<Rightarrow> (u, Inr (Some i))
      | None \<Rightarrow>
          (let u1 = (case env of [] \<Rightarrow> u\<lparr>us_wait_for_record := True\<rparr>
                       | server # _ \<Rightarrow> server (u\<lparr>us_wait_for_record := True\<rparr>));
               u2 = u1\<lparr>us_wait_for_record := False\<rparr>
           in case us_find_record u1 of
                Some i \<Rightarrow> (u2, Inr (Some i))
              | None \<Rightarrow>
                  if us_is_eor u1 then (u2, Inr None)
                  else (u2, Inl (runtime_error reason_connection_timeout
                                   ''record has not been received within the specified time''))))"

section \<open>Buffers are neither shared nor lost\<close>

subsection \<open>The abstract pool of buffers\<close>

text \<open>\<open>buffer_pool k h n l c r H D\<close>: of \<open>l\<close> wires those below \<open>n\<close> may be attached, \<open>H\<close> gives the
  handle of each (0 for none), \<open>r\<close> is the buffer in reserve, the operation in progress holds buffer \<open>h\<close>
  (0 for none), the counter \<open>c\<close> is \<open>k\<close> ahead of the number of attached wires, and \<open>D\<close> is the set of
  allocated blocks: all buffers are different, and together they are all that is allocated.\<close>

definition attached :: "(nat \<Rightarrow> nat) \<Rightarrow> nat set" where
  "attached H = {i. H i \<noteq> 0}"

definition pool_blocks :: "nat \<Rightarrow> nat \<Rightarrow> (nat \<Rightarrow> nat) \<Rightarrow> nat set" where
  "pool_blocks r h H = (H ` attached H \<union> {r, h}) - {0}"

definition buffer_pool ::
  "nat \<Rightarrow> nat \<Rightarrow> nat \<Rightarrow> nat \<Rightarrow> nat \<Rightarrow> nat \<Rightarrow> (nat \<Rightarrow> nat) \<Rightarrow> nat set \<Rightarrow> bool" where
  "buffer_pool k h n l c r H D \<longleftrightarrow>
     n \<le> l \<and> attached H \<subseteq> {..<n} \<and> c = card (attached H) + k \<and> inj_on H (attached H) \<and>
     r \<notin> H ` attached H \<and> h \<notin> H ` attached H \<and> (h \<noteq> 0 \<longrightarrow> h \<noteq> r) \<and> D = pool_blocks r h H"

lemma attached_finite: "buffer_pool k h n l c r H D \<Longrightarrow> finite (attached H)"
  by (rule finite_subset [of _ "{..<n}"]) (auto simp: buffer_pool_def)

lemma attached_upd: "attached (H(i := x)) = (if x = 0 then attached H - {i} else insert i (attached H))"
  by (auto simp: attached_def)

lemma pool_attach:
  assumes "buffer_pool 1 h n l c r H D" "h \<noteq> 0" "H i = 0" "i < n"
  shows "buffer_pool 0 0 n l c r (H(i := h)) D"
proof -
  have new: "i \<notin> attached H" using assms(3) by (simp add: attached_def)
  have zero: "0 \<notin> H ` attached H" by (auto simp: attached_def)
  have att: "attached (H(i := h)) = insert i (attached H)" using assms(2) by (simp add: attached_upd)
  have img: "H(i := h) ` insert i (attached H) = insert h (H ` attached H)"
  proof -
    have "H(i := h) ` attached H = H ` attached H" by (rule image_cong) (use new in auto)
    then show ?thesis unfolding image_insert by simp
  qed
  have p: "inj_on H (attached H)" "h \<notin> H ` attached H" "r \<notin> H ` attached H" "h \<noteq> r"
      "attached H \<subseteq> {..<n}" "n \<le> l" "c = Suc (card (attached H))" "D = pool_blocks r h H"
    using assms(1,2) by (simp_all add: buffer_pool_def)
  have "inj_on (H(i := h)) (insert i (attached H))"
    using p(1,2) new by (auto simp: inj_on_def)
  moreover have "D = pool_blocks r 0 (H(i := h))"
    unfolding p(8) pool_blocks_def att img by blast
  moreover have "card (insert i (attached H)) = c"
    using p(7) new attached_finite [OF assms(1)] by simp
  ultimately show ?thesis
    unfolding buffer_pool_def att img using p zero assms(2,4) by simp
qed

lemma pool_detach:
  assumes "buffer_pool 0 0 n l c r H D" "H i \<noteq> 0"
  shows "buffer_pool 1 (H i) n l c r (H(i := 0)) D"
proof -
  have i: "i \<in> attached H" using assms(2) by (simp add: attached_def)
  have att: "attached (H(i := 0)) = attached H - {i}" by (simp add: attached_upd)
  have img: "H(i := 0) ` (attached H - {i}) = H ` (attached H - {i})"
    by (rule image_cong) auto
  have split: "H ` attached H = insert (H i) (H ` (attached H - {i}))" using i by blast
  have p: "inj_on H (attached H)" "r \<notin> H ` attached H" "attached H \<subseteq> {..<n}" "n \<le> l"
      "c = card (attached H)" "D = pool_blocks r 0 H"
    using assms(1) by (simp_all add: buffer_pool_def)
  have "inj_on (H(i := 0)) (attached H - {i})" using p(1) by (auto simp: inj_on_def)
  moreover have "H i \<notin> H ` (attached H - {i})" using p(1) i by (auto simp: inj_on_def)
  moreover have "r \<notin> H ` (attached H - {i})" "H i \<noteq> r" using p(2) unfolding split by blast+
  moreover have "D = pool_blocks r (H i) (H(i := 0))"
    unfolding p(6) pool_blocks_def att img split by blast
  moreover have "card (attached H) = Suc (card (attached H - {i}))"
    using attached_finite [OF assms(1)] i by (rule card.remove)
  moreover have "attached H - {i} \<subseteq> {..<n}" using p(3) by blast
  ultimately show ?thesis
    unfolding buffer_pool_def att img using p(4,5) by simp
qed

lemma pool_take_reserved:
  assumes "buffer_pool 0 0 n l c r H D" "r \<noteq> 0"
  shows "buffer_pool 0 r n l c 0 H D"
proof -
  have "pool_blocks 0 r H = pool_blocks r 0 H" by (auto simp: pool_blocks_def)
  then show ?thesis using assms by (simp add: buffer_pool_def)
qed

lemma pool_allocate:
  assumes "buffer_pool 0 0 n l c r H D" "h \<notin> D" "h \<noteq> 0"
  shows "buffer_pool 0 h n l c r H (insert h D)"
proof -
  have "pool_blocks r h H = insert h (pool_blocks r 0 H)" using assms(3) by (auto simp: pool_blocks_def)
  moreover have "h \<noteq> r" "h \<notin> H ` attached H"
    using assms by (auto simp: buffer_pool_def pool_blocks_def)
  ultimately show ?thesis using assms(1) by (simp add: buffer_pool_def)
qed

lemma pool_next: "buffer_pool 0 h n l c r H D \<Longrightarrow> n < l \<Longrightarrow> buffer_pool 1 h (Suc n) l (Suc c) r H D"
  unfolding buffer_pool_def by fastforce

lemma pool_hole: "buffer_pool 0 h n l c r H D \<Longrightarrow> buffer_pool 1 h n l (Suc c) r H D"
  by (simp add: buffer_pool_def)

lemma pool_reserve:
  assumes "buffer_pool 1 h n l c 0 H D"
  shows "buffer_pool 1 0 n l c h H D"
proof -
  have "pool_blocks 0 h H = pool_blocks h 0 H" by (auto simp: pool_blocks_def)
  then show ?thesis using assms by (simp add: buffer_pool_def)
qed

lemma pool_free:
  assumes "buffer_pool 1 h n l c r H D" "h \<noteq> 0"
  shows "buffer_pool 1 0 n l c r H (D - {h})"
proof -
  have "pool_blocks r 0 H = pool_blocks r h H - {h}"
    using assms by (auto simp: pool_blocks_def buffer_pool_def)
  moreover have "0 \<notin> H ` attached H" by (auto simp: attached_def)
  ultimately show ?thesis using assms by (simp add: buffer_pool_def)
qed

lemma pool_uncount: "buffer_pool 1 0 n l c r H D \<Longrightarrow> buffer_pool 0 0 n l (c - 1) r H D"
  by (simp add: buffer_pool_def)

lemma pool_hole_exists:
  assumes "buffer_pool 0 h n l c r H D" "c \<noteq> n"
  shows "\<exists>i<n. H i = 0"
proof (rule ccontr)
  assume "\<not> (\<exists>i<n. H i = 0)"
  then have "{..<n} \<subseteq> attached H" by (auto simp: attached_def)
  then have "attached H = {..<n}" using assms(1) by (auto simp: buffer_pool_def)
  then show False using assms by (simp add: buffer_pool_def)
qed

subsection \<open>The operations implement it\<close>

definition us_core :: "nat \<Rightarrow> nat \<Rightarrow> resultset_wires \<Rightarrow> bool" where
  "us_core k h u \<longleftrightarrow>
     buffer_pool k h (us_next_index u) (length (us_wires u)) (us_count_using u) (us_reserved u)
       (us_handle u) (dom (us_shm u))"

definition us_inv :: "resultset_wires \<Rightarrow> bool" where
  "us_inv u \<longleftrightarrow> us_core 0 0 u \<and> length (us_wires u) < u64_limit \<and> (us_count_using u = 0 \<longrightarrow> us_reserved u \<noteq> 0)"

definition fresh_allocator :: "allocator \<Rightarrow> bool" where
  "fresh_allocator alloc \<longleftrightarrow> (\<forall>shm n h. alloc shm n = Some h \<longrightarrow> h \<noteq> 0 \<and> shm h = None)"

lemma fresh_allocatorD: "fresh_allocator alloc \<Longrightarrow> alloc shm n = Some h \<Longrightarrow> h \<noteq> 0 \<and> shm h = None"
  unfolding fresh_allocator_def by blast

lemma first_of_filter:
  assumes "filter P xs = i # ys"
  shows "P i" "i \<in> set xs"
proof -
  have "i \<in> set (filter P xs)" using assms by simp
  then show "P i" "i \<in> set xs" by simp_all
qed

lemma us_handle_cong: "us_wires u = us_wires v \<Longrightarrow> us_handle u = us_handle v"
  by (simp add: us_handle_def fun_eq_iff)

lemma us_attach_handle:
  assumes "us_attach u i h = Some u'"
  shows "us_handle u' = (us_handle u)(i := h)" "us_next_index u' = us_next_index u" "us_shm u' = us_shm u"
    "us_count_using u' = us_count_using u" "us_reserved u' = us_reserved u"
    "length (us_wires u') = length (us_wires u)" "i < length (us_wires u)"
  using assms
  by (auto simp: us_attach_def us_handle_def fun_eq_iff nth_list_update uw_attach_buffer_def split: if_splits)

lemma us_attach_core:
  "us_core 1 h u \<Longrightarrow> h \<noteq> 0 \<Longrightarrow> i < us_next_index u \<Longrightarrow> us_handle u i = 0 \<Longrightarrow>
   us_attach u i h = Some u' \<Longrightarrow> us_core 0 0 u'"
  using us_attach_handle [of u i h u'] pool_attach by (simp add: us_core_def)

lemma us_search_free_wire_core:
  assumes core: "us_core 0 h u" and found: "us_search_free_wire u = Some (i, u')"
    and i: "i < length (us_wires u)"
  shows "us_core 1 h u'" "i < us_next_index u'" "us_handle u' i = 0" "us_wires u' = us_wires u"
    "us_count_using u' = Suc (us_count_using u)"
proof -
  have "us_core 1 h u' \<and> i < us_next_index u' \<and> us_handle u i = 0 \<and> us_wires u' = us_wires u \<and>
      us_count_using u' = Suc (us_count_using u)"
  proof (cases "us_count_using u = us_next_index u")
    case True
    then have u': "i = us_next_index u"
        "u' = u\<lparr>us_count_using := Suc (us_count_using u), us_next_index := Suc (us_next_index u)\<rparr>"
      using found by (auto simp: us_search_free_wire_def)
    have "us_handle u' = us_handle u" by (rule us_handle_cong) (simp add: u')
    moreover have "us_handle u i = 0"
      using core u'(1) by (auto simp: us_core_def buffer_pool_def attached_def)
    ultimately show ?thesis
      using core i u' pool_next by (simp add: us_core_def)
  next
    case False
    then obtain ys where ys: "filter (\<lambda>i. uw_equal (us_wires u ! i) 0) [0..<us_next_index u] = i # ys"
        "u' = u\<lparr>us_count_using := Suc (us_count_using u)\<rparr>"
      using found by (auto simp: us_search_free_wire_def split: list.splits)
    have "us_handle u' = us_handle u" by (rule us_handle_cong) (simp add: ys)
    then show ?thesis
      using first_of_filter [OF ys(1)] core i ys(2) pool_hole
      by (auto simp: us_core_def uw_equal_def us_handle_def)
  qed
  then show "us_core 1 h u'" "i < us_next_index u'" "us_handle u' i = 0" "us_wires u' = us_wires u"
      "us_count_using u' = Suc (us_count_using u)"
    using us_handle_cong [of u' u] by simp_all
qed

lemma us_search_free_wire_total:
  assumes "us_core 0 h u"
  shows "us_search_free_wire u \<noteq> None"
proof (cases "us_count_using u = us_next_index u")
  case False
  then obtain i where i: "i < us_next_index u" "us_handle u i = 0"
    using pool_hole_exists assms unfolding us_core_def by blast
  then have "i < length (us_wires u)" using assms by (simp add: us_core_def buffer_pool_def)
  then have "i \<in> set (filter (\<lambda>i. uw_equal (us_wires u ! i) 0) [0..<us_next_index u])"
    using i by (simp add: uw_equal_def us_handle_def)
  then have "filter (\<lambda>i. uw_equal (us_wires u ! i) 0) [0..<us_next_index u] \<noteq> []"
    by (metis empty_iff list.set(1))
  then show ?thesis using False by (simp add: us_search_free_wire_def split: list.splits)
qed (simp add: us_search_free_wire_def)

lemma us_acquire_first_inv:
  assumes inv: "us_inv u" and first: "us_count_using u = 0" and acq: "us_acquire alloc u = (u', Inr i)"
  shows "us_inv u' \<and> us_handle u i = 0 \<and> (\<exists>h. h \<noteq> 0 \<and> us_handle u' = (us_handle u)(i := h))"
proof -
  let ?u = "u\<lparr>us_count_using := 1, us_next_index := 1\<rparr>"
  obtain v where v: "us_attach ?u 0 (us_reserved u) = Some v"
      "u' = v\<lparr>us_reserved := 0, us_only_one_buffer := True\<rparr>" "i = 0"
    using acq first by (auto simp: us_acquire_def Let_def split: option.splits)
  note at = us_attach_handle [OF v(1)]
  have res: "us_reserved u \<noteq> 0" and pool: "us_core 0 0 u" and len: "length (us_wires u) < u64_limit"
    using inv first by (auto simp: us_inv_def)
  have none: "us_handle u = (\<lambda>i. 0)"
  proof -
    have "card (attached (us_handle u)) = 0" using pool first by (simp add: us_core_def buffer_pool_def)
    then have "attached (us_handle u) = {}"
      using attached_finite [OF pool [unfolded us_core_def]] by simp
    then show ?thesis by (auto simp: attached_def)
  qed
  have att: "attached (\<lambda>i::nat. 0::nat) = {}" by (simp add: attached_def)
  have hd: "us_handle ?u = us_handle u" by (rule us_handle_cong) simp
  have "buffer_pool 1 (us_reserved u) 1 (length (us_wires u)) 1 0 (\<lambda>i. 0) (dom (us_shm u))"
    using pool at(7) unfolding us_core_def buffer_pool_def none att pool_blocks_def
    by (simp add: insert_commute Suc_le_eq)
  from pool_attach [OF this res, of 0]
  have core: "us_core 0 0 (v\<lparr>us_reserved := 0, us_only_one_buffer := True\<rparr>)"
    using at hd none us_handle_cong [of "v\<lparr>us_reserved := 0, us_only_one_buffer := True\<rparr>" v]
    by (simp add: us_core_def)
  then show ?thesis
    using v at hd none len res us_handle_cong [of u' v] by (auto simp: us_inv_def)
qed

text \<open>The buffer for a further wire: the one in reserve, or a new block.\<close>

lemma us_take_buffer_core:
  assumes pool: "us_core 0 0 u" and alloc: "fresh_allocator alloc"
    and u1: "(if us_reserved u \<noteq> 0 then Some (us_reserved u, u\<lparr>us_reserved := 0\<rparr>)
      else map_option (\<lambda>(h, shm). (h, u\<lparr>us_shm := shm\<rparr>))
             (allocate_aligned alloc (us_shm u) (us_buffer_size u))) = Some (h, u1)"
  shows "us_core 0 h u1" "h \<noteq> 0" "us_wires u1 = us_wires u" "us_count_using u1 = us_count_using u"
proof -
  show wires: "us_wires u1 = us_wires u" and "us_count_using u1 = us_count_using u"
    using u1 by (auto split: if_splits)
  have "us_core 0 h u1 \<and> h \<noteq> 0"
  proof (cases "us_reserved u \<noteq> 0")
    case True
    then have "h = us_reserved u" "u1 = u\<lparr>us_reserved := 0\<rparr>" using u1 by auto
    then show ?thesis
      using pool True pool_take_reserved us_handle_cong [OF wires] by (simp add: us_core_def)
  next
    case False
    then have "alloc (us_shm u) (us_buffer_size u) = Some h"
        "u1 = u\<lparr>us_shm := (us_shm u)(h \<mapsto> replicate (us_buffer_size u) 0)\<rparr>"
      using u1 by (auto simp: allocate_aligned_def)
    moreover from this(1) have "h \<notin> dom (us_shm u)" "h \<noteq> 0"
      using fresh_allocatorD [OF alloc, of "us_shm u" "us_buffer_size u" h] by auto
    ultimately show ?thesis
      using pool_allocate [OF pool [unfolded us_core_def]] us_handle_cong [OF wires]
      by (simp add: us_core_def)
  qed
  then show "us_core 0 h u1" "h \<noteq> 0" by simp_all
qed

lemma us_acquire_inv:
  assumes inv: "us_inv u" and alloc: "fresh_allocator alloc" and acq: "us_acquire alloc u = (u', Inr i)"
  shows "us_inv u' \<and> us_handle u i = 0 \<and> (\<exists>h. h \<noteq> 0 \<and> us_handle u' = (us_handle u)(i := h))"
proof (cases "us_count_using u = 0")
  case True
  then show ?thesis using us_acquire_first_inv inv acq by blast
next
  case False
  obtain h u1 where u1: "(if us_reserved u \<noteq> 0 then Some (us_reserved u, u\<lparr>us_reserved := 0\<rparr>)
      else map_option (\<lambda>(h, shm). (h, u\<lparr>us_shm := shm\<rparr>))
             (allocate_aligned alloc (us_shm u) (us_buffer_size u))) = Some (h, u1)"
    using acq False by (auto simp: us_acquire_def split: option.splits)
  have pool: "us_core 0 0 u" and len: "length (us_wires u) < u64_limit" using inv by (simp_all add: us_inv_def)
  note taken = us_take_buffer_core [OF pool alloc u1]
  obtain u2 where u2: "us_search_free_wire u1 = Some (i, u2)"
    using acq False u1 by (auto simp: us_acquire_def split: option.splits)
  obtain u3 where u3: "us_attach u2 i h = Some u3" "u' = u3\<lparr>us_only_one_buffer := False\<rparr>"
    using acq False u1 u2 by (auto simp: us_acquire_def split: option.splits)
  note at = us_attach_handle [OF u3(1)]
  have w2: "us_wires u2 = us_wires u1"
    using u2 by (auto simp: us_search_free_wire_def split: if_splits list.splits)
  have "i < length (us_wires u1)" using at(7) w2 by simp
  note fr = us_search_free_wire_core [OF taken(1) u2 this]
  have "us_core 0 0 u3" using us_attach_core [OF fr(1) _ fr(2,3) u3(1)] taken(2) by simp
  moreover have "us_handle u' = us_handle u3" by (rule us_handle_cong) (simp add: u3)
  moreover have "us_handle u2 = us_handle u" by (rule us_handle_cong) (simp add: w2 taken)
  ultimately show ?thesis
    using at fr taken len w2 u3(2) by (auto simp: us_inv_def us_core_def)
qed

lemma us_search_wire_attached:
  assumes pool: "us_core 0 0 u" and w: "us_handle u w \<noteq> 0"
  shows "us_search_wire u (us_handle u w) = Some w"
proof -
  let ?h = "us_handle u w"
  have "w \<in> attached (us_handle u)" using w by (simp add: attached_def)
  then have wn: "w < us_next_index u" using pool by (auto simp: us_core_def buffer_pool_def)
  have same: "j = w" if "j < us_next_index u" "uw_equal (us_wires u ! j) ?h" for j
  proof -
    have "us_handle u j = ?h"
      using that pool by (auto simp: us_core_def buffer_pool_def us_handle_def uw_equal_def)
    then show ?thesis
      using pool w by (auto simp: us_core_def buffer_pool_def inj_on_def attached_def)
  qed
  have "w < length (us_wires u)" using w by (auto simp: us_handle_def split: if_splits)
  then have "w \<in> set (filter (\<lambda>i. uw_equal (us_wires u ! i) ?h) [0..<us_next_index u])"
    using wn by (simp add: uw_equal_def us_handle_def)
  then obtain j ys where j: "filter (\<lambda>i. uw_equal (us_wires u ! i) ?h) [0..<us_next_index u] = j # ys"
    by (metis empty_iff list.exhaust list.set(1))
  then have "j = w" using first_of_filter [OF j] same by simp
  then show ?thesis using j by (simp add: us_search_wire_def)
qed

lemma us_count_using_range:
  assumes pool: "us_core 0 0 u" and "length (us_wires u) < u64_limit" "us_handle u w \<noteq> 0"
  shows "0 < us_count_using u" "us_count_using u < u64_limit"
proof -
  have "card (attached (us_handle u)) \<le> card {..<us_next_index u}"
    using pool by (intro card_mono) (auto simp: us_core_def buffer_pool_def)
  then show "us_count_using u < u64_limit" using pool assms(2) by (simp add: us_core_def buffer_pool_def)
  have "w \<in> attached (us_handle u)" using assms(3) by (simp add: attached_def)
  then show "0 < us_count_using u"
    using pool attached_finite [OF pool [unfolded us_core_def]]
    by (auto simp: us_core_def buffer_pool_def card_gt_0_iff)
qed

lemma us_release_inv:
  assumes inv: "us_inv u" and w: "us_handle u w \<noteq> 0"
  shows "\<exists>u'. us_release u w = (u', Inr ()) \<and> us_inv u' \<and> us_handle u' = (us_handle u)(w := 0)"
proof -
  have pool: "us_core 0 0 u" and len: "length (us_wires u) < u64_limit" using inv by (simp_all add: us_inv_def)
  have wlen: "w < length (us_wires u)" using w by (auto simp: us_handle_def split: if_splits)
  let ?h = "us_handle u w"
  define u1 where "u1 = u\<lparr>us_wires := (us_wires u)[w := uw_reset_handle (us_wires u ! w)]\<rparr>"
  define u2 where "u2 = (if us_reserved u1 = 0 then u1\<lparr>us_reserved := ?h\<rparr>
                         else u1\<lparr>us_shm := (us_shm u1)(?h := None)\<rparr>)"
  let ?u3 = "u2\<lparr>us_count_using := u64_sub (us_count_using u2) 1\<rparr>"
  have rel: "us_release u w = (?u3, Inr ())"
    by (simp add: us_release_def us_search_wire_attached [OF pool w] u1_def u2_def Let_def)
  have hd: "us_handle u1 = (us_handle u)(w := 0)" "us_handle ?u3 = us_handle u1"
    using wlen by (auto simp: u1_def u2_def us_handle_def fun_eq_iff nth_list_update uw_reset_handle_def)
  have core1: "us_core 1 ?h u1"
    using pool_detach [OF pool [unfolded us_core_def] w] hd(1) by (simp add: us_core_def u1_def)
  have core2: "us_core 1 0 u2"
  proof (cases "us_reserved u1 = 0")
    case True
    then show ?thesis
      using core1 pool_reserve us_handle_cong [of u2 u1] by (simp add: us_core_def u2_def)
  next
    case False
    then have "dom (us_shm u2) = dom (us_shm u1) - {?h}" by (simp add: u2_def)
    then show ?thesis
      using core1 False w pool_free us_handle_cong [of u2 u1] by (simp add: us_core_def u2_def)
  qed
  have sub: "u64_sub (us_count_using u2) (Suc 0) = us_count_using u2 - 1" "us_count_using u2 = us_count_using u"
    using us_count_using_range [OF pool len w] by (simp_all add: u1_def u2_def u64_simps)
  have core3: "us_core 0 0 ?u3"
    using core2 pool_uncount us_handle_cong [of ?u3 u2] sub by (simp add: us_core_def)
  have "us_reserved ?u3 \<noteq> 0" using w by (simp add: u2_def)
  moreover have "length (us_wires ?u3) < u64_limit" using len by (simp add: u1_def u2_def)
  ultimately show ?thesis using rel hd core3 by (auto simp: us_inv_def)
qed

section \<open>Properties\<close>

text \<open>The server's use of the wires: acquisitions that succeed, and releases of attached wires.\<close>

inductive us_reach :: "allocator \<Rightarrow> resultset_wires \<Rightarrow> resultset_wires \<Rightarrow> bool" for alloc u0 where
  start: "us_reach alloc u0 u0"
| acquire: "us_reach alloc u0 u \<Longrightarrow> us_acquire alloc u = (u', Inr i) \<Longrightarrow> us_reach alloc u0 u'"
| release: "us_reach alloc u0 u \<Longrightarrow> us_handle u w \<noteq> 0 \<Longrightarrow> us_release u w = (u', r) \<Longrightarrow> us_reach alloc u0 u'"

lemma us_new_inv:
  assumes "us_new alloc Map.empty count n = Inr u" "fresh_allocator alloc" "count < u64_limit"
  shows "us_inv u"
proof -
  obtain h where h: "h \<noteq> 0" "us_reserved u = h" "us_wires u = replicate count resultset_wire_new"
      "us_next_index u = 0" "us_count_using u = 0" "us_shm u = [h \<mapsto> replicate n 0]"
    using assms(1) fresh_allocatorD [OF assms(2), of Map.empty n]
    by (auto simp: us_new_def allocate_aligned_def split: option.splits)
  have "us_handle u = (\<lambda>i. 0)"
    by (auto simp: us_handle_def fun_eq_iff h resultset_wire_new_def simple_wire.extend_def resultset_wire.fields_def)
  moreover have "attached (\<lambda>i::nat. 0::nat) = {}" by (simp add: attached_def)
  ultimately show ?thesis
    using h assms(3) by (auto simp: us_inv_def us_core_def buffer_pool_def pool_blocks_def)
qed

lemma us_reach_inv:
  assumes "us_reach alloc u0 u" "us_inv u0" "fresh_allocator alloc"
  shows "us_inv u"
  using assms
proof (induction rule: us_reach.induct)
  case (acquire u u' i)
  then show ?case using us_acquire_inv by blast
next
  case (release u w u' r)
  then show ?case using us_release_inv [of u w] by auto
qed simp


text \<open>A concrete allocator: the smallest free handle below one hundred.\<close>

definition sample_allocator :: allocator where
  "sample_allocator shm n = find (\<lambda>h. shm h = None) [1..<100]"

definition sample_wires :: resultset_wires where
  "sample_wires = (case us_new sample_allocator Map.empty 4 16 of Inr u \<Rightarrow> u)"


text \<open>The client does not miss records at the end of a result set: \<open>active_wire\<close> returns the null pointer
  only when the server has marked the end and no wire holds a record, an index only when that wire holds
  one, and it throws \<open>connection_timeout\<close> only when neither a record nor the mark arrived.\<close>

theorem active_wire_result:
  "case us_active_wire env u of
     (u', Inr (Some i)) \<Rightarrow> i < length (us_wires u') \<and> uw_has_record (us_wires u' ! i)
   | (u', Inr None) \<Rightarrow> us_eor u' \<and> list_all (\<lambda>w. \<not> uw_has_record w) (us_wires u')
   | (u', Inl e) \<Rightarrow> code e = reason_connection_timeout \<and> \<not> us_eor u' \<and>
       list_all (\<lambda>w. \<not> uw_has_record w) (us_wires u')"
proof -
  have some: "i < length (us_wires v) \<and> uw_has_record (us_wires v ! i)" if "us_find_record v = Some i" for v i
    using that first_of_filter [of "\<lambda>i. uw_has_record (us_wires v ! i)" "[0..<length (us_wires v)]" i]
    by (auto simp: us_find_record_def split: list.splits)
  have none: "\<not> uw_has_record w" if "us_find_record v = None" "w \<in> set (us_wires v)" for v w
    using that by (auto simp: us_find_record_def filter_empty_conv in_set_conv_nth split: list.splits)
  show ?thesis
  proof (cases "us_find_record u")
    case (Some i)
    then show ?thesis using some by simp
  next
    case None
    define v where "v = (case env of [] \<Rightarrow> u\<lparr>us_wait_for_record := True\<rparr>
                       | server # _ \<Rightarrow> server (u\<lparr>us_wait_for_record := True\<rparr>))"
    have "us_active_wire env u =
        (case us_find_record v of
           Some i \<Rightarrow> (v\<lparr>us_wait_for_record := False\<rparr>, Inr (Some i))
         | None \<Rightarrow> if us_eor v then (v\<lparr>us_wait_for_record := False\<rparr>, Inr None)
             else (v\<lparr>us_wait_for_record := False\<rparr>, Inl (runtime_error reason_connection_timeout
                 ''record has not been received within the specified time'')))"
      unfolding us_active_wire.simps [of env u] None option.case Let_def v_def [symmetric] us_is_eor_def
      by (rule refl)
    then show ?thesis
      using some [of v] none [of v] by (cases "us_find_record v") (auto simp: list_all_iff)
  qed
qed

end
