(* ===== verification/Resultset_Client.thy ===== *)
theory Resultset_Client
  imports Resultset_Wires
begin

section \<open>The client's side of a result set\<close>

text \<open>
  \<open>resultset_wires_container\<close> of \<^verbatim>\<open>src/tateyama/transport/client_wire.h\<close>: the client takes a record from whichever wire
  of the result set has one, and disposes of it before it asks for the next.
\<close>

record resultset_client =
  rc_wires :: resultset_wires
  rc_current :: "nat option"
  rc_wrap_around :: "byte list"

definition rc_connect :: "(string \<rightharpoonup> resultset_wires) \<Rightarrow> string \<Rightarrow> resultset_client result" where
  "rc_connect shm name =
     (case shm name of
        None \<Rightarrow> Inl (runtime_error reason_connection_failure
                        (''cannot find a result_set wire with the specified name: '' @ name))
      | Some u \<Rightarrow> Inr \<lparr>rc_wires = u, rc_current = None, rc_wrap_around = []\<rparr>)"

text \<open>A chunk: the bytes of the record, the null view, or a view that leaves the buffer of its wire.\<close>

datatype chunk = Chunk "byte list" | Chunk_null | Chunk_outside | Chunk_error runtime_error

definition rc_chunk_of :: "nat \<Rightarrow> resultset_client \<Rightarrow> resultset_client \<times> chunk" where
  "rc_chunk_of i rc =
     (case uw_get_chunk (us_wires (rc_wires rc) ! i) of
        (v, ext, w) \<Rightarrow>
          (let rc = rc\<lparr>rc_wires := (rc_wires rc)\<lparr>us_wires := (us_wires (rc_wires rc))[i := w]\<rparr>\<rparr>
           in case ext of
                None \<Rightarrow> (rc, case view_bytes w v of None \<Rightarrow> Chunk_outside | Some rtnv \<Rightarrow> Chunk rtnv)
              | Some e \<Rightarrow>
                  (case (view_bytes w v, view_bytes w e) of
                     (Some rtnv, Some extrusion) \<Rightarrow>
                       if extrusion = [] then (rc, Chunk rtnv)
                       else (rc\<lparr>rc_wrap_around := rtnv @ extrusion\<rparr>, Chunk (rtnv @ extrusion))
                   | _ \<Rightarrow> (rc, Chunk_outside))))"

text \<open>Each element of the list is one turn of the loop: what the server does while \<open>active_wire\<close> waits, and what
  \<open>is_alive\<close> answers when it throws.  \<open>None\<close>: the turns are used up.\<close>

fun rc_get_chunk ::
    "((resultset_wires \<Rightarrow> resultset_wires) list \<times> string) list \<Rightarrow> resultset_client \<Rightarrow> (resultset_client \<times> chunk) option" where
  "rc_get_chunk [] rc = None"
| "rc_get_chunk ((env, err) # turns) rc =
     (let rc = rc\<lparr>rc_wrap_around := []\<rparr>
      in case rc_current rc of
           Some i \<Rightarrow> Some (rc_chunk_of i rc)
         | None \<Rightarrow>
             (case us_active_wire env (rc_wires rc) of
                (u, Inr (Some i)) \<Rightarrow> Some (rc_chunk_of i (rc\<lparr>rc_wires := u, rc_current := Some i\<rparr>))
              | (u, Inr None) \<Rightarrow> Some (rc\<lparr>rc_wires := u\<rparr>, Chunk_null)
              | (u, Inl ex) \<Rightarrow>
                  if err = [] then rc_get_chunk turns (rc\<lparr>rc_wires := u\<rparr>)
                  else Some (rc\<lparr>rc_wires := u\<rparr>, Chunk_error ex)))"

text \<open>\<open>None\<close> is \<open>std::abort()\<close>.\<close>

definition rc_dispose :: "resultset_client \<Rightarrow> resultset_client option" where
  "rc_dispose rc =
     (case rc_current rc of
        None \<Rightarrow> None
      | Some i \<Rightarrow>
          Some (rc\<lparr>rc_wires := (rc_wires rc)\<lparr>us_wires := (us_wires (rc_wires rc))[i := uw_dispose (us_wires (rc_wires rc) ! i)]\<rparr>,
                   rc_current := None\<rparr>))"

definition rc_is_eor :: "resultset_client \<Rightarrow> bool" where
  "rc_is_eor rc = us_is_eor (rc_wires rc)"

definition rc_set_closed :: "resultset_client \<Rightarrow> resultset_client" where
  "rc_set_closed rc = rc\<lparr>rc_wires := us_set_closed (rc_wires rc)\<rparr>"

text \<open>Reading a result set to its end: the turns of each \<open>get_chunk\<close> are one wait in which the server does nothing.\<close>

fun rc_read_all :: "nat \<Rightarrow> resultset_client \<Rightarrow> byte list list option" where
  "rc_read_all 0 rc = None"
| "rc_read_all (Suc fuel) rc =
     (case rc_get_chunk [([], [])] rc of
        Some (rc, Chunk bs) \<Rightarrow>
          (case rc_dispose rc of
             None \<Rightarrow> None
           | Some rc \<Rightarrow> map_option (\<lambda>rest. bs # rest) (rc_read_all fuel rc))
      | Some (rc, Chunk_null) \<Rightarrow> Some []
      | _ \<Rightarrow> None)"

section \<open>Lemmas\<close>

definition holds_records :: "(byte list list \<times> byte list option) list \<Rightarrow> resultset_wires \<Rightarrow> bool" where
  "holds_records rss u \<longleftrightarrow> list_all2 (\<lambda>(recs, part) w. uw_abs recs part w) rss (us_wires u)"

lemma holds_recordsD:
  "holds_records rss u \<Longrightarrow> i < length rss \<Longrightarrow> uw_abs (fst (rss ! i)) (snd (rss ! i)) (us_wires u ! i)"
  "holds_records rss u \<Longrightarrow> length (us_wires u) = length rss"
  by (auto simp: holds_records_def split_beta dest: list_all2_nthD list_all2_lengthD)

lemma holds_records_update:
  assumes "holds_records rss u" "uw_abs recs part w"
  shows "holds_records (rss[i := (recs, part)]) (u\<lparr>us_wires := (us_wires u)[i := w]\<rparr>)"
  using assms by (auto simp: holds_records_def intro!: list_all2_update_cong)

lemma find_record_first:
  assumes "holds_records rss u" "us_find_record u = Some i"
  shows "i < length rss" and "fst (rss ! i) \<noteq> []" and "\<And>j. j < i \<Longrightarrow> fst (rss ! j) = []"
proof -
  note D = holds_recordsD [OF assms(1)]
  obtain rest where f: "filter (\<lambda>i. uw_has_record (us_wires u ! i)) [0..<length rss] = i # rest"
    using assms(2) D(2) by (auto simp: us_find_record_def split: list.splits)
  then have i: "i \<in> set (filter (\<lambda>i. uw_has_record (us_wires u ! i)) [0..<length rss])" by simp
  then show len: "i < length rss" and "fst (rss ! i) \<noteq> []"
    using uw_has_record_iff [OF D(1)] by auto
  show "fst (rss ! j) = []" if "j < i" for j
  proof (rule ccontr)
    assume "fst (rss ! j) \<noteq> []"
    then have "uw_has_record (us_wires u ! j)" using uw_has_record_iff [OF D(1), of j] that len by simp
    then have "j \<in> set (i # rest)" using f that len by (metis (mono_tags, lifting) mem_Collect_eq set_filter atLeastLessThan_iff set_upt less_trans zero_le)
    moreover have "sorted (i # rest)" using f by (metis sorted_wrt_filter sorted_upt)
    ultimately show False using that by auto
  qed
qed

lemma find_record_none: "holds_records rss u \<Longrightarrow> us_find_record u = None \<Longrightarrow> concat (map fst rss) = []"
proof -
  assume h: "holds_records rss u" and "us_find_record u = None"
  then have "\<not> uw_has_record (us_wires u ! i)" if "i < length rss" for i
    using that holds_recordsD(2) [OF h] by (auto simp: us_find_record_def filter_empty_conv split: list.splits)
  then have "fst (rss ! i) = []" if "i < length rss" for i
    using that uw_has_record_iff [OF holds_recordsD(1) [OF h that]] by blast
  then show ?thesis by (fastforce simp: in_set_conv_nth)
qed

lemma concat_first:
  assumes "i < length rss" "fst (rss ! i) = r # recs" "\<And>j. j < i \<Longrightarrow> fst (rss ! j) = []"
  shows "concat (map fst rss) = r # concat (map fst (rss[i := (recs, p)]))"
  using assms
proof (induction rss arbitrary: i)
  case (Cons x xs)
  show ?case
  proof (cases i)
    case 0
    then show ?thesis using Cons.prems by simp
  next
    case (Suc k)
    have "fst x = []" using Cons.prems(3) [of 0] Suc by simp
    moreover have "fst (xs ! j) = []" if "j < k" for j using Cons.prems(3) [of "Suc j"] Suc that by simp
    ultimately show ?thesis using Cons.IH [of k] Cons.prems Suc by simp
  qed
qed simp

lemma chunk_of_front:
  assumes h: "holds_records rss (rc_wires rc)" and i: "i < length rss" and front: "fst (rss ! i) = r # recs"
  shows "\<exists>rc'. rc_chunk_of i rc = (rc', Chunk r) \<and> holds_records rss (rc_wires rc') \<and> rc_current rc' = rc_current rc
    \<and> us_eor (rc_wires rc') = us_eor (rc_wires rc)"
proof -
  let ?u = "rc_wires rc" and ?part = "snd (rss ! i)"
  have abs: "uw_abs (r # recs) ?part (us_wires ?u ! i)" using holds_recordsD(1) [OF h i] front by simp
  obtain v v2 w x y where chunk: "uw_get_chunk (us_wires ?u ! i) = (v, v2, w)" and w: "uw_abs (r # recs) ?part w"
    and x: "view_bytes w v = Some x" and y: "case v2 of None \<Rightarrow> y = [] | Some e \<Rightarrow> view_bytes w e = Some y" and r: "r = x @ y"
    using uw_get_chunk_record [OF abs] by blast
  have "rss[i := (r # recs, ?part)] = rss" using front by (metis list_update_id prod.collapse)
  then have h': "holds_records rss (?u\<lparr>us_wires := (us_wires ?u)[i := w]\<rparr>)"
    using holds_records_update [OF h w, of i] by simp
  show ?thesis using h' x y r by (cases v2) (auto simp: rc_chunk_of_def chunk Let_def)
qed

section \<open>Properties\<close>

lemma read_all_records:
  assumes "holds_records rss (rc_wires rc)" "us_eor (rc_wires rc)" "rc_current rc = None"
    "length (concat (map fst rss)) < fuel"
  shows "rc_read_all fuel rc = Some (concat (map fst rss))"
  using assms
proof (induction fuel arbitrary: rss rc)
  case (Suc fuel)
  let ?rc = "rc\<lparr>rc_wrap_around := []\<rparr>" and ?u = "rc_wires rc"
  show ?case
  proof (cases "us_find_record ?u")
    case None
    have "us_find_record (?u\<lparr>us_wait_for_record := True\<rparr>) = None" using None by (simp add: us_find_record_def)
    then have "us_active_wire [] ?u = (?u\<lparr>us_wait_for_record := False\<rparr>, Inr None)"
      using None Suc.prems(2) by (simp add: us_is_eor_def)
    then show ?thesis using find_record_none [OF Suc.prems(1) None] Suc.prems(3) by simp
  next
    case (Some i)
    note first = find_record_first [OF Suc.prems(1) Some]
    obtain r recs where front: "fst (rss ! i) = r # recs" using first(2) by (cases "fst (rss ! i)") auto
    have "holds_records rss (rc_wires (?rc\<lparr>rc_wires := ?u, rc_current := Some i\<rparr>))" using Suc.prems(1) by simp
    from chunk_of_front [OF this first(1) front]
    obtain rc1 where rc1: "rc_chunk_of i (?rc\<lparr>rc_wires := ?u, rc_current := Some i\<rparr>) = (rc1, Chunk r)"
      "holds_records rss (rc_wires rc1)" "rc_current rc1 = Some i" "us_eor (rc_wires rc1)"
      using Suc.prems(2) by auto
    define rc2 where "rc2 = rc1\<lparr>rc_wires := (rc_wires rc1)\<lparr>us_wires := (us_wires (rc_wires rc1))
      [i := uw_dispose (us_wires (rc_wires rc1) ! i)]\<rparr>, rc_current := None\<rparr>"
    have "uw_abs recs (snd (rss ! i)) (uw_dispose (us_wires (rc_wires rc1) ! i))"
      using uw_dispose_record holds_recordsD(1) [OF rc1(2) first(1)] front by simp
    from holds_records_update [OF rc1(2) this, of i]
    have rc2: "holds_records (rss[i := (recs, snd (rss ! i))]) (rc_wires rc2)" "us_eor (rc_wires rc2)" "rc_current rc2 = None"
      using rc1(4) by (simp_all add: rc2_def)
    note all = concat_first [OF first(1) front first(3), of "snd (rss ! i)"]
    have "rc_read_all fuel rc2 = Some (concat (map fst (rss[i := (recs, snd (rss ! i))])))"
      using Suc.IH [OF rc2] Suc.prems(4) all by simp
    moreover have "rc_dispose rc1 = Some rc2" using rc1(3) by (simp add: rc_dispose_def rc2_def)
    ultimately show ?thesis using Some Suc.prems(3) rc1(1) all by simp
  qed
qed simp


text \<open>A result set of two wires, the second with a record.\<close>

definition sample_client :: "resultset_wire \<Rightarrow> resultset_client" where
  "sample_client w =
     \<lparr>rc_wires = sample_wires\<lparr>us_wires := [sample_resultset_wire, w], us_eor := True\<rparr>, rc_current = None, rc_wrap_around = []\<rparr>"


end
