(* ===== verification/Proc_Mutex.thy ===== *)
theory Proc_Mutex
  imports Monitor_Constants
begin

section \<open>The operating system's lock files\<close>

text \<open>
  What \<^verbatim>\<open>src/tateyama/process/proc_mutex.h\<close> uses of POSIX: names in the file system refer to inodes,
  an open file description (named here by its descriptor, unique over all processes) refers to an inode
  whatever becomes of the name, and \<open>flock\<close> attaches the exclusive lock of an inode to one open file
  description until it is unlocked or closed.  A name may also denote something that is not a regular
  file, and opening a name may be denied.
\<close>

type_synonym path = string

datatype entry = Regular nat | Other_kind

record inode =
  in_contents :: string
  in_holder :: "nat option"

record file_system =
  fs_names :: "path \<rightharpoonup> entry"
  fs_inodes :: "nat \<Rightarrow> inode"
  fs_fds :: "nat \<rightharpoonup> nat"
  fs_next_inode :: nat
  fs_next_fd :: nat
  fs_denied :: "path list"

definition new_inode :: inode where
  "new_inode = \<lparr>in_contents = [], in_holder = None\<rparr>"

text \<open>\<open>open(name, O_RDWR)\<close> and \<open>open(name, O_RDWR | O_CREAT, ...)\<close>; \<open>None\<close> for a negative result.\<close>

definition sys_open :: "file_system \<Rightarrow> path \<Rightarrow> file_system \<times> nat option" where
  "sys_open fs p =
     (case fs_names fs p of
        Some (Regular i) \<Rightarrow>
          if p \<in> set (fs_denied fs) then (fs, None)
          else (fs\<lparr>fs_fds := (fs_fds fs)(fs_next_fd fs \<mapsto> i), fs_next_fd := Suc (fs_next_fd fs)\<rparr>,
                Some (fs_next_fd fs))
      | _ \<Rightarrow> (fs, None))"

definition sys_open_create :: "file_system \<Rightarrow> path \<Rightarrow> file_system \<times> nat option" where
  "sys_open_create fs p =
     (case fs_names fs p of
        None \<Rightarrow>
          if p \<in> set (fs_denied fs) then (fs, None)
          else sys_open (fs\<lparr>fs_names := (fs_names fs)(p \<mapsto> Regular (fs_next_inode fs)),
                            fs_inodes := (fs_inodes fs)(fs_next_inode fs := new_inode),
                            fs_next_inode := Suc (fs_next_inode fs)\<rparr>) p
      | Some e \<Rightarrow> sys_open fs p)"

definition sys_inode :: "file_system \<Rightarrow> nat \<Rightarrow> nat option" where
  "sys_inode fs fd = fs_fds fs fd"

definition update_inode :: "file_system \<Rightarrow> nat \<Rightarrow> (inode \<Rightarrow> inode) \<Rightarrow> file_system" where
  "update_inode fs i f = fs\<lparr>fs_inodes := (fs_inodes fs)(i := f (fs_inodes fs i))\<rparr>"

definition sys_ftruncate :: "file_system \<Rightarrow> nat \<Rightarrow> file_system \<times> bool" where
  "sys_ftruncate fs fd =
     (case fs_fds fs fd of
        None \<Rightarrow> (fs, False)
      | Some i \<Rightarrow> (update_inode fs i (\<lambda>n. n\<lparr>in_contents := []\<rparr>), True))"

text \<open>\<open>flock(fd, LOCK_EX | LOCK_NB) == 0\<close>\<close>

definition sys_flock :: "file_system \<Rightarrow> nat \<Rightarrow> file_system \<times> bool" where
  "sys_flock fs fd =
     (case fs_fds fs fd of
        None \<Rightarrow> (fs, False)
      | Some i \<Rightarrow>
          if in_holder (fs_inodes fs i) = None \<or> in_holder (fs_inodes fs i) = Some fd
          then (update_inode fs i (\<lambda>n. n\<lparr>in_holder := Some fd\<rparr>), True)
          else (fs, False))"

definition sys_unlock :: "file_system \<Rightarrow> nat \<Rightarrow> file_system" where
  "sys_unlock fs fd =
     (case fs_fds fs fd of
        None \<Rightarrow> fs
      | Some i \<Rightarrow>
          if in_holder (fs_inodes fs i) = Some fd
          then update_inode fs i (\<lambda>n. n\<lparr>in_holder := None\<rparr>) else fs)"

definition sys_close :: "file_system \<Rightarrow> nat \<Rightarrow> file_system" where
  "sys_close fs fd = (sys_unlock fs fd)\<lparr>fs_fds := (fs_fds fs)(fd := None)\<rparr>"

definition sys_unlink :: "file_system \<Rightarrow> path \<Rightarrow> file_system" where
  "sys_unlink fs p = fs\<lparr>fs_names := (fs_names fs)(p := None)\<rparr>"

text \<open>\<open>write\<close> at offset 0 of the file.\<close>

definition sys_write :: "file_system \<Rightarrow> nat \<Rightarrow> string \<Rightarrow> file_system \<times> bool" where
  "sys_write fs fd s =
     (case fs_fds fs fd of
        None \<Rightarrow> (fs, False)
      | Some i \<Rightarrow>
          (update_inode fs i (\<lambda>n. n\<lparr>in_contents := s @ drop (length s) (in_contents n)\<rparr>), True))"

section \<open>Decimal numbers\<close>

text \<open>\<open>std::to_string\<close> of a non-negative integer.\<close>

definition digit_char :: "nat \<Rightarrow> char" where
  "digit_char d = char_of (48 + d)"

fun to_string :: "nat \<Rightarrow> string" where
  "to_string n = (if n < 10 then [digit_char n] else to_string (n div 10) @ [digit_char (n mod 10)])"

declare to_string.simps [simp del]

definition is_digit :: "char \<Rightarrow> bool" where
  "is_digit c \<longleftrightarrow> 48 \<le> (of_char c :: nat) \<and> (of_char c :: nat) \<le> 57"

definition digit_value :: "char \<Rightarrow> nat" where
  "digit_value c = of_char c - 48"

text \<open>\<open>stoi\<close>: white space, a sign, decimal digits; what follows is ignored.\<close>

datatype stoi_result = Stoi_value int | Stoi_invalid_argument | Stoi_out_of_range

definition digits_value :: "string \<Rightarrow> nat" where
  "digits_value ds = foldl (\<lambda>n c. 10 * n + digit_value c) 0 ds"

definition stoi :: "string \<Rightarrow> stoi_result" where
  "stoi s =
     (let t = dropWhile is_space s;
          negative = (t \<noteq> [] \<and> hd t = CHR ''-'');
          u = (if t \<noteq> [] \<and> (hd t = CHR ''-'' \<or> hd t = CHR ''+'') then tl t else t);
          ds = takeWhile is_digit u;
          v = (if negative then - int (digits_value ds) else int (digits_value ds))
      in if ds = [] then Stoi_invalid_argument
         else if v < - (2 ^ 31) \<or> v > 2 ^ 31 - 1 then Stoi_out_of_range
         else Stoi_value v)"

section \<open>\<open>proc_mutex\<close>\<close>

datatype lock_state = no_file | not_locked | locked | lock_error

fun lock_state_to_string_view :: "lock_state \<Rightarrow> string" where
  "lock_state_to_string_view no_file = ''no_file''"
| "lock_state_to_string_view not_locked = ''not_locked''"
| "lock_state_to_string_view locked = ''locked''"
| "lock_state_to_string_view lock_error = ''error''"

record proc_mutex =
  pm_fd :: "nat option"
  pm_lock_file :: path
  pm_owner :: bool

definition pm_new :: "file_system \<Rightarrow> path \<Rightarrow> bool \<Rightarrow> bool \<Rightarrow> file_system \<times> proc_mutex result" where
  "pm_new fs lock_file create_file throw_exception =
     (case (if create_file then sys_open_create fs lock_file else sys_open fs lock_file) of
        (fs', fd) \<Rightarrow>
          (fs', if fd = None \<and> throw_exception
                then Inl (runtime_error reason_internal
                       (if create_file then ''cannot create brand new lock file''
                        else ''the lock file does not exist''))
                else Inr \<lparr>pm_fd = fd, pm_lock_file = lock_file, pm_owner = False\<rparr>))"

text \<open>The destructor: two system calls, between which other processes may run.\<close>

definition pm_delete_close :: "file_system \<Rightarrow> proc_mutex \<Rightarrow> file_system" where
  "pm_delete_close fs m = (case pm_fd m of None \<Rightarrow> fs | Some fd \<Rightarrow> sys_close fs fd)"

definition pm_delete_unlink :: "file_system \<Rightarrow> proc_mutex \<Rightarrow> file_system" where
  "pm_delete_unlink fs m = (if pm_owner m then sys_unlink fs (pm_lock_file m) else fs)"

definition pm_delete :: "file_system \<Rightarrow> proc_mutex \<Rightarrow> file_system" where
  "pm_delete fs m = pm_delete_unlink (pm_delete_close fs m) m"

definition pm_lock :: "file_system \<Rightarrow> proc_mutex \<Rightarrow> file_system \<times> proc_mutex \<times> unit result" where
  "pm_lock fs m =
     (case pm_fd m of
        None \<Rightarrow> (fs, m, Inl (runtime_error reason_internal ''cannot truncate the lock file''))
      | Some fd \<Rightarrow>
          (case sys_ftruncate fs fd of
             (fs1, False) \<Rightarrow> (fs1, m, Inl (runtime_error reason_internal ''cannot truncate the lock file''))
           | (fs1, True) \<Rightarrow>
               (case sys_flock fs1 fd of
                  (fs2, True) \<Rightarrow> (fs2, m\<lparr>pm_owner := True\<rparr>, Inr ())
                | (fs2, False) \<Rightarrow>
                    (fs2, m, Inl (runtime_error reason_internal ''cannot lock the lock file'')))))"

definition pm_unlock :: "file_system \<Rightarrow> proc_mutex \<Rightarrow> file_system" where
  "pm_unlock fs m = (case pm_fd m of None \<Rightarrow> fs | Some fd \<Rightarrow> sys_unlock fs fd)"

definition pm_fill_contents :: "file_system \<Rightarrow> proc_mutex \<Rightarrow> nat \<Rightarrow> file_system \<times> unit result" where
  "pm_fill_contents fs m pid =
     (case pm_fd m of
        None \<Rightarrow> (fs, Inl (runtime_error reason_internal ''write error''))
      | Some fd \<Rightarrow>
          (case sys_write fs fd (to_string pid) of
             (fs', True) \<Rightarrow> (fs', Inr ())
           | (fs', False) \<Rightarrow> (fs', Inl (runtime_error reason_internal ''write error''))))"

definition pm_name :: "proc_mutex \<Rightarrow> path" where
  "pm_name m = pm_lock_file m"

definition pm_check :: "file_system \<Rightarrow> proc_mutex \<Rightarrow> file_system \<times> proc_mutex \<times> lock_state" where
  "pm_check fs m =
     (case fs_names fs (pm_lock_file m) of
        None \<Rightarrow> (fs, m, no_file)
      | Some Other_kind \<Rightarrow> (fs, m, lock_error)
      | Some (Regular _) \<Rightarrow>
          (case (case pm_fd m of Some fd \<Rightarrow> (fs, Some fd) | None \<Rightarrow> sys_open fs (pm_lock_file m)) of
             (fs1, None) \<Rightarrow> (fs1, m, lock_error)
           | (fs1, Some fd) \<Rightarrow>
               (let m' = m\<lparr>pm_fd := Some fd\<rparr>
                in case sys_flock fs1 fd of
                     (fs2, True) \<Rightarrow> (pm_unlock fs2 m', m', not_locked)
                   | (fs2, False) \<Rightarrow> (fs2, m', locked))))"

text \<open>\<open>contents\<close> reads the file the name refers to: \<open>Some None\<close> when it returns false, \<open>None\<close> when
  \<open>file_size\<close> throws because the name is not, or no longer, a regular file.\<close>

definition pm_contents :: "file_system \<Rightarrow> proc_mutex \<Rightarrow> bool \<Rightarrow> file_system \<times> proc_mutex \<times> string option option" where
  "pm_contents fs m do_check =
     (case (if do_check then pm_check fs m else (fs, m, locked)) of
        (fs', m', st) \<Rightarrow>
          (fs', m',
           if st \<noteq> locked then Some None
           else (case fs_names fs' (pm_lock_file m') of
                   Some (Regular i) \<Rightarrow> Some (Some (in_contents (fs_inodes fs' i)))
                 | _ \<Rightarrow> None)))"

text \<open>\<open>None\<close>: the exception of \<open>file_size\<close>, or \<open>std::out_of_range\<close> of \<open>stoi\<close>, which \<open>pid\<close> does not catch.\<close>

definition pm_pid :: "file_system \<Rightarrow> proc_mutex \<Rightarrow> bool \<Rightarrow> file_system \<times> proc_mutex \<times> int option" where
  "pm_pid fs m do_check =
     (case pm_contents fs m do_check of
        (fs', m', None) \<Rightarrow> (fs', m', None)
      | (fs', m', Some None) \<Rightarrow> (fs', m', Some 0)
      | (fs', m', Some (Some str)) \<Rightarrow>
          (fs', m',
           if str = [] then Some 0
           else (case stoi str of
                   Stoi_value v \<Rightarrow> Some v
                 | Stoi_invalid_argument \<Rightarrow> Some 0
                 | Stoi_out_of_range \<Rightarrow> None)))"

section \<open>\<open>shm_mutex\<close>\<close>

definition lock_file_name :: "string \<Rightarrow> path" where
  "lock_file_name dbname = ''tsurugi-'' @ dbname @ ''.lock''"

text \<open>The constructor: create and lock; when either throws, open the file and lock.  The first attempt
  has moved from \<open>lock_file\<close>: \<open>moved\<close> is the path it is left with.  Replacing the pointer, and leaving the
  constructor by an exception, destroys the first object.\<close>

definition shm_mutex_new :: "file_system \<Rightarrow> path \<Rightarrow> path \<Rightarrow> file_system \<times> proc_mutex result" where
  "shm_mutex_new fs lock_file moved =
     (let retry = (\<lambda>fs destroy. case pm_new fs moved False True of
                          (fs1, Inl e) \<Rightarrow> (destroy fs1, Inl e)
                        | (fs1, Inr m) \<Rightarrow>
                            (case pm_lock (destroy fs1) m of
                               (fs2, m', Inl e) \<Rightarrow> (pm_delete fs2 m', Inl e)
                             | (fs2, m', Inr _) \<Rightarrow> (fs2, Inr m')))
      in case pm_new fs lock_file True True of
           (fs1, Inl e) \<Rightarrow> retry fs1 (\<lambda>fs. fs)
         | (fs1, Inr m) \<Rightarrow>
             (case pm_lock fs1 m of
                (fs2, m', Inr _) \<Rightarrow> (fs2, Inr m')
              | (fs2, m', Inl e) \<Rightarrow> retry fs2 (\<lambda>fs. pm_delete fs m')))"

section \<open>Numbers survive printing and parsing\<close>

lemma of_char_digit: "d < 10 \<Longrightarrow> (of_char (digit_char d) :: nat) = 48 + d"
  by (simp add: digit_char_def)

lemma is_digit_char: "d < 10 \<Longrightarrow> is_digit (digit_char d)"
  by (simp add: is_digit_def of_char_digit)

lemma digit_value_char: "d < 10 \<Longrightarrow> digit_value (digit_char d) = d"
  by (simp add: digit_value_def of_char_digit)

lemma to_string_digits:
  "list_all is_digit (to_string n) \<and> to_string n \<noteq> [] \<and> digits_value (to_string n) = n"
proof (induction n rule: to_string.induct)
  case (1 n)
  show ?case
  proof (cases "n < 10")
    case True
    then show ?thesis
      by (subst (1 2 3) to_string.simps) (simp add: digits_value_def is_digit_char digit_value_char)
  next
    case False
    then show ?thesis
      using 1 by (subst (1 2 3) to_string.simps) (simp add: digits_value_def is_digit_char digit_value_char)
  qed
qed

lemma is_digit_not_space: "is_digit c \<Longrightarrow> \<not> is_space c \<and> c \<noteq> CHR ''-'' \<and> c \<noteq> CHR ''+''"
  by (auto simp: is_digit_def is_space_def)

lemma stoi_to_string:
  assumes "n < 2 ^ 31"
  shows "stoi (to_string n) = Stoi_value (int n)"
proof -
  have d: "list_all is_digit (to_string n)" "to_string n \<noteq> []" "digits_value (to_string n) = n"
    using to_string_digits by simp_all
  then have h: "is_digit (hd (to_string n))" by (cases "to_string n") auto
  then have drop: "dropWhile is_space (to_string n) = to_string n"
    using is_digit_not_space d(2) by (cases "to_string n") auto
  have take: "takeWhile is_digit (to_string n) = to_string n"
    using d(1) by (simp add: takeWhile_eq_all_conv list_all_iff)
  show ?thesis
    using is_digit_not_space [OF h] d assms by (simp add: stoi_def drop take Let_def)
qed

section \<open>Mutual exclusion\<close>

text \<open>Processes that construct mutex objects, lock, check, write their pid, and destroy objects that do not
  own the lock.  \<open>ms\<close> maps object names to objects.\<close>

inductive pm_step :: "file_system \<times> (nat \<rightharpoonup> proc_mutex) \<Rightarrow> file_system \<times> (nat \<rightharpoonup> proc_mutex) \<Rightarrow> bool" where
  new: "ms k = None \<Longrightarrow> pm_new fs p create throw = (fs', Inr m) \<Longrightarrow> pm_step (fs, ms) (fs', ms(k \<mapsto> m))"
| new_failed: "pm_new fs p create throw = (fs', Inl e) \<Longrightarrow> pm_step (fs, ms) (fs', ms)"
| lock: "ms k = Some m \<Longrightarrow> pm_lock fs m = (fs', m', r) \<Longrightarrow> pm_step (fs, ms) (fs', ms(k \<mapsto> m'))"
| check: "ms k = Some m \<Longrightarrow> \<not> pm_owner m \<Longrightarrow> pm_check fs m = (fs', m', st) \<Longrightarrow> pm_step (fs, ms) (fs', ms(k \<mapsto> m'))"
| fill: "ms k = Some m \<Longrightarrow> pm_fill_contents fs m pid = (fs', r) \<Longrightarrow> pm_step (fs, ms) (fs', ms)"
| delete: "ms k = Some m \<Longrightarrow> \<not> pm_owner m \<Longrightarrow> pm_step (fs, ms) (pm_delete fs m, ms(k := None))"

inductive pm_reach :: "file_system \<Rightarrow> file_system \<times> (nat \<rightharpoonup> proc_mutex) \<Rightarrow> bool" for fs0 where
  start: "pm_reach fs0 (fs0, Map.empty)"
| step: "pm_reach fs0 s \<Longrightarrow> pm_step s t \<Longrightarrow> pm_reach fs0 t"

definition fs_ok :: "file_system \<Rightarrow> bool" where
  "fs_ok fs \<longleftrightarrow> (\<forall>p i. fs_names fs p = Some (Regular i) \<longrightarrow> i < fs_next_inode fs) \<and>
     (\<forall>fd i. fs_fds fs fd = Some i \<longrightarrow> fd < fs_next_fd fs)"

definition pm_ok :: "file_system \<Rightarrow> proc_mutex \<Rightarrow> bool" where
  "pm_ok fs m \<longleftrightarrow>
     (case pm_fd m of
        None \<Rightarrow> \<not> pm_owner m
      | Some fd \<Rightarrow>
          (\<exists>i. fs_fds fs fd = Some i \<and> fs_names fs (pm_lock_file m) = Some (Regular i) \<and>
               (pm_owner m \<longrightarrow> in_holder (fs_inodes fs i) = Some fd)))"

definition pm_inv :: "file_system \<times> (nat \<rightharpoonup> proc_mutex) \<Rightarrow> bool" where
  "pm_inv s = (case s of (fs, ms) \<Rightarrow>
     fs_ok fs \<and> (\<forall>k m. ms k = Some m \<longrightarrow> pm_ok fs m) \<and>
     (\<forall>j k m n fd. ms j = Some m \<and> ms k = Some n \<and> pm_fd m = Some fd \<and> pm_fd n = Some fd \<longrightarrow> j = k))"

lemma pm_inv_parts:
  assumes "pm_inv (fs, ms)"
  shows "fs_ok fs" "\<And>k m. ms k = Some m \<Longrightarrow> pm_ok fs m"
    "\<And>j k m n fd. ms j = Some m \<Longrightarrow> ms k = Some n \<Longrightarrow> pm_fd m = Some fd \<Longrightarrow> pm_fd n = Some fd \<Longrightarrow> j = k"
  using assms by (auto simp: pm_inv_def)

text \<open>How the system calls move the objects' invariant: it depends on the names, the descriptors and the
  lock holders only.\<close>

lemma pm_ok_cong:
  assumes "pm_ok fs m"
    and "\<And>fd i. pm_fd m = Some fd \<Longrightarrow> fs_fds fs fd = Some i \<Longrightarrow>
           fs_fds fs' fd = Some i \<and> (in_holder (fs_inodes fs i) = Some fd \<longrightarrow> in_holder (fs_inodes fs' i) = Some fd)"
    and "\<And>i. fs_names fs (pm_lock_file m) = Some (Regular i) \<Longrightarrow> fs_names fs' (pm_lock_file m) = Some (Regular i)"
  shows "pm_ok fs' m"
  using assms by (auto simp: pm_ok_def split: option.splits)

lemma sys_open_spec:
  assumes "sys_open fs p = (fs', fd)" "fs_ok fs"
  shows "fs_ok fs' \<and> fs_names fs' = fs_names fs \<and> fs_inodes fs' = fs_inodes fs \<and>
    (\<forall>d i. fs_fds fs d = Some i \<longrightarrow> fs_fds fs' d = Some i) \<and>
    (\<forall>d. fd = Some d \<longrightarrow> fs_fds fs d = None \<and> (\<exists>i. fs_fds fs' d = Some i \<and> fs_names fs p = Some (Regular i)))"
proof -
  have "fs_fds fs (fs_next_fd fs) = None" using assms(2) by (auto simp: fs_ok_def)
  then show ?thesis
    using assms by (auto simp: sys_open_def fs_ok_def less_Suc_eq split: option.splits entry.splits if_splits)
qed

lemma sys_open_create_spec:
  assumes "sys_open_create fs p = (fs', fd)" "fs_ok fs"
  shows "fs_ok fs' \<and> (\<forall>q i. fs_names fs q = Some (Regular i) \<longrightarrow> fs_names fs' q = Some (Regular i)) \<and>
    (\<forall>i < fs_next_inode fs. in_holder (fs_inodes fs' i) = in_holder (fs_inodes fs i)) \<and>
    (\<forall>d i. fs_fds fs d = Some i \<longrightarrow> fs_fds fs' d = Some i) \<and>
    (\<forall>d. fd = Some d \<longrightarrow> fs_fds fs d = None \<and> (\<exists>i. fs_fds fs' d = Some i \<and> fs_names fs' p = Some (Regular i)))"
proof (cases "fs_names fs p")
  case (Some e)
  then show ?thesis using assms sys_open_spec [of fs p fs' fd] by (simp add: sys_open_create_def)
next
  case None
  let ?fs = "fs\<lparr>fs_names := (fs_names fs)(p \<mapsto> Regular (fs_next_inode fs)),
      fs_inodes := (fs_inodes fs)(fs_next_inode fs := new_inode), fs_next_inode := Suc (fs_next_inode fs)\<rparr>"
  have ok: "fs_ok ?fs" using assms(2) by (auto simp: fs_ok_def less_Suc_eq)
  show ?thesis
  proof (cases "p \<in> set (fs_denied fs)")
    case True
    then show ?thesis using assms None by (simp add: sys_open_create_def)
  next
    case False
    then have "sys_open ?fs p = (fs', fd)" using assms(1) None by (simp add: sys_open_create_def)
    note sp = sys_open_spec [OF this ok]
    then have eqs: "fs_names fs' = (fs_names fs)(p \<mapsto> Regular (fs_next_inode fs))"
        "fs_inodes fs' = (fs_inodes fs)(fs_next_inode fs := new_inode)"
      by simp_all
    have "\<forall>q i. fs_names fs q = Some (Regular i) \<longrightarrow> fs_names fs' q = Some (Regular i)"
      using None by (simp add: eqs)
    moreover have "\<forall>i < fs_next_inode fs. in_holder (fs_inodes fs' i) = in_holder (fs_inodes fs i)"
      by (simp add: eqs)
    moreover have "fs_names ?fs p = fs_names fs' p" by (simp add: eqs)
    ultimately show ?thesis using sp by simp
  qed
qed

lemma pm_new_inv:
  assumes inv: "pm_inv (fs, ms)" and new: "pm_new fs p create throw = (fs', r)"
  shows "pm_inv (fs', ms)" "r = Inr m \<Longrightarrow> ms k = None \<Longrightarrow> pm_inv (fs', ms(k \<mapsto> m))"
proof -
  note p = pm_inv_parts [OF inv]
  obtain fd where fd: "(if create then sys_open_create fs p else sys_open fs p) = (fs', fd)"
    using new by (auto simp: pm_new_def split: prod.splits)
  have spec: "fs_ok fs' \<and> (\<forall>q i. fs_names fs q = Some (Regular i) \<longrightarrow> fs_names fs' q = Some (Regular i)) \<and>
    (\<forall>i < fs_next_inode fs. in_holder (fs_inodes fs' i) = in_holder (fs_inodes fs i)) \<and>
    (\<forall>d i. fs_fds fs d = Some i \<longrightarrow> fs_fds fs' d = Some i) \<and>
    (\<forall>d. fd = Some d \<longrightarrow> fs_fds fs d = None \<and> (\<exists>i. fs_fds fs' d = Some i \<and> fs_names fs' p = Some (Regular i)))"
    using fd sys_open_create_spec [OF _ p(1)] sys_open_spec [OF _ p(1)] by (cases create) auto
  have ok: "pm_ok fs' n" if "ms j = Some n" for j n
  proof (rule pm_ok_cong [OF p(2) [OF that]])
    fix d i
    assume d: "pm_fd n = Some d" "fs_fds fs d = Some i"
    then have "i < fs_next_inode fs"
      using p(2) [OF that] p(1) by (auto simp: pm_ok_def fs_ok_def)
    then show "fs_fds fs' d = Some i \<and>
        (in_holder (fs_inodes fs i) = Some d \<longrightarrow> in_holder (fs_inodes fs' i) = Some d)"
      using spec d(2) by simp
  qed (use spec in blast)
  have dist: "j = k'" if "ms j = Some m'" "ms k' = Some n" "pm_fd m' = Some d" "pm_fd n = Some d" for j k' m' n d
    using p(3) that by blast
  show "pm_inv (fs', ms)" using spec ok dist unfolding pm_inv_def by blast
  assume m: "r = Inr m" "ms k = None"
  then have m': "m = \<lparr>pm_fd = fd, pm_lock_file = p, pm_owner = False\<rparr>"
    using new fd by (auto simp: pm_new_def split: prod.splits if_splits)
  have "pm_ok fs' m" using spec by (auto simp: m' pm_ok_def split: option.splits)
  moreover have "pm_fd n \<noteq> Some d" if "ms j = Some n" "fd = Some d" for j n d
    using p(2) [OF that(1)] spec that(2) by (auto simp: pm_ok_def split: option.splits)
  ultimately show "pm_inv (fs', ms(k \<mapsto> m))"
    using spec ok dist by (auto simp: pm_inv_def m')
qed

lemma update_inode_simps [simp]:
  "fs_names (update_inode fs i f) = fs_names fs" "fs_fds (update_inode fs i f) = fs_fds fs"
  "fs_next_fd (update_inode fs i f) = fs_next_fd fs" "fs_next_inode (update_inode fs i f) = fs_next_inode fs"
  "fs_inodes (update_inode fs i f) j = (if j = i then f (fs_inodes fs i) else fs_inodes fs j)"
  "fs_denied (update_inode fs i f) = fs_denied fs"
  by (simp_all add: update_inode_def)

lemma fs_ok_update [simp]: "fs_ok (update_inode fs i f) = fs_ok fs"
  by (simp add: fs_ok_def)

text \<open>Changing one object \<open>k\<close> of the map.\<close>

lemma pm_inv_update:
  assumes inv: "pm_inv (fs, ms)" and k: "ms k = Some m" and fs: "fs_ok fs'" "pm_ok fs' m'"
    and others: "\<And>j n. j \<noteq> k \<Longrightarrow> ms j = Some n \<Longrightarrow> pm_ok fs' n"
    and fd: "\<And>j n d. j \<noteq> k \<Longrightarrow> ms j = Some n \<Longrightarrow> pm_fd n = Some d \<Longrightarrow> pm_fd m' \<noteq> Some d"
  shows "pm_inv (fs', ms(k \<mapsto> m'))"
  unfolding pm_inv_def prod.case
proof (intro conjI allI impI)
  show "fs_ok fs'" by (rule fs(1))
  show "pm_ok fs' n" if "(ms(k \<mapsto> m')) j = Some n" for j n
    using that fs(2) others by (cases "j = k") auto
  fix j l a b d
  assume *: "(ms(k \<mapsto> m')) j = Some a \<and> (ms(k \<mapsto> m')) l = Some b \<and> pm_fd a = Some d \<and> pm_fd b = Some d"
  show "j = l"
  proof (cases "j = k \<or> l = k")
    case True
    then show ?thesis
      using * fd [of j a d] fd [of l b d] by (cases "j = l") (auto split: if_splits)
  next
    case False
    then show ?thesis using * pm_inv_parts(3) [OF inv, of j a l b d] by simp
  qed
qed

lemma pm_lock_inv:
  assumes inv: "pm_inv (fs, ms)" and k: "ms k = Some m" and lk: "pm_lock fs m = (fs', m', r)"
  shows "pm_inv (fs', ms(k \<mapsto> m'))"
proof (cases "pm_fd m")
  case None
  then have "fs' = fs" "m' = m" using lk by (auto simp: pm_lock_def)
  then show ?thesis using inv k by (simp add: fun_upd_idem)
next
  case (Some fd)
  note p = pm_inv_parts [OF inv]
  obtain i where i: "fs_fds fs fd = Some i" "fs_names fs (pm_lock_file m) = Some (Regular i)"
      "pm_owner m \<longrightarrow> in_holder (fs_inodes fs i) = Some fd"
    using p(2) [OF k] Some by (auto simp: pm_ok_def)
  let ?f = "\<lambda>n. n\<lparr>in_contents := []\<rparr>"
  let ?free = "in_holder (fs_inodes fs i) = None \<or> in_holder (fs_inodes fs i) = Some fd"
  have cases: "(if ?free then fs' = update_inode (update_inode fs i ?f) i (\<lambda>n. n\<lparr>in_holder := Some fd\<rparr>) \<and>
        m' = m\<lparr>pm_owner := True\<rparr> else fs' = update_inode fs i ?f \<and> m' = m)"
    using lk Some i by (auto simp: pm_lock_def sys_ftruncate_def sys_flock_def split: if_splits)
  then have fsok: "fs_ok fs'" using p(1) by (auto split: if_splits)
  show ?thesis
  proof (rule pm_inv_update [OF inv k fsok])
    show "pm_ok fs' m'" using cases i Some by (auto simp: pm_ok_def split: if_splits)
    show "pm_ok fs' n" if "j \<noteq> k" "ms j = Some n" for j n
    proof (rule pm_ok_cong [OF p(2) [OF that(2)]])
      fix d l
      assume d: "pm_fd n = Some d" "fs_fds fs d = Some l"
      then have "d \<noteq> fd" using p(3) [OF that(2) k] Some that(1) by auto
      then show "fs_fds fs' d = Some l \<and>
          (in_holder (fs_inodes fs l) = Some d \<longrightarrow> in_holder (fs_inodes fs' l) = Some d)"
        using cases d by (auto split: if_splits)
    qed (use cases in \<open>auto split: if_splits\<close>)
    show "pm_fd m' \<noteq> Some d" if "j \<noteq> k" "ms j = Some n" "pm_fd n = Some d" for j n d
      using p(3) [OF that(2) k] that Some cases by (auto split: if_splits)
  qed
qed

text \<open>\<open>check\<close> opens the file unless it is open, and takes and releases a lock that is free.\<close>

lemma pm_check_open_inv:
  assumes inv: "pm_inv (fs, ms)" and k: "ms k = Some m" and own: "\<not> pm_owner m"
    and op: "(case pm_fd m of Some fd \<Rightarrow> (fs, Some fd) | None \<Rightarrow> sys_open fs (pm_lock_file m)) = (fs1, Some d)"
  shows "pm_inv (fs1, ms(k \<mapsto> m\<lparr>pm_fd := Some d\<rparr>)) \<and> (\<exists>i. fs_fds fs1 d = Some i)"
proof (cases "pm_fd m")
  case (Some e)
  note p = pm_inv_parts [OF inv]
  have "fs1 = fs" "d = e" using op Some by simp_all
  moreover have "m\<lparr>pm_fd := Some d\<rparr> = m" using Some \<open>d = e\<close> by (cases m) simp
  ultimately show ?thesis using Some inv k p(2) [OF k] by (auto simp: pm_ok_def fun_upd_idem)
next
  case None
  note p = pm_inv_parts [OF inv]
  let ?m = "m\<lparr>pm_fd := Some d\<rparr>"
  have so: "sys_open fs (pm_lock_file m) = (fs1, Some d)" using op None by simp
  note sp = sys_open_spec [OF so p(1)]
  have "pm_inv (fs1, ms(k \<mapsto> ?m))"
  proof (rule pm_inv_update [OF inv k])
    show "pm_ok fs1 ?m" using sp own by (auto simp: pm_ok_def)
    show "pm_ok fs1 n" if "ms j = Some n" for j n
      by (rule pm_ok_cong [OF p(2) [OF that]]) (use sp in auto)
    show "pm_fd ?m \<noteq> Some e" if "ms j = Some n" "pm_fd n = Some e" for j n e
      using p(2) [OF that(1)] that(2) sp by (auto simp: pm_ok_def)
  qed (use sp in simp)
  then show ?thesis using sp by auto
qed

lemma pm_check_probe_inv:
  assumes inv: "pm_inv (fs, ms)" and k: "ms k = Some m" and own: "\<not> pm_owner m"
    and d: "pm_fd m = Some d" and free: "in_holder (fs_inodes fs i) = None \<or> in_holder (fs_inodes fs i) = Some d"
  shows "pm_inv (update_inode (update_inode fs i (\<lambda>n. n\<lparr>in_holder := Some d\<rparr>)) i (\<lambda>n. n\<lparr>in_holder := None\<rparr>), ms)"
    (is "pm_inv (?fs, ms)")
proof -
  note q = pm_inv_parts [OF inv]
  have "pm_inv (?fs, ms(k \<mapsto> m))"
  proof (rule pm_inv_update [OF inv k])
    show "pm_ok ?fs m" using q(2) [OF k] own by (auto simp: pm_ok_def d)
    show "pm_ok ?fs n" if "j \<noteq> k" "ms j = Some n" for j n
    proof (rule pm_ok_cong [OF q(2) [OF that(2)]])
      fix e l
      assume e: "pm_fd n = Some e" "fs_fds fs e = Some l"
      have "e \<noteq> d" using q(3) [OF that(2) k] e d that(1) by auto
      then show "fs_fds ?fs e = Some l \<and>
          (in_holder (fs_inodes fs l) = Some e \<longrightarrow> in_holder (fs_inodes ?fs l) = Some e)"
        using e free by auto
    qed simp
    show "pm_fd m \<noteq> Some e" if "j \<noteq> k" "ms j = Some n" "pm_fd n = Some e" for j n e
      using q(3) [OF that(2) k] that d by auto
  qed (use q(1) in simp)
  then show ?thesis using k by (simp add: fun_upd_idem)
qed

lemma pm_check_inv:
  assumes inv: "pm_inv (fs, ms)" and k: "ms k = Some m" and own: "\<not> pm_owner m"
    and ck: "pm_check fs m = (fs', m', st)"
  shows "pm_inv (fs', ms(k \<mapsto> m'))"
proof -
  obtain fs1 fd where op: "(case pm_fd m of Some fd \<Rightarrow> (fs, Some fd) | None \<Rightarrow> sys_open fs (pm_lock_file m)) = (fs1, fd)"
    by (cases "case pm_fd m of Some fd \<Rightarrow> (fs, Some fd) | None \<Rightarrow> sys_open fs (pm_lock_file m)")
  show ?thesis
  proof (cases "(\<exists>i. fs_names fs (pm_lock_file m) = Some (Regular i)) \<and> fd \<noteq> None")
    case False
    have "fs1 = fs" if "fd = None"
      using op that by (auto simp: sys_open_def split: option.splits entry.splits if_splits)
    then have "fs' = fs" "m' = m"
      using ck op False by (auto simp: pm_check_def split: option.splits entry.splits)
    then show ?thesis using inv k by (simp add: fun_upd_idem)
  next
    case True
    then obtain d where d: "fd = Some d" by blast
    define m1 where "m1 = m\<lparr>pm_fd := Some d\<rparr>"
    obtain i where opened: "pm_inv (fs1, ms(k \<mapsto> m1))" "fs_fds fs1 d = Some i"
      using pm_check_open_inv [OF inv k own] op d by (auto simp: m1_def)
    have m': "m' = m1"
      using ck op d True by (auto simp: pm_check_def m1_def Let_def split: option.splits entry.splits prod.splits bool.splits)
    have "fs' = fs1 \<or> fs' = update_inode (update_inode fs1 i (\<lambda>n. n\<lparr>in_holder := Some d\<rparr>)) i (\<lambda>n. n\<lparr>in_holder := None\<rparr>)
        \<and> (in_holder (fs_inodes fs1 i) = None \<or> in_holder (fs_inodes fs1 i) = Some d)"
      using ck op d True opened(2)
      by (auto simp: pm_check_def sys_flock_def pm_unlock_def sys_unlock_def Let_def
          split: option.splits entry.splits prod.splits bool.splits if_splits)
    then show ?thesis
      using opened(1) m' pm_check_probe_inv [OF opened(1), of k m1 d i] own by (auto simp: m1_def)
  qed
qed

lemma pm_fill_inv:
  assumes inv: "pm_inv (fs, ms)" and k: "ms k = Some m" and fill: "pm_fill_contents fs m pid = (fs', r)"
  shows "pm_inv (fs', ms)"
proof -
  note p = pm_inv_parts [OF inv]
  have "fs' = fs \<or> (\<exists>i. fs' = update_inode fs i (\<lambda>n. n\<lparr>in_contents :=
      to_string pid @ drop (length (to_string pid)) (in_contents n)\<rparr>))"
    using fill by (auto simp: pm_fill_contents_def sys_write_def split: option.splits)
  then show ?thesis
  proof
    assume "\<exists>i. fs' = update_inode fs i (\<lambda>n. n\<lparr>in_contents :=
      to_string pid @ drop (length (to_string pid)) (in_contents n)\<rparr>)"
    then obtain i where u: "fs' = update_inode fs i (\<lambda>n. n\<lparr>in_contents :=
      to_string pid @ drop (length (to_string pid)) (in_contents n)\<rparr>)" by blast
    have "pm_ok fs' n" if "ms j = Some n" for j n
      by (rule pm_ok_cong [OF p(2) [OF that]]) (auto simp: u)
    then show ?thesis using p(1,3) unfolding pm_inv_def prod.case by (auto simp: u)
  qed (use inv in simp)
qed

lemma pm_delete_inv:
  assumes inv: "pm_inv (fs, ms)" and k: "ms k = Some m" and own: "\<not> pm_owner m"
  shows "pm_inv (pm_delete fs m, ms(k := None))"
proof (cases "pm_fd m")
  case None
  then have "pm_delete fs m = fs" using own by (simp add: pm_delete_def pm_delete_close_def pm_delete_unlink_def)
  then show ?thesis using inv unfolding pm_inv_def by auto
next
  case (Some fd)
  note p = pm_inv_parts [OF inv]
  obtain i where i: "fs_fds fs fd = Some i" using p(2) [OF k] Some by (auto simp: pm_ok_def)
  have del: "pm_delete fs m = (sys_unlock fs fd)\<lparr>fs_fds := (fs_fds fs)(fd := None)\<rparr>"
    using own Some by (simp add: pm_delete_def pm_delete_close_def pm_delete_unlink_def sys_close_def)
  have "pm_ok (pm_delete fs m) n" if "ms j = Some n" "j \<noteq> k" for j n
  proof (rule pm_ok_cong [OF p(2) [OF that(1)]])
    fix e l
    assume e: "pm_fd n = Some e" "fs_fds fs e = Some l"
    have "e \<noteq> fd" using p(3) [OF that(1) k] e Some that(2) by auto
    then show "fs_fds (pm_delete fs m) e = Some l \<and>
        (in_holder (fs_inodes fs l) = Some e \<longrightarrow> in_holder (fs_inodes (pm_delete fs m) l) = Some e)"
      using e i by (auto simp: del sys_unlock_def)
  qed (auto simp: del sys_unlock_def split: option.splits)
  moreover have "fs_ok (pm_delete fs m)"
    using p(1) i by (auto simp: del fs_ok_def sys_unlock_def split: if_splits)
  ultimately show ?thesis
    using p(3) unfolding pm_inv_def prod.case by (auto split: if_splits)
qed

lemma pm_step_inv: "pm_step s t \<Longrightarrow> pm_inv s \<Longrightarrow> pm_inv t"
proof (induction rule: pm_step.induct)
  case (new ms k fs p create throw fs' m)
  then show ?case using pm_new_inv(2) by blast
next
  case (new_failed fs p create throw fs' e ms)
  then show ?case using pm_new_inv(1) by blast
qed (blast intro: pm_lock_inv pm_check_inv pm_fill_inv pm_delete_inv)+

lemma pm_reach_inv: "pm_reach fs0 s \<Longrightarrow> fs_ok fs0 \<Longrightarrow> pm_inv s"
proof (induction rule: pm_reach.induct)
  case start
  then show ?case by (simp add: pm_inv_def)
qed (blast intro: pm_step_inv)

section \<open>Properties\<close>


text \<open>An empty file system, and two processes that open the same lock file; the first one locks it.\<close>

definition empty_fs :: file_system where
  "empty_fs = \<lparr>fs_names = Map.empty, fs_inodes = (\<lambda>i. new_inode), fs_fds = Map.empty, fs_next_inode = 0,
     fs_next_fd = 3, fs_denied = []\<rparr>"

definition sample_mutex :: "bool \<Rightarrow> nat \<Rightarrow> proc_mutex" where
  "sample_mutex own fd = \<lparr>pm_fd = Some fd, pm_lock_file = ''db.lock'', pm_owner = own\<rparr>"

definition fs_opened :: file_system where
  "fs_opened = fst (pm_new (fst (pm_new empty_fs ''db.lock'' True True)) ''db.lock'' True True)"

definition fs_locked :: file_system where
  "fs_locked = fst (pm_lock fs_opened (sample_mutex False 3))"

lemmas pm_eval = pm_new_def pm_lock_def pm_check_def pm_fill_contents_def pm_pid_def pm_contents_def
  pm_delete_close_def pm_delete_unlink_def pm_unlock_def sys_open_create_def sys_open_def sys_ftruncate_def
  sys_flock_def sys_unlock_def sys_close_def sys_unlink_def sys_write_def update_inode_def new_inode_def
  empty_fs_def sample_mutex_def fs_opened_def fs_locked_def Let_def

lemma fs_locked_reach:
  "pm_reach empty_fs (fs_locked, [0 \<mapsto> sample_mutex True 3, 1 \<mapsto> sample_mutex False 4])"
proof -
  let ?f1 = "fst (pm_new empty_fs ''db.lock'' True True)"
  have 1: "pm_reach empty_fs (?f1, [0 \<mapsto> sample_mutex False 3])"
    by (rule pm_reach.step [OF pm_reach.start],
        rule pm_step.new [where p = "''db.lock''" and create = True and throw = True])
      (simp_all add: pm_eval)
  have 2: "pm_reach empty_fs (fs_opened, [0 \<mapsto> sample_mutex False 3, 1 \<mapsto> sample_mutex False 4])"
    by (rule pm_reach.step [OF 1], rule pm_step.new [where p = "''db.lock''" and create = True and throw = True])
      (simp_all add: pm_eval)
  have "pm_step (fs_opened, [0 \<mapsto> sample_mutex False 3, 1 \<mapsto> sample_mutex False 4])
      (fs_locked, [0 \<mapsto> sample_mutex False 3, 1 \<mapsto> sample_mutex False 4](0 \<mapsto> sample_mutex True 3))"
    by (rule pm_step.lock [where r = "Inr ()" and m = "sample_mutex False 3"]) (simp_all add: pm_eval)
  moreover have "[0::nat \<mapsto> sample_mutex False 3, 1 \<mapsto> sample_mutex False 4](0 \<mapsto> sample_mutex True 3) =
      [0 \<mapsto> sample_mutex True 3, 1 \<mapsto> sample_mutex False 4]"
    by (auto simp: fun_eq_iff)
  ultimately show ?thesis using pm_reach.step [OF 2] by simp
qed


text \<open>A second starter is refused while the lock file is held by another open file, but \<open>lock\<close> truncates
  the file before it tries the lock: the refused attempt erases the pid of the process that holds it.\<close>

theorem refused_lock_erases_pid:
  assumes "pm_fd m = Some fd" "fs_fds fs fd = Some i" "in_holder (fs_inodes fs i) = Some fd'" "fd' \<noteq> fd"
  shows "\<exists>fs'. pm_lock fs m = (fs', m, Inl (runtime_error reason_internal ''cannot lock the lock file'')) \<and>
    in_holder (fs_inodes fs' i) = Some fd' \<and> in_contents (fs_inodes fs' i) = []"
  using assms by (simp add: pm_lock_def sys_ftruncate_def sys_flock_def)

theorem refused_lock_erases_pid_witness:
  "\<exists>fs'. pm_lock fs_locked (sample_mutex False 4) =
     (fs', sample_mutex False 4, Inl (runtime_error reason_internal ''cannot lock the lock file'')) \<and>
     in_contents (fs_inodes fs' 0) = []"
  using refused_lock_erases_pid [of "sample_mutex False 4" 4 fs_locked 0 3] by (simp add: pm_eval)

text \<open>Another process learns the server's pid: after the server has locked its file and written its pid,
  \<open>pid\<close> of a mutex object on the same path, opened by another process, returns that number, and the lock
  stays with the server.\<close>

theorem pid_roundtrip:
  assumes "fs_ok fs" "pm_fd m = Some fd" "fs_fds fs fd = Some i"
    and "fs_names fs p = Some (Regular i)" "p \<notin> set (fs_denied fs)"
    and "in_holder (fs_inodes fs i) = None" "pid < 2 ^ 31"
  defines "fs' \<equiv> fst (pm_fill_contents (fst (pm_lock fs m)) m pid)"
  shows "\<exists>fs'' q. pm_pid fs' \<lparr>pm_fd = None, pm_lock_file = p, pm_owner = False\<rparr> True =
     (fs'', q, Some (int pid)) \<and> in_holder (fs_inodes fs'' i) = Some fd"
proof -
  have fs': "fs' = update_inode (update_inode (update_inode fs i (\<lambda>n. n\<lparr>in_contents := []\<rparr>)) i
      (\<lambda>n. n\<lparr>in_holder := Some fd\<rparr>)) i (\<lambda>n. n\<lparr>in_contents := to_string pid @
        drop (length (to_string pid)) (in_contents n)\<rparr>)"
    using assms(2,3,6) by (simp add: fs'_def pm_lock_def sys_ftruncate_def sys_flock_def pm_fill_contents_def sys_write_def)
  have fd: "fd \<noteq> fs_next_fd fs" using assms(1,3) by (auto simp: fs_ok_def)
  have ne: "to_string pid \<noteq> []" using to_string_digits by blast
  show ?thesis
    using assms(3-6) fd ne stoi_to_string [OF assms(7)]
    by (simp add: fs' pm_pid_def pm_contents_def pm_check_def sys_open_def sys_flock_def Let_def)
qed

theorem pid_roundtrip_witness:
  "\<exists>fs'' q. pm_pid (fst (pm_fill_contents (fst (pm_lock fs_opened (sample_mutex False 3))) (sample_mutex False 3) 4711))
     \<lparr>pm_fd = None, pm_lock_file = ''db.lock'', pm_owner = False\<rparr> True = (fs'', q, Some 4711)"
proof -
  have "fs_ok fs_opened" by (auto simp: fs_ok_def pm_eval)
  from pid_roundtrip [OF this, of "sample_mutex False 3" 3 0 "''db.lock''" 4711] show ?thesis
    by (auto simp: pm_eval)
qed

text \<open>\<open>check\<close> tells whether another process holds the lock and changes no lock: for an object that does not
  hold it, the answer is \<open>no_file\<close> without the file, \<open>error\<close> for a name that is not a regular file,
  \<open>locked\<close> exactly when the file's lock is held, and every inode is as before.\<close>

theorem check_reports_lock:
  assumes "pm_fd m = None" "pm_lock_file m \<notin> set (fs_denied fs)"
    and "\<And>i. in_holder (fs_inodes fs i) \<noteq> Some (fs_next_fd fs)"
  shows "case pm_check fs m of (fs', m', st) \<Rightarrow>
    fs_inodes fs' = fs_inodes fs \<and>
    st = (case fs_names fs (pm_lock_file m) of
            None \<Rightarrow> no_file
          | Some Other_kind \<Rightarrow> lock_error
          | Some (Regular i) \<Rightarrow> if in_holder (fs_inodes fs i) = None then not_locked else locked)"
proof (cases "fs_names fs (pm_lock_file m)")
  case None
  then show ?thesis by (simp add: pm_check_def)
next
  case (Some e)
  show ?thesis
  proof (cases e)
    case Other_kind
    then show ?thesis using Some by (simp add: pm_check_def)
  next
    case (Regular i)
    show ?thesis
      using Some Regular assms(1,2) assms(3) [of i]
      by (auto simp: pm_check_def sys_open_def sys_flock_def pm_unlock_def sys_unlock_def update_inode_def
          Let_def fun_upd_idem)
  qed
qed

theorem check_reports_lock_witness:
  "case pm_check fs_locked \<lparr>pm_fd = None, pm_lock_file = ''db.lock'', pm_owner = False\<rparr> of
     (fs', m', st) \<Rightarrow> fs_inodes fs' = fs_inodes fs_locked \<and> st = locked"
  using check_reports_lock [of "\<lparr>pm_fd = None, pm_lock_file = ''db.lock'', pm_owner = False\<rparr>" fs_locked]
  by (simp add: fs_locked_def fs_opened_def pm_eval)

text \<open>Destroying an owner closes the file, which releases the lock, before it unlinks the name.  A process
  that has opened the file before then locks the unlinked file, and a third process creates and locks a
  new file of the same name: two processes own the lock of one database.\<close>

theorem unlink_race_two_owners:
  "let fs1 = pm_delete_close fs_locked (sample_mutex True 3);
       (fs2, b, rb) = pm_lock fs1 (sample_mutex False 4);
       fs3 = pm_delete_unlink fs2 (sample_mutex True 3);
       (fs4, new) = pm_new fs3 ''db.lock'' True True;
       (fs5, c, rc) = pm_lock fs4 (case new of Inr m \<Rightarrow> m)
   in rb = Inr () \<and> rc = Inr () \<and> pm_owner b \<and> pm_owner c \<and> pm_lock_file b = pm_lock_file c \<and>
      pm_fd b \<noteq> pm_fd c"
  by (simp add: pm_eval)

text \<open>The fallback of \<open>shm_mutex\<close> does not use the lock file: it opens the path it has already moved from.
  When that path is left empty, as no file has an empty name, construction either succeeds at the first
  attempt or ends with the error ``the lock file does not exist'' even though the file exists.\<close>

theorem shm_mutex_fallback:
  assumes "fs_names fs [] = None" "lock_file \<noteq> []"
  shows "snd (shm_mutex_new fs lock_file []) = Inl (runtime_error reason_internal ''the lock file does not exist'') \<or>
    (\<exists>fs1 m fs2 m'. pm_new fs lock_file True True = (fs1, Inr m) \<and> pm_lock fs1 m = (fs2, m', Inr ()) \<and>
       shm_mutex_new fs lock_file [] = (fs2, Inr m'))"
proof -
  have names: "fs_names fs1 [] = None" if "pm_new fs lock_file True True = (fs1, r)" for fs1 r
    using that assms by (auto simp: pm_new_def sys_open_create_def sys_open_def split: option.splits entry.splits if_splits)
  have names2: "fs_names fs2 = fs_names fs1" if "pm_lock fs1 m = (fs2, m', r)" for fs1 fs2 m m' r
    using that by (auto simp: pm_lock_def sys_ftruncate_def sys_flock_def split: option.splits if_splits)
  have retry: "pm_new g [] False True = (g, Inl (runtime_error reason_internal ''the lock file does not exist''))"
    if "fs_names g [] = None" for g
    using that by (simp add: pm_new_def sys_open_def)
  obtain fs1 r where new: "pm_new fs lock_file True True = (fs1, r)" by (cases "pm_new fs lock_file True True")
  show ?thesis
  proof (cases r)
    case (Inl e)
    then show ?thesis using new retry [OF names [OF new]] by (simp add: shm_mutex_new_def)
  next
    case (Inr m)
    obtain fs2 m' lr where lk: "pm_lock fs1 m = (fs2, m', lr)" by (cases "pm_lock fs1 m")
    have "fs_names fs2 [] = None" using names [OF new] names2 [OF lk] by simp
    then show ?thesis
      using new Inr lk retry [of fs2] by (cases lr) (auto simp: shm_mutex_new_def)
  qed
qed

theorem shm_mutex_fallback_witness:
  "snd (shm_mutex_new fs_locked ''db.lock'' []) =
     Inl (runtime_error reason_internal ''the lock file does not exist'')"
proof -
  have "fs_names fs_locked [] = None" by (simp add: pm_eval)
  moreover have "\<not> (\<exists>fs1 m fs2 m'. pm_new fs_locked ''db.lock'' True True = (fs1, Inr m) \<and>
      pm_lock fs1 m = (fs2, m', Inr ()))"
    by (simp add: pm_eval)
  ultimately show ?thesis using shm_mutex_fallback [of fs_locked "''db.lock''"] by blast
qed

end
