(* ===== verification/Monitor_Output.thy ===== *)
theory Monitor_Output
  imports Proc_Mutex
begin

section \<open>\<open>monitor\<close>: the machine-readable log of a command\<close>

text \<open>
  \<^verbatim>\<open>class monitor\<close> of \<^verbatim>\<open>src/tateyama/monitor/monitor.h\<close>, \<^verbatim>\<open>monitor.cpp\<close> and \<^verbatim>\<open>monitor_request.cpp\<close>.  A
  member function writes one line to the stream; here it is a record, and \<open>monitor_line\<close> is the text it
  writes at time \<open>t\<close> (the value of \<open>time(nullptr)\<close>).  Numbers are printed by \<open>to_string\<close>; the text of
  the floating-point argument of \<open>progress\<close> is given.
\<close>

datatype monitor_record =
    M_start
  | M_finish reason
  | M_progress string
  | M_status status
  | M_session_info string string string string string string string
  | M_dbstats_description string
  | M_dbstats string
  | M_config_item string string string
  | M_request_list nat nat nat nat nat
  | M_request_payload string
  | M_request_extract_sql "string option" "string option"

definition line_head :: "nat \<Rightarrow> string" where
  "line_head t = ''{ \"timestamp\": '' @ to_string t @ '', ''"

definition request_list_line :: "nat \<Rightarrow> nat \<Rightarrow> nat \<Rightarrow> nat \<Rightarrow> nat \<Rightarrow> nat \<Rightarrow> string" where
  "request_list_line t session_id request_id service_id payload_size elapsed_time =
     line_head t @ ''\"kind\": \"data\", \"format\": \"request_list\", \"session_id\": '' @ to_string session_id
       @ '', \"request_id\": '' @ to_string request_id @ '', \"service_id\": '' @ to_string service_id
       @ '', \"payload_size\": '' @ to_string payload_size @ '', \"elapsed_time\": '' @ to_string elapsed_time
       @ '' }'' @ [CHR 0x0A]"

definition request_payload_line :: "nat \<Rightarrow> string \<Rightarrow> string" where
  "request_payload_line t data =
     line_head t @ ''\"kind\": \"data\", \"format\": \"request_payload\", \"payload\": \"'' @ data @ ''\" }'' @ [CHR 0x0A]"

definition request_extract_sql_line :: "nat \<Rightarrow> string option \<Rightarrow> string option \<Rightarrow> string" where
  "request_extract_sql_line t transaction_id sql =
     line_head t @ ''\"kind\": \"data\", \"format\": \"request_extract-sql\"''
       @ (case transaction_id of None \<Rightarrow> [] | Some x \<Rightarrow> '', \"transaction_id\": \"'' @ x @ ''\"'')
       @ (case sql of None \<Rightarrow> []
            | Some x \<Rightarrow> '', \"sql\": \"'' @ x @ ''\", \"type\": \"''
                @ type_of_sql_to_string_view (identify_sql_type x) @ ''\"'')
       @ '' }'' @ [CHR 0x0A]"

fun monitor_line :: "nat \<Rightarrow> monitor_record \<Rightarrow> string" where
  "monitor_line t M_start = line_head t @ ''\"kind\": \"start\" }'' @ [CHR 0x0A]"
| "monitor_line t (M_finish rc) =
     (if rc = reason_absent
      then line_head t @ ''\"kind\": \"finish\", \"status\": \"success\" }'' @ [CHR 0x0A]
      else line_head t @ ''\"kind\": \"finish\", \"status\": \"failure\", \"reason\": \"''
             @ reason_to_string_view rc @ ''\" }'' @ [CHR 0x0A])"
| "monitor_line t (M_progress ratio) =
     line_head t @ ''\"kind\": \"progress\", \"progress\": '' @ ratio @ '' }'' @ [CHR 0x0A]"
| "monitor_line t (M_status stat) =
     line_head t @ ''\"kind\": \"data\", \"format\": \"status\", \"status\": \"''
       @ status_to_string_view stat @ ''\" }'' @ [CHR 0x0A]"
| "monitor_line t (M_session_info session_id label application user start_at connection_type connection_info) =
     line_head t @ ''\"kind\": \"data\", \"format\": \"session-info\", \"session_id\": '' @ ''\":'' @ session_id
       @ ''\" , \"label\": \"'' @ label @ ''\", \"application\": \"'' @ application @ ''\", \"user\": \"'' @ user
       @ ''\", \"start_at\": \"'' @ start_at @ ''\", \"connection_type\": \"'' @ connection_type
       @ ''\", \"connection_info\": \"'' @ connection_info @ ''\" }'' @ [CHR 0x0A]"
| "monitor_line t (M_dbstats_description data) =
     line_head t @ ''\"kind\": \"data\", \"format\": \"dbstats_description\", \"metrics\": \"'' @ data
       @ ''\" }'' @ [CHR 0x0A]"
| "monitor_line t (M_dbstats data) =
     line_head t @ ''\"kind\": \"data\", \"format\": \"dbstats\", \"metrics\": \"'' @ data @ ''\" }'' @ [CHR 0x0A]"
| "monitor_line t (M_config_item sec key val) =
     line_head t @ ''\"kind\": \"data\", \"format\": \"config\", \"section\": \"'' @ sec @ ''\", \"key\": \"'' @ key
       @ ''\", \"value\": \"'' @ val @ ''\" }'' @ [CHR 0x0A]"
| "monitor_line t (M_request_list session_id request_id service_id payload_size elapsed_time) =
     request_list_line t session_id request_id service_id payload_size elapsed_time"
| "monitor_line t (M_request_payload data) = request_payload_line t data"
| "monitor_line t (M_request_extract_sql transaction_id sql) = request_extract_sql_line t transaction_id sql"

text \<open>A command that monitors itself writes one \<open>start\<close>, data, and one \<open>finish\<close> at the end; the log is
  absent when no monitor file was asked for.\<close>

fun is_data :: "monitor_record \<Rightarrow> bool" where
  "is_data M_start = False"
| "is_data (M_finish rc) = False"
| "is_data rec = True"

definition complete_log :: "reason \<Rightarrow> monitor_record list \<Rightarrow> bool" where
  "complete_log rc log \<longleftrightarrow> (\<exists>mid. log = M_start # mid @ [M_finish rc] \<and> list_all is_data mid)"

section \<open>Properties\<close>

text \<open>The last line of a monitor file tells how the command ended: two \<open>finish\<close> lines written at the same
  time are equal only if their reasons are, so success and every reason can be told apart.\<close>

theorem finish_line_injective:
  "monitor_line t (M_finish r) = monitor_line t (M_finish r') \<longleftrightarrow> r = r'"
proof
  assume eq: "monitor_line t (M_finish r) = monitor_line t (M_finish r')"
  show "r = r'"
  proof (cases "r = reason_absent \<or> r' = reason_absent")
    case True
    then show ?thesis using eq by (auto split: if_splits)
  next
    case False
    then have "reason_to_string_view r = reason_to_string_view r'" using eq by simp
    then show ?thesis by (rule reason_to_string_view_inj)
  qed
qed simp

text \<open>The \<open>session_info\<close> line does not carry the session id: the value of its \<open>session_id\<close> member is the id
  with a colon in front.\<close>

theorem session_info_id_has_colon:
  "\<exists>rest. monitor_line t (M_session_info session_id label application user start_at ctype cinfo) =
     line_head t @ ''\"kind\": \"data\", \"format\": \"session-info\", \"session_id\": '' @
       ''\"'' @ ('':'' @ session_id) @ ''\"'' @ rest"
  by simp

end
