(* ===== verification/Console.thy ===== *)
theory Console
  imports Monitor_Output
begin

section \<open>What a command writes: the console and the monitor file\<close>

text \<open>
  Every command of \<^verbatim>\<open>tgctl\<close> writes to \<open>std::cout\<close>, to \<open>std::cerr\<close> and, when \<^verbatim>\<open>--monitor\<close> is given,
  to a \<open>monitor::monitor\<close> held in a \<open>std::unique_ptr\<close>.  The state of these three streams is the record
  \<open>console\<close>; \<open>con_monitor\<close> is \<open>None\<close> while the pointer is null, and else the records written so far.
  Exceptions are values of \<open>exn\<close>: a \<open>tgctl::runtime_error\<close>, another exception derived from \<open>std::exception\<close>
  with its message, or the use of a null pointer.
\<close>

record console =
  con_out :: string
  con_err :: string
  con_monitor :: "monitor_record list option"

definition fresh_console :: console where
  "fresh_console = \<lparr>con_out = [], con_err = [], con_monitor = None\<rparr>"

abbreviation nl :: string where
  "nl \<equiv> [CHR 0x0A]"

definition cout :: "string \<Rightarrow> 'a console_scheme \<Rightarrow> 'a console_scheme" where
  "cout s c = c\<lparr>con_out := con_out c @ s\<rparr>"

definition cerr :: "string \<Rightarrow> 'a console_scheme \<Rightarrow> 'a console_scheme" where
  "cerr s c = c\<lparr>con_err := con_err c @ s\<rparr>"

text \<open>\<open>if (monitor_output) { monitor_output->... }\<close>\<close>

definition monitor_put :: "monitor_record \<Rightarrow> 'a console_scheme \<Rightarrow> 'a console_scheme" where
  "monitor_put r c = c\<lparr>con_monitor := map_option (\<lambda>log. log @ [r]) (con_monitor c)\<rparr>"

abbreviation finish :: "reason \<Rightarrow> 'a console_scheme \<Rightarrow> 'a console_scheme" where
  "finish rc \<equiv> monitor_put (M_finish rc)"

text \<open>\<open>if (!FLAGS_monitor.empty() ...) { monitor_output = std::make_unique<monitor>(...); monitor_output->start(); }\<close>
  on a null pointer.\<close>

definition open_monitor :: "bool \<Rightarrow> 'a console_scheme \<Rightarrow> 'a console_scheme" where
  "open_monitor on c = c\<lparr>con_monitor := (if on then Some [M_start] else None)\<rparr>"

lemmas console_defs = cout_def cerr_def monitor_put_def open_monitor_def

text \<open>The log of a command that has not finished yet, and of one that has.\<close>

definition open_log :: "'a console_scheme \<Rightarrow> bool" where
  "open_log c \<longleftrightarrow> (case con_monitor c of None \<Rightarrow> True
     | Some log \<Rightarrow> \<exists>mid. log = M_start # mid \<and> list_all is_data mid)"

definition finished_log :: "reason \<Rightarrow> 'a console_scheme \<Rightarrow> bool" where
  "finished_log rc c \<longleftrightarrow> (case con_monitor c of None \<Rightarrow> True | Some log \<Rightarrow> complete_log rc log)"

lemma con_monitor_cout [simp]: "con_monitor (cout s c) = con_monitor c"
  by (simp add: cout_def)

lemma con_monitor_cerr [simp]: "con_monitor (cerr s c) = con_monitor c"
  by (simp add: cerr_def)

lemma con_monitor_put [simp]: "con_monitor (monitor_put r c) = map_option (\<lambda>log. log @ [r]) (con_monitor c)"
  by (simp add: monitor_put_def)

lemma con_monitor_open [simp]: "con_monitor (open_monitor on c) = (if on then Some [M_start] else None)"
  by (simp add: open_monitor_def)

lemma con_err_simps [simp]:
  "con_err (cout s c) = con_err c" "con_err (monitor_put r c) = con_err c"
  "con_err (open_monitor on c) = con_err c" "con_err (cerr s c) = con_err c @ s"
  by (simp_all add: console_defs)

lemma con_out_simps [simp]:
  "con_out (cerr s c) = con_out c" "con_out (monitor_put r c) = con_out c"
  "con_out (open_monitor on c) = con_out c" "con_out (cout s c) = con_out c @ s"
  by (simp_all add: console_defs)

lemma con_more_simps [simp]:
  "console.more (cout s c) = console.more c" "console.more (cerr s c) = console.more c"
  "console.more (monitor_put r c) = console.more c" "console.more (open_monitor on c) = console.more c"
  by (simp_all add: console_defs)

lemma open_log_open [simp]: "open_log (open_monitor on c)"
  by (simp add: open_log_def)

lemma open_log_cong: "con_monitor c = con_monitor d \<Longrightarrow> open_log c = open_log d"
  by (simp add: open_log_def)

lemma open_log_cout [simp]: "open_log (cout s c) = open_log c"
  by (rule open_log_cong) simp

lemma open_log_cerr [simp]: "open_log (cerr s c) = open_log c"
  by (rule open_log_cong) simp

lemma finished_log_cong: "con_monitor c = con_monitor d \<Longrightarrow> finished_log rc c = finished_log rc d"
  by (simp add: finished_log_def)

lemma finished_log_cout [simp]: "finished_log rc (cout s c) = finished_log rc c"
  by (rule finished_log_cong) simp

lemma finished_log_cerr [simp]: "finished_log rc (cerr s c) = finished_log rc c"
  by (rule finished_log_cong) simp

lemma open_log_data: "open_log c \<Longrightarrow> is_data r \<Longrightarrow> open_log (monitor_put r c)"
  by (auto simp: open_log_def split: option.splits)

lemma open_log_finish: "open_log c \<Longrightarrow> finished_log rc (finish rc c)"
  by (auto simp: open_log_def finished_log_def complete_log_def split: option.splits)

lemma finished_log_reason: "finished_log r c \<Longrightarrow> finished_log r' c \<Longrightarrow> con_monitor c \<noteq> None \<Longrightarrow> r = r'"
  by (auto simp: finished_log_def complete_log_def)

subsection \<open>Exceptions\<close>

datatype exn = Tgctl_error runtime_error | Std_error string | Null_pointer

type_synonym 'a outcome = "exn + 'a"

text \<open>\<open>e.what()\<close>\<close>

fun exn_what :: "exn \<Rightarrow> string" where
  "exn_what (Tgctl_error e) = what e"
| "exn_what (Std_error s) = s"
| "exn_what Null_pointer = []"

end
