(* ===== verification/Configuration.thy ===== *)
theory Configuration
  imports Console "HOL-Library.Char_ord" "HOL-Library.List_Lexorder"
begin

section \<open>Configuration: the instance id, \<open>bootstrap_configuration\<close>, \<open>tgctl config\<close>\<close>

text \<open>
  \<^verbatim>\<open>src/tateyama/configuration/\<close>: \<^verbatim>\<open>instance_id_helper.h\<close>, \<^verbatim>\<open>bootstrap_configuration.h\<close>,
  \<^verbatim>\<open>bootstrap_configuration.cpp\<close> and \<^verbatim>\<open>config.cpp\<close>.  The parser of \<^verbatim>\<open>tsurugi.ini\<close>
  (\<open>tateyama::api::configuration\<close>, \<open>boost::property_tree\<close>) is not part of the program: a \<open>whole\<close> is
  represented by what \<open>get_section\<close> and \<open>get<std::string>\<close> answer, and its construction, the typed \<open>get\<close> of
  a path, the file system and the environment variables are fields of \<open>conf_env\<close>, an argument.
\<close>

subsection \<open>\<open>instance_id_handler\<close>\<close>

definition MAX_INSTANCE_ID_LENGTH :: nat where
  "MAX_INSTANCE_ID_LENGTH = 63"

definition lower_alnum :: "char \<Rightarrow> bool" where
  "lower_alnum ch \<longleftrightarrow> (97 \<le> (of_char ch :: nat) \<and> (of_char ch :: nat) \<le> 122) \<or>
                      (48 \<le> (of_char ch :: nat) \<and> (of_char ch :: nat) \<le> 57)"

text \<open>The loop over the characters; the first argument is the variable \<open>hyphen\<close>.\<close>

fun check_characters :: "bool \<Rightarrow> string \<Rightarrow> unit outcome" where
  "check_characters hyphen [] = Inr ()"
| "check_characters hyphen (ch # s) =
     (if lower_alnum ch then check_characters False s
      else if ch = CHR ''-''
      then (if hyphen then Inl (Std_error ''instance_id has consecutive hyphens'') else check_characters True s)
      else Inl (Std_error ''instance_id has illegal character''))"

definition tolower_and_check :: "string \<Rightarrow> string outcome" where
  "tolower_and_check s =
     (if s = [] then Inl (Std_error ''instance_id given is empty string'')
      else if MAX_INSTANCE_ID_LENGTH < length s then Inl (Std_error ''instance_id is too long'')
      else if hd s = CHR ''-'' then Inl (Std_error ''instance_id begins with hyphen'')
      else if last s = CHR ''-'' then Inl (Std_error ''instance_id ends with hyphen'')
      else let t = map to_lower s
           in (case check_characters False t of Inl e \<Rightarrow> Inl e | Inr u \<Rightarrow> Inr t))"

text \<open>\<open>hostname\<close> is what \<open>gethostname\<close> stores when it returns 0.\<close>

definition instance_id :: "string option \<Rightarrow> string \<Rightarrow> string outcome" where
  "instance_id hostname id' =
     (if id' = [] then
        (case hostname of
           None \<Rightarrow> Inr ''localhost''
         | Some h \<Rightarrow> (case tolower_and_check h of Inl e \<Rightarrow> Inr ''localhost'' | Inr s \<Rightarrow> Inr s))
      else tolower_and_check id')"

type_synonym section' = "string \<rightharpoonup> string"

record whole =
  wh_sections :: "string \<rightharpoonup> section'"
  wh_base_path :: "path option"

definition instance_id_setup :: "string option \<Rightarrow> whole \<Rightarrow> whole outcome" where
  "instance_id_setup hostname conf =
     (case wh_sections conf ''system'' of
        None \<Rightarrow> Inl Null_pointer
      | Some sec \<Rightarrow>
          (case sec ''instance_id'' of
             None \<Rightarrow> Inl (Std_error ''instance_id is not given in tsurugi.ini'')
           | Some x \<Rightarrow>
               (case instance_id hostname x of
                  Inl e \<Rightarrow> Inl e
                | Inr s \<Rightarrow> Inr (conf\<lparr>wh_sections := (wh_sections conf)(''system'' \<mapsto> sec(''instance_id'' \<mapsto> s))\<rparr>))))"

subsection \<open>The default configuration\<close>

text \<open>The text of \<open>details::default_configuration\<close>, line by line; \<open>altimeter\<close> tells whether
  \<^verbatim>\<open>ENABLE_ALTIMETER\<close> is defined.\<close>

definition default_configuration_lines :: "bool \<Rightarrow> string list" where
  "default_configuration_lines altimeter =
     [''[sql]'', ''thread_pool_size='', ''enable_index_join=true'', ''stealing_enabled=true'',
      ''default_partitions=5'', ''stealing_wait=1'', ''task_polling_wait=0'', ''lightweight_job_level=0'',
      ''enable_hybrid_scheduler=true'', ''busy_worker=false'', ''watcher_interval=1000'',
      ''worker_try_count=1000'', ''worker_suspend_timeout=1000000'', ''commit_response=STORED'',
      ''dev_profile_commits=false'', ''dev_return_os_pages=false'', ''dev_omit_task_when_idle=true'',
      ''plan_recording=false'', ''dev_try_insert_on_upserting_secondary=true'',
      ''dev_scan_concurrent_operation_as_not_found=true'',
      ''dev_point_read_concurrent_operation_as_not_found=true'', ''lowercase_regular_identifiers=false'',
      ''scan_block_size=100'', ''scan_yield_interval=1'', ''dev_thousandths_ratio_check_local_first=100'',
      ''dev_direct_commit_callback=false'', ''scan_default_parallel=4'', ''dev_inplace_teardown=true'',
      ''dev_inplace_dag_schedule=true'', ''enable_join_scan=true'', ''dev_rtx_key_distribution=uniform'',
      ''dev_enable_blob_cast=true'', ''max_result_set_writers=64'', ''dev_initial_core='',
      ''dev_core_affinity=false'', ''dev_assign_numa_nodes_uniformly=false'', ''dev_force_numa_node='',
      ''dev_log_msg_user_data=false'', ''dev_enable_disjunction_range_hinting=true'',
      ''dev_apply_max_polls=0'', ''dev_enable_maintenance_thread=true'', ''dev_maintenance_interval_ms=0'',
      ''dev_enable_truncate=false'', ''[ipc_endpoint]'', ''database_name=tsurugi'', ''threads=104'',
      ''datachannel_buffer_size=64'', ''max_datachannel_buffers=256'', ''admin_sessions=1'',
      ''allow_blob_privileged=true'', ''[stream_endpoint]'', ''enabled=false'', ''port=12345'',
      ''threads=104'', ''allow_blob_privileged=false'', ''dev_idle_work_interval=1000'', ''[session]'',
      ''enable_timeout=true'', ''refresh_timeout=300'', ''max_refresh_timeout=86400'', ''zone_offset='',
      ''authentication_timeout=0'', ''[datastore]'', ''log_location='', ''logging_max_parallelism=112'',
      ''recover_max_parallelism=8'', ''[cc]'', ''epoch_duration=3000'', ''waiting_resolver_threads=2'',
      ''max_concurrent_transactions='', ''index_restore_threads=4'', ''[system]'', ''pid_directory=/var/lock'',
      ''instance_id='', ''[authentication]'', ''enabled=false'', ''url=http://localhost:8080/harinoki'',
      ''request_timeout=0'', ''administrators=*'', ''[grpc_server]'', ''enabled=false'',
      ''listen_address=0.0.0.0:52345'', ''endpoint=dns:///localhost:52345'', ''secure=false'',
      ''fullchain_crt='', ''server_key='', ''[blob_relay]'', ''enabled=true'',
      ''session_store=var/blob/sessions'', ''session_quota_size='', ''local_enabled=true'',
      ''local_upload_copy_file=false'', ''stream_chunk_size=1048576'', ''dev_accept_mock_tag=false'',
      ''[glog]'', ''dev_dummy=''] @
     (if altimeter then
     [''[event_log]'', ''output=true'', ''directory=/var/log/altimeter/event'', ''level=50'',
      ''file_number=10'', ''sync=false'', ''buffer_size=52428800'', ''flush_interval=10000'',
      ''flush_file_size=1048576'', ''max_file_size=1073741824'', ''stmt_duration_threshold = 1000000000'',
      ''[audit_log]'', ''output=true'', ''directory=/var/log/altimeter/audit'', ''level=50'',
      ''file_number=10'', ''sync=true'', ''buffer_size=0'', ''flush_interval=0'', ''flush_file_size=0'',
      ''max_file_size=1073741824'']
      else []) @
     [''[udf]'', ''plugin_directory=var/plugins/'', ''endpoint=dns:///localhost:50051'', ''secure=false'',
      ''timeout=0'']"

definition default_configuration :: "bool \<Rightarrow> string" where
  "default_configuration altimeter = concat (map (\<lambda>l. l @ nl) (default_configuration_lines altimeter))"

subsection \<open>\<open>bootstrap_configuration\<close>\<close>

definition PID_FILE_PREFIX :: string where
  "PID_FILE_PREFIX = ''tsurugi''"

definition HOME_CONF_FILE :: path where
  "HOME_CONF_FILE = ''var/etc/tsurugi.ini''"

text \<open>\<open>operator/\<close> of \<open>std::filesystem::path\<close>.\<close>

definition path_append :: "path \<Rightarrow> path \<Rightarrow> path" where
  "path_append a b =
     (if b \<noteq> [] \<and> hd b = CHR ''/'' then b
      else if a = [] \<or> last a = CHR ''/'' then a @ b
      else a @ ''/'' @ b)"

record conf_env =
  ce_env_home :: "path option"
  ce_env_conf :: "path option"
  ce_exists :: "path \<Rightarrow> bool"
  ce_is_directory :: "path \<Rightarrow> bool"
  ce_canonical :: "path \<Rightarrow> path"
  ce_create :: "path \<Rightarrow> string \<Rightarrow> whole option"
  ce_get_path :: "whole \<Rightarrow> string \<Rightarrow> string \<Rightarrow> path option"
  ce_hash :: "string \<Rightarrow> 64 word"
  ce_hostname :: "string option"
  ce_altimeter :: bool

text \<open>\<open>std::hex\<close>, \<open>std::setfill('0')\<close>, \<open>std::setw(16)\<close>.\<close>

definition hex_char :: "nat \<Rightarrow> char" where
  "hex_char d = (if d < 10 then char_of (48 + d) else char_of (87 + d))"

fun to_hex :: "nat \<Rightarrow> string" where
  "to_hex n = (if n < 16 then [hex_char n] else to_hex (n div 16) @ [hex_char (n mod 16)])"

declare to_hex.simps [simp del]

definition digest :: "conf_env \<Rightarrow> string \<Rightarrow> string" where
  "digest ce path_string =
     (let h = to_hex (unat (ce_hash ce path_string)) in replicate (16 - length h) (CHR ''0'') @ h)"

record bootstrap_configuration =
  bc_conf_file :: path
  bc_lock_file :: path
  bc_configuration :: "whole option"
  bc_valid :: bool

definition invalid_bootstrap_configuration :: bootstrap_configuration where
  "invalid_bootstrap_configuration =
     \<lparr>bc_conf_file = [], bc_lock_file = [], bc_configuration = None, bc_valid = False\<rparr>"

definition select_conf_file :: "conf_env \<Rightarrow> string \<Rightarrow> path result" where
  "select_conf_file ce fname =
     (if fname \<noteq> [] then Inr fname
      else (case ce_env_conf ce of
              Some c \<Rightarrow> Inr c
            | None \<Rightarrow>
                (case ce_env_home ce of
                   Some h \<Rightarrow> Inr (path_append h HOME_CONF_FILE)
                 | None \<Rightarrow> Inl (runtime_error reason_internal ''no configuration file specified''))))"

definition pid_file_name :: "conf_env \<Rightarrow> path \<Rightarrow> string" where
  "pid_file_name ce conf_file =
     PID_FILE_PREFIX @ ''-'' @ digest ce (ce_canonical ce conf_file) @ ''.pid''"

definition bootstrap_configuration_new :: "conf_env \<Rightarrow> string \<Rightarrow> bootstrap_configuration result" where
  "bootstrap_configuration_new ce fname =
     (case select_conf_file ce fname of
        Inl e \<Rightarrow> Inl e
      | Inr conf_file \<Rightarrow>
          if \<not> ce_exists ce conf_file
          then Inl (runtime_error reason_internal (''cannot find configuration file: '' @ conf_file))
          else if ce_is_directory ce conf_file
          then Inl (runtime_error reason_internal (conf_file @ '' is a directory''))
          else (case ce_create ce conf_file (default_configuration (ce_altimeter ce)) of
                  None \<Rightarrow> Inl (runtime_error reason_internal (conf_file @ '' contents are inappropriate''))
                | Some w \<Rightarrow>
                    let w = (case ce_env_home ce of None \<Rightarrow> w | Some h \<Rightarrow> w\<lparr>wh_base_path := Some h\<rparr>)
                    in (if wh_sections w ''system'' = None
                        then Inl (runtime_error reason_internal ''error in lock file location'')
                        else (case ce_get_path ce w ''system'' ''pid_directory'' of
                                None \<Rightarrow> Inl (runtime_error reason_internal ''error in lock file location'')
                              | Some directory \<Rightarrow>
                                  Inr \<lparr>bc_conf_file = conf_file,
                                       bc_lock_file = path_append directory (pid_file_name ce conf_file),
                                       bc_configuration = Some w, bc_valid = True\<rparr>))))"

definition create_bootstrap_configuration :: "conf_env \<Rightarrow> string \<Rightarrow> bootstrap_configuration" where
  "create_bootstrap_configuration ce file =
     (case bootstrap_configuration_new ce file of
        Inl e \<Rightarrow> invalid_bootstrap_configuration
      | Inr bc \<Rightarrow> bc)"

text \<open>\<open>get_configuration\<close> runs \<open>instance_id_handler::setup\<close> on the configuration it returns.\<close>

definition get_configuration ::
  "conf_env \<Rightarrow> bootstrap_configuration \<Rightarrow> bootstrap_configuration \<times> whole option outcome" where
  "get_configuration ce bc =
     (case bc_configuration bc of
        None \<Rightarrow> (bc, Inl Null_pointer)
      | Some w \<Rightarrow>
          (case instance_id_setup (ce_hostname ce) w of
             Inl e \<Rightarrow> (bc, Inl e)
           | Inr w' \<Rightarrow> (bc\<lparr>bc_configuration := Some w'\<rparr>, Inr (Some w'))))"

definition bc_digest :: "conf_env \<Rightarrow> bootstrap_configuration \<Rightarrow> string" where
  "bc_digest ce bc = digest ce (ce_canonical ce (bc_conf_file bc))"

subsection \<open>\<open>tgctl config\<close>\<close>

text \<open>A property tree of \<open>boost::property_tree::read_ini\<close>: sections with their keys and values, in order.\<close>

type_synonym ini_tree = "(string \<times> (string \<times> string) list) list"

record config_env =
  ge_monitor :: string
  ge_quiet :: bool
  ge_show_dev :: bool
  ge_authenticate :: "runtime_error option"
  ge_read_default :: ini_tree
  ge_read_file :: "string + ini_tree"
  ge_conf_file_exists :: bool

text \<open>\<open>std::map<std::string, std::set<std::string>>\<close>, in the order of iteration.\<close>

type_synonym attributes = "(string \<times> string list) list"

definition add_section :: "string \<Rightarrow> attributes \<Rightarrow> attributes" where
  "add_section n al = (if n \<in> fst ` set al then al else insort_key fst (n, []) al)"

definition add_key :: "string \<Rightarrow> string \<Rightarrow> attributes \<Rightarrow> attributes" where
  "add_key n k al = map (\<lambda>(n', ks). if n' = n then (n', insort_insert k ks) else (n', ks)) al"

definition add_keys :: "(string \<Rightarrow> bool) \<Rightarrow> ini_tree \<Rightarrow> attributes \<Rightarrow> attributes" where
  "add_keys shown tree al =
     fold (\<lambda>(n, kvs) al.
             fold (\<lambda>(k, v) al. if shown k then add_key n k al else al) kvs (add_section n al))
          tree al"

definition default_key_shown :: "bool \<Rightarrow> string \<Rightarrow> bool" where
  "default_key_shown show_dev name \<longleftrightarrow> show_dev \<or> take 4 name \<noteq> ''dev_''"

fun print_keys :: "bool \<Rightarrow> string \<Rightarrow> section' option \<Rightarrow> string list \<Rightarrow> console \<Rightarrow> console \<times> unit outcome" where
  "print_keys quiet n sec [] c = (c, Inr ())"
| "print_keys quiet n sec (k # ks) c =
     (case sec of
        None \<Rightarrow> (c, Inl Null_pointer)
      | Some m \<Rightarrow>
          (case m k of
             None \<Rightarrow> print_keys quiet n sec ks c
           | Some v \<Rightarrow>
               (let c = (if quiet then c else cout (''    '' @ k @ ''='' @ v @ nl) c);
                    c = monitor_put (M_config_item n k v) c
                in print_keys quiet n sec ks c)))"

fun print_sections :: "bool \<Rightarrow> whole \<Rightarrow> attributes \<Rightarrow> console \<Rightarrow> console \<times> unit outcome" where
  "print_sections quiet conf [] c = (c, Inr ())"
| "print_sections quiet conf ((n, ks) # al) c =
     (let c = (if quiet then c else cout (''['' @ n @ '']'' @ nl) c)
      in (case print_keys quiet n (wh_sections conf n) ks c of
            (c, Inl e) \<Rightarrow> (c, Inl e)
          | (c, Inr u) \<Rightarrow> print_sections quiet conf al c))"

definition error_line :: "reason \<Rightarrow> string \<Rightarrow> string" where
  "error_line r detail =
     ''error: reason = '' @ reason_to_string_view r @ '', detail = '' @ [CHR 0x27] @ detail @ [CHR 0x27] @ nl"

definition config :: "conf_env \<Rightarrow> config_env \<Rightarrow> string \<Rightarrow> console \<Rightarrow> console \<times> return_code outcome" where
  "config ce ge flags_conf c =
     (let c = open_monitor (ge_monitor ge \<noteq> []) c;
          bc = create_bootstrap_configuration ce flags_conf
      in if \<not> bc_valid bc
         then (finish reason_not_found
                 (cerr (error_line reason_not_found ''cannot find the configuration file'') c), Inr rc_err)
         else
           (case get_configuration ce bc of
              (bc, Inl e) \<Rightarrow> (c, Inl e)
            | (bc, Inr None) \<Rightarrow> (c, Inl Null_pointer)
            | (bc, Inr (Some w)) \<Rightarrow>
                (case ge_authenticate ge of
                   Some ex \<Rightarrow> (finish (code ex) (cerr (error_line (code ex) (what ex)) c), Inr rc_err)
                 | None \<Rightarrow>
                     (let al = add_keys (default_key_shown (ge_show_dev ge)) (ge_read_default ge) []
                      in (case (if ge_conf_file_exists ge then ge_read_file ge else Inr []) of
                            Inl msg \<Rightarrow> (cerr (msg @ nl) c, Inr rc_err)
                          | Inr tree \<Rightarrow>
                              (let al = add_keys (\<lambda>k. True) tree al
                               in (case get_configuration ce bc of
                                     (bc, Inl e) \<Rightarrow> (c, Inl e)
                                   | (bc, Inr None) \<Rightarrow> (c, Inl Null_pointer)
                                   | (bc, Inr (Some conf)) \<Rightarrow>
                                       (case print_sections (ge_quiet ge) conf al c of
                                          (c, Inl e) \<Rightarrow> (c, Inl e)
                                        | (c, Inr u) \<Rightarrow> (finish reason_absent c, Inr rc_ok)))))))))"

section \<open>Lemmas: the instance id\<close>

lemma of_char_to_lower:
  "(of_char (to_lower ch) :: nat) =
     (if 65 \<le> (of_char ch :: nat) \<and> (of_char ch :: nat) \<le> 90 then of_char ch + 32 else of_char ch)"
  by (simp add: to_lower_def Let_def)

lemma to_lower_hyphen [simp]: "to_lower ch = CHR ''-'' \<longleftrightarrow> ch = CHR ''-''"
proof -
  have "to_lower ch = CHR ''-'' \<longleftrightarrow> (of_char (to_lower ch) :: nat) = of_char CHR ''-''"
    by (simp only: of_char_eq_iff)
  also have "\<dots> \<longleftrightarrow> (of_char ch :: nat) = of_char CHR ''-''"
    unfolding of_char_to_lower by auto
  also have "\<dots> \<longleftrightarrow> ch = CHR ''-''"
    by (simp only: of_char_eq_iff)
  finally show ?thesis .
qed

lemma lower_alnum_not_hyphen [simp]: "\<not> lower_alnum (CHR ''-'')"
  by (simp add: lower_alnum_def)

lemma to_lower_lower_alnum: "lower_alnum ch \<Longrightarrow> to_lower ch = ch"
  by (auto simp: lower_alnum_def to_lower_def)

text \<open>A label of a host name: 1 to 63 letters, digits and hyphens, the letters in lower case, with no hyphen
  at either end and no two hyphens in a row.\<close>

definition label_char :: "char \<Rightarrow> bool" where
  "label_char ch \<longleftrightarrow> lower_alnum ch \<or> ch = CHR ''-''"

definition no_double_hyphen :: "string \<Rightarrow> bool" where
  "no_double_hyphen s \<longleftrightarrow> (\<nexists>u v. s = u @ ''--'' @ v)"

definition valid_instance_id :: "string \<Rightarrow> bool" where
  "valid_instance_id s \<longleftrightarrow>
     0 < length s \<and> length s \<le> MAX_INSTANCE_ID_LENGTH \<and> list_all label_char s \<and>
     hd s \<noteq> CHR ''-'' \<and> last s \<noteq> CHR ''-'' \<and> no_double_hyphen s"

lemma no_double_hyphen_Nil [simp]: "no_double_hyphen []"
  by (simp add: no_double_hyphen_def)

lemma no_double_hyphen_Cons:
  "no_double_hyphen (a # s) \<longleftrightarrow> \<not> (a = CHR ''-'' \<and> s \<noteq> [] \<and> hd s = CHR ''-'') \<and> no_double_hyphen s"
proof -
  have "(\<exists>u v. a # s = u @ ''--'' @ v) \<longleftrightarrow>
          (\<exists>v. a # s = ''--'' @ v) \<or> (\<exists>u v. s = u @ ''--'' @ v)"
  proof
    assume "\<exists>u v. a # s = u @ ''--'' @ v"
    then obtain u v where "a # s = u @ ''--'' @ v" by blast
    then show "(\<exists>v. a # s = ''--'' @ v) \<or> (\<exists>u v. s = u @ ''--'' @ v)" by (cases u) auto
  next
    assume "(\<exists>v. a # s = ''--'' @ v) \<or> (\<exists>u v. s = u @ ''--'' @ v)"
    then show "\<exists>u v. a # s = u @ ''--'' @ v"
    proof
      assume "\<exists>v. a # s = ''--'' @ v"
      then show ?thesis by (metis append_Nil)
    next
      assume "\<exists>u v. s = u @ ''--'' @ v"
      then show ?thesis by (metis append_Cons)
    qed
  qed
  moreover have "(\<exists>v. a # s = ''--'' @ v) \<longleftrightarrow> a = CHR ''-'' \<and> s \<noteq> [] \<and> hd s = CHR ''-''"
    by (cases s) auto
  ultimately show ?thesis by (simp add: no_double_hyphen_def)
qed

lemma check_characters_iff:
  "check_characters h s = Inr () \<longleftrightarrow>
     list_all label_char s \<and> no_double_hyphen s \<and> \<not> (h \<and> s \<noteq> [] \<and> hd s = CHR ''-'')"
  by (induction h s rule: check_characters.induct)
     (auto simp: label_char_def no_double_hyphen_Cons)

lemma tolower_and_check_Inr:
  "tolower_and_check s = Inr t \<longleftrightarrow> t = map to_lower s \<and> valid_instance_id t"
proof -
  have hd: "s \<noteq> [] \<Longrightarrow> hd (map to_lower s) = CHR ''-'' \<longleftrightarrow> hd s = CHR ''-''"
    by (simp add: hd_map)
  have last: "s \<noteq> [] \<Longrightarrow> last (map to_lower s) = CHR ''-'' \<longleftrightarrow> last s = CHR ''-''"
    by (simp add: last_map)
  have split: "(case check_characters False u of Inl e \<Rightarrow> Inl e | Inr x \<Rightarrow> Inr u) = Inr t \<longleftrightarrow>
                 t = u \<and> check_characters False u = Inr ()" for u
    by (auto split: sum.splits)
  show ?thesis
  proof (cases "s = [] \<or> MAX_INSTANCE_ID_LENGTH < length s \<or> hd s = CHR ''-'' \<or> last s = CHR ''-''")
    case True
    then show ?thesis
      using hd last by (auto simp: tolower_and_check_def valid_instance_id_def)
  next
    case False
    then have "tolower_and_check s = Inr t \<longleftrightarrow>
                 t = map to_lower s \<and> check_characters False (map to_lower s) = Inr ()"
      by (simp add: tolower_and_check_def Let_def split)
    also have "\<dots> \<longleftrightarrow> t = map to_lower s \<and> valid_instance_id t"
      using False hd last by (auto simp: check_characters_iff valid_instance_id_def)
    finally show ?thesis .
  qed
qed

lemma valid_localhost: "valid_instance_id ''localhost''"
proof -
  have "tolower_and_check ''localhost'' = Inr ''localhost''" by code_simp
  then show ?thesis by (simp only: tolower_and_check_Inr)
qed

lemma map_to_lower_valid: "valid_instance_id s \<Longrightarrow> map to_lower s = s"
proof -
  assume "valid_instance_id s"
  then have "label_char ch" if "ch \<in> set s" for ch
    using that by (auto simp: valid_instance_id_def list_all_iff)
  moreover have "label_char ch \<Longrightarrow> to_lower ch = ch" for ch
    by (auto simp: label_char_def to_lower_lower_alnum)
  ultimately show ?thesis by (simp add: map_idI)
qed

lemma instance_id_Inr: "instance_id hostname x = Inr s \<Longrightarrow> valid_instance_id s"
  by (auto simp: instance_id_def valid_localhost tolower_and_check_Inr split: option.splits sum.splits if_splits)

section \<open>Lemmas: digests\<close>

lemma of_char_hex_char: "d < 16 \<Longrightarrow> (of_char (hex_char d) :: nat) = (if d < 10 then 48 + d else 87 + d)"
  by (simp add: hex_char_def)

lemma hex_char_inj: "a < 16 \<Longrightarrow> b < 16 \<Longrightarrow> hex_char a = hex_char b \<longleftrightarrow> a = b"
proof -
  assume "a < 16" "b < 16"
  moreover have "hex_char a = hex_char b \<longleftrightarrow> (of_char (hex_char a) :: nat) = of_char (hex_char b)"
    by (simp only: of_char_eq_iff)
  ultimately show ?thesis by (simp add: of_char_hex_char split: if_splits)
qed

lemma length_to_hex: "n < 16 ^ Suc k \<Longrightarrow> length (to_hex n) \<le> Suc k"
proof (induction k arbitrary: n)
  case 0
  then show ?case by (simp add: to_hex.simps)
next
  case (Suc k)
  then have "n div 16 < 16 ^ Suc k" by (simp add: div_less_iff_less_mult)
  then show ?case using Suc.IH by (subst to_hex.simps) simp
qed

text \<open>The value a string of hexadecimal digits stands for; leading zeros do not change it.\<close>

definition hex_value :: "string \<Rightarrow> nat" where
  "hex_value = foldl (\<lambda>v ch. 16 * v + (if (of_char ch :: nat) < 58 then of_char ch - 48 else of_char ch - 87)) 0"

lemma hex_value_to_hex: "hex_value (to_hex n) = n"
proof (induction n rule: to_hex.induct)
  case (1 n)
  show ?case
  proof (cases "n < 16")
    case True
    then show ?thesis by (subst to_hex.simps) (simp add: hex_value_def of_char_hex_char)
  next
    case False
    then have "hex_value (to_hex (n div 16)) = n div 16" using 1 by simp
    then show ?thesis
      using False by (subst to_hex.simps) (simp add: hex_value_def of_char_hex_char)
  qed
qed

lemma hex_value_pad: "hex_value (replicate m (CHR ''0'') @ s) = hex_value s"
  by (induction m) (simp_all add: hex_value_def)

lemma length_digest: "length (digest ce p) = 16"
proof -
  have "unat (ce_hash ce p) < 16 ^ Suc 15"
    using unsigned_less [of "ce_hash ce p"] by simp
  then have "length (to_hex (unat (ce_hash ce p))) \<le> 16"
    using length_to_hex [of _ 15] by simp
  then show ?thesis by (simp add: digest_def Let_def)
qed

lemma digest_eq_iff: "digest ce p = digest ce q \<longleftrightarrow> ce_hash ce p = ce_hash ce q"
proof
  assume "digest ce p = digest ce q"
  then have "hex_value (digest ce p) = hex_value (digest ce q)" by simp
  then have "unat (ce_hash ce p) = unat (ce_hash ce q)"
    by (simp add: digest_def Let_def hex_value_pad hex_value_to_hex)
  then show "ce_hash ce p = ce_hash ce q" by (rule word_unat_eq_iff [THEN iffD2])
qed (simp add: digest_def)

lemma pid_file_name_eq_iff:
  "pid_file_name ce p = pid_file_name ce q \<longleftrightarrow> ce_hash ce (ce_canonical ce p) = ce_hash ce (ce_canonical ce q)"
  by (simp add: pid_file_name_def digest_eq_iff length_digest)

lemma path_append_file:
  assumes "f \<noteq> []" "hd f \<noteq> CHR ''/''"
  shows "path_append d f = (if d = [] \<or> last d = CHR ''/'' then d else d @ ''/'') @ f"
  using assms by (simp add: path_append_def)

lemma path_append_pid_file:
  "path_append d (pid_file_name ce p) =
     (if d = [] \<or> last d = CHR ''/'' then d else d @ ''/'') @ pid_file_name ce p"
  by (rule path_append_file) (simp_all add: pid_file_name_def PID_FILE_PREFIX_def)

section \<open>Lemmas: \<open>bootstrap_configuration\<close>\<close>

lemma bootstrap_configuration_new_Inr:
  assumes "bootstrap_configuration_new ce fname = Inr bc"
  shows "\<exists>w d. bc_valid bc \<and> bc_configuration bc = Some w \<and> select_conf_file ce fname = Inr (bc_conf_file bc) \<and>
           ce_exists ce (bc_conf_file bc) \<and> \<not> ce_is_directory ce (bc_conf_file bc) \<and>
           ce_get_path ce w ''system'' ''pid_directory'' = Some d \<and>
           bc_lock_file bc = path_append d (pid_file_name ce (bc_conf_file bc))"
  using assms
  by (auto simp: bootstrap_configuration_new_def Let_def split: sum.splits if_splits option.splits)

lemma create_bootstrap_configuration_valid:
  assumes "bc_valid (create_bootstrap_configuration ce fname)"
  shows "bootstrap_configuration_new ce fname = Inr (create_bootstrap_configuration ce fname)"
  using assms
  by (cases "bootstrap_configuration_new ce fname")
     (simp_all add: create_bootstrap_configuration_def invalid_bootstrap_configuration_def)

lemma get_configuration_again:
  assumes "get_configuration ce bc = (bc', Inr conf)"
  shows "get_configuration ce bc' = (bc', Inr conf)"
proof -
  obtain w sec x s where w: "bc_configuration bc = Some w" "wh_sections w ''system'' = Some sec"
    "sec ''instance_id'' = Some x" "instance_id (ce_hostname ce) x = Inr s"
    and bc': "bc' = bc\<lparr>bc_configuration := Some (w\<lparr>wh_sections :=
                (wh_sections w)(''system'' \<mapsto> sec(''instance_id'' \<mapsto> s))\<rparr>)\<rparr>"
    and conf: "conf = bc_configuration bc'"
    using assms
    by (auto simp: get_configuration_def instance_id_setup_def split: option.splits sum.splits)
  have "valid_instance_id s"
    using w(4) by (rule instance_id_Inr)
  then have "instance_id (ce_hostname ce) s = Inr s"
    using tolower_and_check_Inr [of s s]
    by (auto simp: instance_id_def map_to_lower_valid valid_instance_id_def)
  then show ?thesis
    using w bc' conf by (simp add: get_configuration_def instance_id_setup_def)
qed

section \<open>Properties: instance id and lock file\<close>

text \<open>\<open>instance_id\<close> returns a valid host label or throws: an id given in the configuration is used in lower
  case exactly if that is a valid label and is refused otherwise; with no id given it never throws, whatever
  the host name is.\<close>

theorem instance_id_valid:
  "case instance_id hostname x of
     Inr s \<Rightarrow> valid_instance_id s \<and> (x = [] \<or> s = map to_lower x)
   | Inl e \<Rightarrow> x \<noteq> [] \<and> \<not> valid_instance_id (map to_lower x)"
proof (cases "x = []")
  case True
  then show ?thesis
    by (auto simp: instance_id_def valid_localhost tolower_and_check_Inr split: option.splits sum.splits)
next
  case False
  then show ?thesis
    using tolower_and_check_Inr [of x "map to_lower x"]
    by (cases "tolower_and_check x") (auto simp: instance_id_def, auto simp: tolower_and_check_Inr)
qed

text \<open>\<open>setup\<close> may run any number of times: after a successful \<open>get_configuration\<close> the next one returns the
  same configuration and leaves the object as it is.\<close>

theorem get_configuration_idempotent:
  assumes "get_configuration ce bc = (bc', Inr conf)"
  shows "get_configuration ce bc' = (bc', Inr conf)"
  using assms by (rule get_configuration_again)

text \<open>A configuration environment with one configuration file.\<close>

definition sample_whole :: whole where
  "sample_whole = \<lparr>wh_sections = [''system'' \<mapsto> [''instance_id'' \<mapsto> ''Node-1'', ''pid_directory'' \<mapsto> ''/var/lock'']],
                   wh_base_path = None\<rparr>"

definition sample_conf_env :: conf_env where
  "sample_conf_env =
     \<lparr>ce_env_home = None, ce_env_conf = Some ''/etc/a.ini'', ce_exists = (\<lambda>p. p \<in> {''/etc/a.ini'', ''/etc/b.ini''}),
      ce_is_directory = (\<lambda>p. False), ce_canonical = (\<lambda>p. p), ce_create = (\<lambda>p d. Some sample_whole),
      ce_get_path = (\<lambda>w sec k. Option.bind (wh_sections w sec) (\<lambda>m. m k)),
      ce_hash = (\<lambda>p. word_of_nat (length p)), ce_hostname = None, ce_altimeter = False\<rparr>"

lemma sample_digest:
  "digest sample_conf_env ''/etc/a.ini'' = ''000000000000000a''"
  "digest sample_conf_env ''/etc/b.ini'' = ''000000000000000a''"
  by code_simp+

lemma sample_bootstrap:
  "bootstrap_configuration_new sample_conf_env [] =
     Inr \<lparr>bc_conf_file = ''/etc/a.ini'', bc_lock_file = ''/var/lock/tsurugi-000000000000000a.pid'',
          bc_configuration = Some sample_whole, bc_valid = True\<rparr>"
  "bootstrap_configuration_new sample_conf_env ''/etc/b.ini'' =
     Inr \<lparr>bc_conf_file = ''/etc/b.ini'', bc_lock_file = ''/var/lock/tsurugi-000000000000000a.pid'',
          bc_configuration = Some sample_whole, bc_valid = True\<rparr>"
proof -
  have env: "ce_env_home sample_conf_env = None" "ce_env_conf sample_conf_env = Some ''/etc/a.ini''"
    "ce_exists sample_conf_env ''/etc/a.ini''" "ce_exists sample_conf_env ''/etc/b.ini''"
    "\<And>p. \<not> ce_is_directory sample_conf_env p" "\<And>p. ce_canonical sample_conf_env p = p"
    "\<And>p d. ce_create sample_conf_env p d = Some sample_whole"
    "ce_get_path sample_conf_env sample_whole ''system'' ''pid_directory'' = Some ''/var/lock''"
    "wh_sections sample_whole ''system'' \<noteq> None"
    by (simp_all add: sample_conf_env_def sample_whole_def)
  show "bootstrap_configuration_new sample_conf_env [] =
     Inr \<lparr>bc_conf_file = ''/etc/a.ini'', bc_lock_file = ''/var/lock/tsurugi-000000000000000a.pid'',
          bc_configuration = Some sample_whole, bc_valid = True\<rparr>"
    "bootstrap_configuration_new sample_conf_env ''/etc/b.ini'' =
     Inr \<lparr>bc_conf_file = ''/etc/b.ini'', bc_lock_file = ''/var/lock/tsurugi-000000000000000a.pid'',
          bc_configuration = Some sample_whole, bc_valid = True\<rparr>"
    by (simp_all add: bootstrap_configuration_new_def select_conf_file_def Let_def env path_append_def
        pid_file_name_def PID_FILE_PREFIX_def sample_digest)
qed

theorem get_configuration_idempotent_witness:
  "\<exists>bc' conf. get_configuration sample_conf_env (create_bootstrap_configuration sample_conf_env []) = (bc', Inr conf) \<and>
     get_configuration sample_conf_env bc' = (bc', Inr conf)"
proof -
  have id: "instance_id None ''Node-1'' = Inr ''node-1''" by code_simp
  have host: "ce_hostname sample_conf_env = None" by (simp add: sample_conf_env_def)
  have "\<exists>w. instance_id_setup None sample_whole = Inr w"
    by (simp add: instance_id_setup_def sample_whole_def id)
  then obtain bc' conf where
    "get_configuration sample_conf_env (create_bootstrap_configuration sample_conf_env []) = (bc', Inr conf)"
    by (auto simp: create_bootstrap_configuration_def sample_bootstrap get_configuration_def host)
  then show ?thesis using get_configuration_idempotent by blast
qed



section \<open>Lemmas: \<open>tgctl config\<close>\<close>

definition has_key :: "attributes \<Rightarrow> string \<Rightarrow> string \<Rightarrow> bool" where
  "has_key al n k \<longleftrightarrow> (\<exists>ks. (n, ks) \<in> set al \<and> k \<in> set ks)"

definition tree_has_key :: "ini_tree \<Rightarrow> string \<Rightarrow> string \<Rightarrow> bool" where
  "tree_has_key tree n k \<longleftrightarrow> (\<exists>kvs v. (n, kvs) \<in> set tree \<and> (k, v) \<in> set kvs)"

lemma has_key_Nil [simp]: "\<not> has_key [] n k"
  by (simp add: has_key_def)

lemma tree_has_key_Nil [simp]: "\<not> tree_has_key [] n k"
  by (simp add: tree_has_key_def)

lemma has_key_add_section [simp]: "has_key (add_section m al) n k = has_key al n k"
  by (auto simp: has_key_def add_section_def set_insort_key)

lemma set_insort_insert' [simp]: "set (insort_insert k ks) = insert k (set ks)"
  by (rule set_insort_insert)

lemma sections_add_section: "m \<in> fst ` set (add_section m al)"
  by (auto simp: add_section_def set_insort_key)

lemma sections_add_section_mono: "n \<in> fst ` set al \<Longrightarrow> n \<in> fst ` set (add_section m al)"
  by (auto simp: add_section_def set_insort_key)

lemma sections_add_key [simp]: "fst ` set (add_key m j al) = fst ` set al"
  by (force simp: add_key_def)

lemma has_key_add_key:
  assumes "m \<in> fst ` set al"
  shows "has_key (add_key m j al) n k \<longleftrightarrow> has_key al n k \<or> (n = m \<and> k = j)"
proof -
  define f where "f ks' = (if n = m then insort_insert j ks' else ks')" for ks' :: "string list"
  have mem: "(n, ks) \<in> set (add_key m j al) \<longleftrightarrow> (\<exists>ks'. (n, ks') \<in> set al \<and> ks = f ks')" for ks
    by (induction al) (auto simp: add_key_def f_def split: if_splits)
  have "has_key (add_key m j al) n k \<longleftrightarrow> (\<exists>ks'. (n, ks') \<in> set al \<and> k \<in> set (f ks'))"
    unfolding has_key_def mem by auto
  also have "\<dots> \<longleftrightarrow> (\<exists>ks'. (n, ks') \<in> set al \<and> (k \<in> set ks' \<or> (n = m \<and> k = j)))"
    by (auto simp: f_def)
  finally have "has_key (add_key m j al) n k \<longleftrightarrow>
                  (\<exists>ks'. (n, ks') \<in> set al \<and> (k \<in> set ks' \<or> (n = m \<and> k = j)))" .
  then show ?thesis using assms by (auto simp: has_key_def)
qed

lemma fold_add_key:
  assumes "m \<in> fst ` set al"
  shows "has_key (fold (\<lambda>(k, v) al. if shown k then add_key m k al else al) kvs al) n k \<longleftrightarrow>
           has_key al n k \<or> (n = m \<and> shown k \<and> (\<exists>v. (k, v) \<in> set kvs))"
  using assms
proof (induction kvs arbitrary: al)
  case Nil
  then show ?case by simp
next
  case (Cons kv kvs)
  obtain j v where kv: "kv = (j, v)" by fastforce
  have "m \<in> fst ` set (if shown j then add_key m j al else al)" using Cons.prems by simp
  from Cons.IH [OF this] show ?case
    using Cons.prems by (auto simp: kv has_key_add_key)
qed

lemma has_key_add_keys:
  "has_key (add_keys shown tree al) n k \<longleftrightarrow> has_key al n k \<or> (shown k \<and> tree_has_key tree n k)"
proof (induction tree arbitrary: al)
  case Nil
  then show ?case by (simp add: add_keys_def tree_has_key_def)
next
  case (Cons e tree)
  obtain m kvs where e: "e = (m, kvs)" by fastforce
  have "add_keys shown (e # tree) al =
          add_keys shown tree (fold (\<lambda>(k, v) al. if shown k then add_key m k al else al) kvs (add_section m al))"
    by (simp add: add_keys_def e)
  then have "has_key (add_keys shown (e # tree) al) n k \<longleftrightarrow>
      has_key al n k \<or> (n = m \<and> shown k \<and> (\<exists>v. (k, v) \<in> set kvs)) \<or> (shown k \<and> tree_has_key tree n k)"
    by (simp only: Cons.IH fold_add_key [OF sections_add_section] has_key_add_section disj_assoc)
  then show ?case by (auto simp: e tree_has_key_def)
qed

text \<open>The records \<open>print_sections\<close> writes.\<close>

definition section_items :: "whole \<Rightarrow> string \<times> string list \<Rightarrow> monitor_record list" where
  "section_items conf = (\<lambda>(n, ks).
     List.map_filter (\<lambda>k. map_option (M_config_item n k) (Option.bind (wh_sections conf n) (\<lambda>m. m k))) ks)"

lemma print_keys_monitor:
  "print_keys quiet n (wh_sections conf n) ks c = (c', Inr u) \<Longrightarrow>
     con_monitor c' = map_option (\<lambda>log. log @ section_items conf (n, ks)) (con_monitor c)"
proof (induction ks arbitrary: c)
  case Nil
  then show ?case by (cases "con_monitor c") (auto simp: section_items_def map_filter_simps)
next
  case (Cons k ks)
  obtain m where m: "wh_sections conf n = Some m" using Cons.prems by (auto split: option.splits)
  show ?case
  proof (cases "m k")
    case None
    then show ?thesis using Cons m by (simp add: section_items_def map_filter_simps)
  next
    case (Some v)
    then show ?thesis
      using Cons m by (cases "con_monitor c") (fastforce simp: section_items_def map_filter_simps Let_def)+
  qed
qed

lemma print_sections_monitor:
  "print_sections quiet conf al c = (c', Inr u) \<Longrightarrow>
     con_monitor c' = map_option (\<lambda>log. log @ concat (map (section_items conf) al)) (con_monitor c)"
proof (induction al arbitrary: c)
  case Nil
  then show ?case by (cases "con_monitor c") auto
next
  case (Cons e al)
  obtain n ks where e: "e = (n, ks)" by fastforce
  let ?c = "if quiet then c else cout (''['' @ n @ '']'' @ nl) c"
  obtain d where d: "print_keys quiet n (wh_sections conf n) ks ?c = (d, Inr ())"
    "print_sections quiet conf al d = (c', Inr u)"
    using Cons.prems by (auto simp: e Let_def split: prod.splits sum.splits)
  show ?case
    using print_keys_monitor [OF d(1)] Cons.IH [OF d(2)] by (cases "con_monitor c") (auto simp: e)
qed

lemma set_section_items:
  "set (concat (map (section_items conf) al)) =
     {M_config_item n k v | n k v. has_key al n k \<and> Option.bind (wh_sections conf n) (\<lambda>m. m k) = Some v}"
proof -
  have "set (section_items conf (n, ks)) =
          {M_config_item n k v | k v. k \<in> set ks \<and> Option.bind (wh_sections conf n) (\<lambda>m. m k) = Some v}" for n ks
    by (force simp: section_items_def map_filter_def)
  then have "r \<in> set (section_items conf (n, ks)) \<longleftrightarrow>
      (\<exists>k v. r = M_config_item n k v \<and> k \<in> set ks \<and> Option.bind (wh_sections conf n) (\<lambda>m. m k) = Some v)" for r n ks
    by auto
  then show ?thesis
    by (auto simp: has_key_def) blast
qed

section \<open>Properties: \<open>tgctl config\<close> and the default configuration\<close>

text \<open>C32: \<open>tgctl config\<close> reports the configuration in effect and nothing else: when it returns ok the monitor
  log is complete and successful, and its items are exactly the settings that have a value and are named
  in the file, or named in the default configuration and not reserved for developers (unless
  \<^verbatim>\<open>--show_dev\<close> is given).\<close>

theorem config_reports_settings:
  assumes "config ce ge flags_conf c = (c', Inr rc_ok)" "ge_monitor ge \<noteq> []"
  shows "\<exists>bc conf items.
     get_configuration ce (create_bootstrap_configuration ce flags_conf) = (bc, Inr (Some conf)) \<and>
     con_monitor c' = Some (M_start # items @ [M_finish reason_absent]) \<and>
     set items = {M_config_item n k v | n k v.
       Option.bind (wh_sections conf n) (\<lambda>m. m k) = Some v \<and>
       (default_key_shown (ge_show_dev ge) k \<and> tree_has_key (ge_read_default ge) n k \<or>
        (\<exists>tree. ge_conf_file_exists ge \<and> ge_read_file ge = Inr tree \<and> tree_has_key tree n k))}"
proof -
  let ?c = "open_monitor (ge_monitor ge \<noteq> []) c"
  let ?al = "add_keys (default_key_shown (ge_show_dev ge)) (ge_read_default ge) []"
  obtain bc bc' w conf tree d where get: "get_configuration ce (create_bootstrap_configuration ce flags_conf) = (bc, Inr (Some w))"
    "get_configuration ce bc = (bc', Inr (Some conf))"
    and tree: "(if ge_conf_file_exists ge then ge_read_file ge else Inr []) = Inr tree"
    and print: "print_sections (ge_quiet ge) conf (add_keys (\<lambda>k. True) tree ?al) ?c = (d, Inr ())"
    and c': "c' = finish reason_absent d"
    using assms(1)
    by (auto simp: config_def Let_def split: if_split_asm prod.split_asm sum.split_asm option.split_asm)
  have "conf = w" using get get_configuration_again [OF get(1)] by simp
  moreover have "con_monitor c' = Some (M_start #
      concat (map (section_items conf) (add_keys (\<lambda>k. True) tree ?al)) @ [M_finish reason_absent])"
    using print_sections_monitor [OF print] c' assms(2) by simp
  moreover have "has_key (add_keys (\<lambda>k. True) tree ?al) n k \<longleftrightarrow>
      default_key_shown (ge_show_dev ge) k \<and> tree_has_key (ge_read_default ge) n k \<or>
      (\<exists>tree. ge_conf_file_exists ge \<and> ge_read_file ge = Inr tree \<and> tree_has_key tree n k)" for n k
    using tree by (auto simp: has_key_add_keys split: if_splits)
  ultimately show ?thesis
    using get(1) set_section_items [of conf "add_keys (\<lambda>k. True) tree ?al"]
    by (intro exI conjI) (assumption | simp add: conj_commute)+
qed

definition sample_config_env :: config_env where
  "sample_config_env =
     \<lparr>ge_monitor = ''m.log'', ge_quiet = True, ge_show_dev = False, ge_authenticate = None,
      ge_read_default = [(''system'', [(''instance_id'', []), (''dev_x'', ''1'')])],
      ge_read_file = Inr [(''system'', [(''pid_directory'', ''/var/lock'')])], ge_conf_file_exists = True\<rparr>"

definition config_sample_run :: "console \<times> return_code outcome" where
  "config_sample_run = config sample_conf_env sample_config_env [] fresh_console"

lemma config_sample_run_ok: "snd config_sample_run = Inr rc_ok"
  by code_simp

theorem config_reports_settings_witness:
  "\<exists>items. con_monitor (fst config_sample_run) = Some (M_start # items @ [M_finish reason_absent])"
  using config_reports_settings [of sample_conf_env sample_config_env "[]" fresh_console "fst config_sample_run"]
    config_sample_run_ok
  by (auto simp: config_sample_run_def sample_config_env_def prod_eq_iff)

text \<open>The sections of an INI text: a line in brackets opens a section, the other lines are its settings, with
  the text before the equals sign as the key.\<close>

definition setting_key :: "string \<Rightarrow> string" where
  "setting_key l = takeWhile (\<lambda>ch. ch \<noteq> CHR ''='') l"

fun ini_sections :: "string list \<Rightarrow> (string \<times> string list) list \<Rightarrow> (string \<times> string list) list" where
  "ini_sections [] acc = rev (map (\<lambda>(n, ks). (n, rev ks)) acc)"
| "ini_sections (l # ls) acc =
     (if l \<noteq> [] \<and> hd l = CHR ''['' then ini_sections ls ((butlast (tl l), []) # acc)
      else (case acc of
              [] \<Rightarrow> ini_sections ls acc
            | (n, ks) # acc \<Rightarrow> ini_sections ls ((n, setting_key l # ks) # acc)))"

definition well_formed_ini :: "string list \<Rightarrow> bool" where
  "well_formed_ini ls \<longleftrightarrow>
     ls \<noteq> [] \<and> take 1 (hd ls) = ''['' \<and>
     list_all (\<lambda>l. l \<noteq> [] \<and> (hd l = CHR ''['' \<and> last l = CHR '']'' \<or> List.member (tl l) (CHR ''=''))) ls \<and>
     distinct (map fst (ini_sections ls [])) \<and> list_all (\<lambda>(n, ks). distinct ks) (ini_sections ls [])"

definition ini_sets :: "string list \<Rightarrow> string \<Rightarrow> string \<Rightarrow> bool" where
  "ini_sets ls n k \<longleftrightarrow> list_ex (\<lambda>(n', ks). n' = n \<and> List.member ks k) (ini_sections ls [])"

lemma default_wellformed_cases:
  "well_formed_ini (default_configuration_lines True)" "well_formed_ini (default_configuration_lines False)"
  by code_simp+

text \<open>The built-in default configuration is well formed: it starts with a section, every other line is a
  section or a setting with a key, no section and no key of a section occurs twice, and it sets what the
  program reads without a check: \<open>instance_id\<close> and \<open>pid_directory\<close> of \<open>system\<close>, \<open>database_name\<close> of
  \<open>ipc_endpoint\<close>, \<open>url\<close> and \<open>enabled\<close> of \<open>authentication\<close>.\<close>

theorem default_configuration_wellformed:
  "well_formed_ini (default_configuration_lines altimeter) \<and>
   list_all (\<lambda>(n, k). ini_sets (default_configuration_lines altimeter) n k)
     [(''system'', ''instance_id''), (''system'', ''pid_directory''), (''ipc_endpoint'', ''database_name''),
      (''authentication'', ''url''), (''authentication'', ''enabled'')]"
proof -
  have "list_all (\<lambda>(n, k). ini_sets (default_configuration_lines True) n k \<and>
                           ini_sets (default_configuration_lines False) n k)
     [(''system'', ''instance_id''), (''system'', ''pid_directory''), (''ipc_endpoint'', ''database_name''),
      (''authentication'', ''url''), (''authentication'', ''enabled'')]"
    by code_simp
  then show ?thesis using default_wellformed_cases by (cases altimeter) simp_all
qed

end
