(* ===== verification/Process_State.thy ===== *)
theory Process_State
  imports Configuration
begin

section \<open>The state of a control command and the world it observes\<close>

text \<open>
  The commands of \<^verbatim>\<open>src/tateyama/process/control.cpp\<close> act on the lock file (the file system of
  \<open>Proc_Mutex\<close>), on the shared memory in which the server publishes its status
  (\<open>status_info::resource_status_memory\<close>, code that is not part of the program) and on processes.  The other
  processes run between any two system calls of the command: \<open>ctl_tick\<close> numbers the system calls, and
  \<open>world\<close> gives, for each of them, what the other processes have done to the file system since the last
  one and what the status memory and \<open>kill(pid, 0)\<close> answer.  All of this is arbitrary.  \<open>ctl_slept\<close> counts
  the milliseconds slept, \<open>ctl_effects\<close> lists what the command did to other processes and to shared memory.
\<close>

datatype server_state =
    state_initial | state_ready | state_activated | state_deactivating | state_deactivated | state_boot_error

datatype shutdown_type = shutdown_nothing | shutdown_graceful | shutdown_forceful

text \<open>\<open>framework::boot_mode\<close>; the other modes are given by their names.\<close>

datatype boot_mode =
    mode_database_server | mode_maintenance_server | mode_quiescent_server | mode_other string

datatype effect =
    Signal int nat
  | Spawn path "string list"
  | Request_shutdown shutdown_type
  | Remove_shm_entries string
  | Force_delete string

record flags =
  FLAGS_conf :: string
  FLAGS_monitor :: string
  FLAGS_label :: string
  FLAGS_quiesce :: bool
  FLAGS_maintenance_server :: bool
  FLAGS_start_mode :: string
  FLAGS_timeout :: int
  FLAGS_q :: bool
  FLAGS_quiet :: bool
  FLAGS_graceful :: bool
  FLAGS_forceful :: bool
  FLAGS_location :: string
  FLAGS_load :: bool
  FLAGS_tpch :: bool
  FLAGS_format :: string

definition default_flags :: flags where
  "default_flags =
     \<lparr>FLAGS_conf = [], FLAGS_monitor = [], FLAGS_label = [], FLAGS_quiesce = False, FLAGS_maintenance_server = False,
      FLAGS_start_mode = [], FLAGS_timeout = -1, FLAGS_q = False, FLAGS_quiet = False, FLAGS_graceful = False,
      FLAGS_forceful = False, FLAGS_location = ''./db'', FLAGS_load = False, FLAGS_tpch = False,
      FLAGS_format = ''json''\<rparr>"

record world =
  w_conf :: conf_env
  w_others :: "nat \<Rightarrow> file_system \<Rightarrow> file_system"
  w_attach :: "nat \<Rightarrow> string \<Rightarrow> bool"
  w_whole :: "nat \<Rightarrow> server_state"
  w_status_pid :: "nat \<Rightarrow> int"
  w_shutdown_request :: "nat \<Rightarrow> shutdown_type"
  w_request_shutdown :: "nat \<Rightarrow> shutdown_type \<Rightarrow> bool"
  w_alive :: "nat \<Rightarrow> int \<Rightarrow> bool"
  w_search_path :: "path \<Rightarrow> path"
  w_canonical :: "path \<Rightarrow> string + path"
  w_exists :: "path \<Rightarrow> bool"
  w_child :: int

record ctl = console +
  ctl_fs :: file_system
  ctl_tick :: nat
  ctl_slept :: nat
  ctl_effects :: "effect list"

definition new_ctl :: "file_system \<Rightarrow> ctl" where
  "new_ctl fs = \<lparr>con_out = [], con_err = [], con_monitor = None,
                 ctl_fs = fs, ctl_tick = 0, ctl_slept = 0, ctl_effects = []\<rparr>"

definition others :: "world \<Rightarrow> ctl \<Rightarrow> ctl" where
  "others w c = c\<lparr>ctl_fs := w_others w (ctl_tick c) (ctl_fs c), ctl_tick := Suc (ctl_tick c)\<rparr>"

definition usleep_ms :: "nat \<Rightarrow> ctl \<Rightarrow> ctl" where
  "usleep_ms n c = c\<lparr>ctl_slept := ctl_slept c + n\<rparr>"

definition emit :: "effect \<Rightarrow> ctl \<Rightarrow> ctl" where
  "emit e c = c\<lparr>ctl_effects := ctl_effects c @ [e]\<rparr>"

text \<open>The operations of \<open>proc_mutex\<close>, with the other processes running in between.\<close>

definition m_new :: "world \<Rightarrow> path \<Rightarrow> bool \<Rightarrow> ctl \<Rightarrow> ctl \<times> proc_mutex result" where
  "m_new w p throw_exception c =
     (let c = others w c
      in case pm_new (ctl_fs c) p False throw_exception of (fs, r) \<Rightarrow> (c\<lparr>ctl_fs := fs\<rparr>, r))"

definition m_check :: "world \<Rightarrow> proc_mutex \<Rightarrow> ctl \<Rightarrow> ctl \<times> proc_mutex \<times> lock_state" where
  "m_check w m c =
     (let c = others w c
      in case pm_check (ctl_fs c) m of (fs, m, st) \<Rightarrow> (c\<lparr>ctl_fs := fs\<rparr>, m, st))"

definition m_pid :: "world \<Rightarrow> proc_mutex \<Rightarrow> bool \<Rightarrow> ctl \<Rightarrow> ctl \<times> proc_mutex \<times> int outcome" where
  "m_pid w m do_check c =
     (let c = others w c
      in case pm_pid (ctl_fs c) m do_check of
           (fs, m, None) \<Rightarrow> (c\<lparr>ctl_fs := fs\<rparr>, m, Inl (Std_error ''pid''))
         | (fs, m, Some p) \<Rightarrow> (c\<lparr>ctl_fs := fs\<rparr>, m, Inr p))"

definition m_delete :: "world \<Rightarrow> proc_mutex \<Rightarrow> ctl \<Rightarrow> ctl" where
  "m_delete w m c = (let c = others w c in c\<lparr>ctl_fs := pm_delete (ctl_fs c) m\<rparr>)"

definition m_unlink :: "world \<Rightarrow> path \<Rightarrow> ctl \<Rightarrow> ctl" where
  "m_unlink w p c = (let c = others w c in c\<lparr>ctl_fs := sys_unlink (ctl_fs c) p\<rparr>)"

text \<open>\<open>kill(pid, 0) == 0\<close>\<close>

definition alive :: "world \<Rightarrow> int \<Rightarrow> ctl \<Rightarrow> ctl \<times> bool" where
  "alive w pid c = (others w c, w_alive w (ctl_tick c) pid)"

section \<open>\<open>server::status_info_bridge\<close>\<close>

definition status_file_prefix :: string where
  "status_file_prefix = ''tsurugidb-''"

definition status_file_name :: "string \<Rightarrow> string" where
  "status_file_name digest' = status_file_prefix @ digest' @ ''.stat''"

definition si_attach :: "world \<Rightarrow> string \<Rightarrow> ctl \<Rightarrow> ctl \<times> bool" where
  "si_attach w digest' c = (others w c, w_attach w (ctl_tick c) (status_file_name digest'))"

definition si_new :: "world \<Rightarrow> string \<Rightarrow> ctl \<Rightarrow> ctl \<times> unit result" where
  "si_new w digest' c =
     (case si_attach w digest' c of
        (c, True) \<Rightarrow> (c, Inr ())
      | (c, False) \<Rightarrow>
          (c, Inl (runtime_error reason_internal
                ([CHR ''c'', CHR ''a'', CHR ''n'', CHR 0x27] @ ''t find shared memory for status_info''))))"

definition si_pid :: "world \<Rightarrow> ctl \<Rightarrow> ctl \<times> int" where
  "si_pid w c = (others w c, w_status_pid w (ctl_tick c))"

definition si_whole :: "world \<Rightarrow> ctl \<Rightarrow> ctl \<times> server_state" where
  "si_whole w c = (others w c, w_whole w (ctl_tick c))"

definition si_is_shutdown_requested :: "world \<Rightarrow> ctl \<Rightarrow> ctl \<times> bool" where
  "si_is_shutdown_requested w c = (others w c, w_shutdown_request w (ctl_tick c) \<noteq> shutdown_nothing)"

definition si_request_shutdown :: "world \<Rightarrow> shutdown_type \<Rightarrow> ctl \<Rightarrow> ctl \<times> bool" where
  "si_request_shutdown w ty c =
     (emit (Request_shutdown ty) (others w c), w_request_shutdown w (ctl_tick c) ty)"

definition si_apply_shm_entry :: "string \<Rightarrow> ctl \<Rightarrow> ctl" where
  "si_apply_shm_entry digest' c = emit (Remove_shm_entries (status_file_name digest')) c"

definition si_force_delete :: "string \<Rightarrow> ctl \<Rightarrow> ctl" where
  "si_force_delete digest' c = emit (Force_delete (status_file_name digest')) c"

section \<open>Counting loops\<close>

text \<open>\<open>for (i = ...; i < n; i++)\<close>: the body returns \<open>Inl r\<close> when it leaves the loop with \<open>r\<close>, and
  \<open>Inr (k, s)\<close> when it goes on with the variables \<open>s\<close> after adding \<open>k\<close> to the counter.  The loop returns
  \<open>Inr s\<close> when the counter has reached \<open>n\<close>.\<close>

function for_loop ::
  "(nat \<Rightarrow> 's \<Rightarrow> ctl \<Rightarrow> ctl \<times> ('r + nat \<times> 's)) \<Rightarrow> nat \<Rightarrow> nat \<Rightarrow> 's \<Rightarrow> ctl \<Rightarrow> ctl \<times> ('r + 's)" where
  "for_loop body n i s c =
     (if i < n
      then (case body i s c of
              (c, Inl r) \<Rightarrow> (c, Inl r)
            | (c, Inr (k, s)) \<Rightarrow> for_loop body n (Suc (i + k)) s c)
      else (c, Inr s))"
  by pat_completeness auto
termination
  by (relation "measure (\<lambda>(body, n, i, s, c). n - i)") auto

declare for_loop.simps [simp del]

text \<open>The rule for loops: \<open>P\<close> holds at the start of every turn, \<open>Q\<close> at the end.\<close>

lemma for_loop_rule:
  assumes "for_loop body n i s c = (c', r)" "P i s c"
    and again: "\<And>j s d e k s'. j < n \<Longrightarrow> P j s d \<Longrightarrow> body j s d = (e, Inr (k, s')) \<Longrightarrow> P (Suc (j + k)) s' e"
    and leave: "\<And>j s d e x. j < n \<Longrightarrow> P j s d \<Longrightarrow> body j s d = (e, Inl x) \<Longrightarrow> Q e (Inl x)"
    and over: "\<And>j s d. n \<le> j \<Longrightarrow> P j s d \<Longrightarrow> Q d (Inr s)"
  shows "Q c' r"
  using assms(1,2)
proof (induction "n - i" arbitrary: i s c rule: less_induct)
  case less
  show ?case
  proof (cases "i < n")
    case False
    then show ?thesis using less.prems over [of i s c] by (subst (asm) for_loop.simps) auto
  next
    case True
    obtain d x where d: "body i s c = (d, x)" by fastforce
    show ?thesis
    proof (cases x)
      case (Inl y)
      then show ?thesis
        using less.prems True d leave by (subst (asm) for_loop.simps) auto
    next
      case (Inr z)
      obtain k s' where z: "z = (k, s')" by fastforce
      have "for_loop body n (Suc (i + k)) s' d = (c', r)"
        using less.prems(1) True d Inr z by (subst (asm) for_loop.simps) simp
      moreover have "P (Suc (i + k)) s' d"
        using again [OF True less.prems(2)] d Inr z by simp
      moreover have "n - Suc (i + k) < n - i" using True by simp
      ultimately show ?thesis by (rule less.hyps [rotated])
    qed
  qed
qed

section \<open>Simplification rules\<close>

text \<open>None of these operations writes to the console.\<close>

lemma others_simps [simp]:
  "con_monitor (others w c) = con_monitor c" "con_out (others w c) = con_out c" "con_err (others w c) = con_err c"
  "ctl_slept (others w c) = ctl_slept c" "ctl_effects (others w c) = ctl_effects c"
  "ctl_tick (others w c) = Suc (ctl_tick c)"
  by (simp_all add: others_def)

lemma usleep_ms_simps [simp]:
  "con_monitor (usleep_ms n c) = con_monitor c" "con_out (usleep_ms n c) = con_out c"
  "con_err (usleep_ms n c) = con_err c" "ctl_slept (usleep_ms n c) = ctl_slept c + n"
  "ctl_effects (usleep_ms n c) = ctl_effects c" "ctl_tick (usleep_ms n c) = ctl_tick c"
  "ctl_fs (usleep_ms n c) = ctl_fs c"
  by (simp_all add: usleep_ms_def)

lemma emit_simps [simp]:
  "con_monitor (emit e c) = con_monitor c" "con_out (emit e c) = con_out c"
  "con_err (emit e c) = con_err c" "ctl_slept (emit e c) = ctl_slept c"
  "ctl_effects (emit e c) = ctl_effects c @ [e]" "ctl_tick (emit e c) = ctl_tick c" "ctl_fs (emit e c) = ctl_fs c"
  by (simp_all add: emit_def)

lemma console_ctl_simps [simp]:
  "ctl_slept (cout s c) = ctl_slept c" "ctl_slept (cerr s c) = ctl_slept c"
  "ctl_slept (monitor_put r c) = ctl_slept c" "ctl_slept (open_monitor on c) = ctl_slept c"
  "ctl_effects (cout s c) = ctl_effects c" "ctl_effects (cerr s c) = ctl_effects c"
  "ctl_effects (monitor_put r c) = ctl_effects c" "ctl_effects (open_monitor on c) = ctl_effects c"
  "ctl_tick (cout s c) = ctl_tick c" "ctl_tick (cerr s c) = ctl_tick c"
  "ctl_tick (monitor_put r c) = ctl_tick c" "ctl_tick (open_monitor on c) = ctl_tick c"
  "ctl_fs (cout s c) = ctl_fs c" "ctl_fs (cerr s c) = ctl_fs c"
  "ctl_fs (monitor_put r c) = ctl_fs c" "ctl_fs (open_monitor on c) = ctl_fs c"
  by (simp_all add: console_defs)

text \<open>\<open>spends n c c'\<close>: from \<open>c\<close> to \<open>c'\<close> the command slept at most \<open>n\<close> milliseconds, wrote nothing to the
  monitor and did nothing to other processes.\<close>

definition spends :: "nat \<Rightarrow> ctl \<Rightarrow> ctl \<Rightarrow> bool" where
  "spends n c c' \<longleftrightarrow>
     con_monitor c' = con_monitor c \<and> ctl_effects c' = ctl_effects c \<and>
     ctl_tick c \<le> ctl_tick c' \<and> ctl_slept c \<le> ctl_slept c' \<and> ctl_slept c' \<le> ctl_slept c + n"

lemma spends_refl [simp]: "spends n c c"
  by (simp add: spends_def)

lemma spends_trans: "spends m c d \<Longrightarrow> spends n d e \<Longrightarrow> spends (m + n) c e"
  by (simp add: spends_def)

lemma spends_mono: "spends m c d \<Longrightarrow> m \<le> n \<Longrightarrow> spends n c d"
  by (simp add: spends_def)

lemma spends_simps [simp]:
  "spends n c (cout s d) = spends n c d" "spends n c (cerr s d) = spends n c d"
  "spends n c (d\<lparr>ctl_fs := fs\<rparr>) = spends n c d"
  by (auto simp: spends_def)

lemma spends_others: "spends n c d \<Longrightarrow> spends n c (others w d)"
  by (simp add: spends_def)

lemma spends_usleep: "spends n c d \<Longrightarrow> spends (n + k) c (usleep_ms k d)"
  by (simp add: spends_def)

lemma spends_m_new: "m_new w p b c = (c', r) \<Longrightarrow> spends 0 c c'"
  by (auto simp: m_new_def Let_def spends_others split: prod.splits)

lemma spends_m_check: "m_check w m c = (c', m', st) \<Longrightarrow> spends 0 c c'"
  by (auto simp: m_check_def Let_def spends_others split: prod.splits)

lemma spends_m_pid: "m_pid w m b c = (c', m', r) \<Longrightarrow> spends 0 c c'"
  by (auto simp: m_pid_def Let_def spends_others split: prod.splits option.splits)

lemma spends_m_delete [simp]: "spends n c d \<Longrightarrow> spends n c (m_delete w m d)"
  by (simp add: m_delete_def Let_def spends_others)

lemma spends_m_unlink [simp]: "spends n c d \<Longrightarrow> spends n c (m_unlink w p d)"
  by (simp add: m_unlink_def Let_def spends_others)

lemma spends_si:
  "alive w pid c = (c', b) \<Longrightarrow> spends 0 c c'"
  "si_attach w dg c = (c', b) \<Longrightarrow> spends 0 c c'"
  "si_new w dg c = (c', u) \<Longrightarrow> spends 0 c c'"
  "si_pid w c = (c', i) \<Longrightarrow> spends 0 c c'"
  "si_whole w c = (c', st) \<Longrightarrow> spends 0 c c'"
  "si_is_shutdown_requested w c = (c', b) \<Longrightarrow> spends 0 c c'"
  by (auto simp: alive_def si_attach_def si_new_def si_pid_def si_whole_def si_is_shutdown_requested_def
      spends_others split: prod.splits bool.splits)

lemmas spends_ops = spends_m_new spends_m_check spends_m_pid spends_si

lemma m_delete_simps [simp]:
  "con_monitor (m_delete w m c) = con_monitor c" "ctl_effects (m_delete w m c) = ctl_effects c"
  "ctl_slept (m_delete w m c) = ctl_slept c" "ctl_tick (m_delete w m c) = Suc (ctl_tick c)"
  by (simp_all add: m_delete_def Let_def)

lemma m_unlink_simps [simp]:
  "con_monitor (m_unlink w p c) = con_monitor c" "ctl_effects (m_unlink w p c) = ctl_effects c"
  "ctl_slept (m_unlink w p c) = ctl_slept c" "ctl_tick (m_unlink w p c) = Suc (ctl_tick c)"
  by (simp_all add: m_unlink_def Let_def)

end
