(* ===== verification/Process_Control.thy ===== *)
theory Process_Control
  imports Process_State
begin

section \<open>\<open>tgctl start\<close>, \<open>shutdown\<close>, \<open>kill\<close>, \<open>status\<close>, \<open>diagnostic\<close>, \<open>pid\<close>\<close>

text \<open>
  \<^verbatim>\<open>src/tateyama/process/control.cpp\<close>, function by function, over the state \<open>ctl\<close> and the arbitrary
  \<open>world\<close>.  The body of a loop that counts its turns up to \<open>check_count\<close> is a function of its own, run by
  \<open>for_loop\<close>; a count of \<open>INT64_MAX\<close> turns is kept as it is.
\<close>

definition server_name_string :: string where
  "server_name_string = ''tsurugidb''"

definition server_name_string_for_status :: string where
  "server_name_string_for_status = ''Tsurugi OLTP database''"

definition sleep_time_unit_regular :: nat where "sleep_time_unit_regular = 20"
definition sleep_time_unit_shutdown :: nat where "sleep_time_unit_shutdown = 1000"
definition check_count_startup :: nat where "check_count_startup = 500"
definition check_count_shutdown :: nat where "check_count_shutdown = 300"
definition check_count_status :: nat where "check_count_status = 10"
definition check_count_kill :: nat where "check_count_kill = 500"
definition sleep_time_unit_mutex :: nat where "sleep_time_unit_mutex = 50"

definition INT64_MAX :: nat where "INT64_MAX = 9223372036854775807"

text \<open>The number of turns of a waiting loop: the default, or what \<^verbatim>\<open>--timeout\<close> asks for.\<close>

definition check_count_of :: "int \<Rightarrow> nat \<Rightarrow> nat \<Rightarrow> nat" where
  "check_count_of timeout sleep_time_unit default_count =
     (if timeout > 0 then (1000 * nat timeout) div sleep_time_unit
      else if timeout = 0 then INT64_MAX
      else default_count)"

text \<open>The text of \<open>(sleep_time_unit * check_count) / 1000\<close>, a \<open>std::size_t\<close>.\<close>

definition seconds_text :: "nat \<Rightarrow> nat \<Rightarrow> string" where
  "seconds_text sleep_time_unit check_count = to_string ((sleep_time_unit * check_count) mod u64_limit div 1000)"

definition int_to_string :: "int \<Rightarrow> string" where
  "int_to_string i = (if i < 0 then ''-'' @ to_string (nat (- i)) else to_string (nat i))"

definition cout_unless :: "bool \<Rightarrow> string \<Rightarrow> ctl \<Rightarrow> ctl" where
  "cout_unless quiet s c = (if quiet then c else cout s c)"

subsection \<open>The state of the server\<close>

datatype status_check_result =
    sc_undefined | sc_error_in_conf_file_name | sc_error_in_create_conf | sc_no_file | sc_not_locked
  | sc_initial | sc_ready | sc_activated | sc_deactivating | sc_deactivated | sc_boot_error
  | sc_status_check_count_over | sc_error_in_file_mutex_check

fun check_result_of_state :: "server_state \<Rightarrow> status_check_result" where
  "check_result_of_state state_initial = sc_initial"
| "check_result_of_state state_ready = sc_ready"
| "check_result_of_state state_activated = sc_activated"
| "check_result_of_state state_deactivating = sc_deactivating"
| "check_result_of_state state_deactivated = sc_deactivated"
| "check_result_of_state state_boot_error = sc_boot_error"

text \<open>The loop over \<open>check_count_status\<close> attempts to read the status memory; the argument is the number of
  attempts left.\<close>

fun status_attempts :: "world \<Rightarrow> string \<Rightarrow> nat \<Rightarrow> ctl \<Rightarrow> ctl \<times> status_check_result" where
  "status_attempts w digest' 0 c = (c, sc_status_check_count_over)"
| "status_attempts w digest' (Suc n) c =
     (case si_new w digest' c of
        (c, Inl e) \<Rightarrow>
          if 0 < n then status_attempts w digest' n (usleep_ms sleep_time_unit_regular c)
          else (c, sc_status_check_count_over)
      | (c, Inr u) \<Rightarrow>
          (case si_whole w c of (c, st) \<Rightarrow> (c, check_result_of_state st)))"

definition status_check_internal_of ::
  "world \<Rightarrow> bootstrap_configuration \<Rightarrow> ctl \<Rightarrow> ctl \<times> status_check_result outcome" where
  "status_check_internal_of w bst_conf c =
     (if \<not> bc_valid bst_conf then (c, Inr sc_error_in_conf_file_name)
      else
        (case snd (get_configuration (w_conf w) bst_conf) of
           Inl e \<Rightarrow> (c, Inl e)
         | Inr None \<Rightarrow> (c, Inr sc_error_in_create_conf)
         | Inr (Some conf) \<Rightarrow>
             (case m_new w (bc_lock_file bst_conf) False c of
                (c, Inl e) \<Rightarrow> (c, Inl (Tgctl_error e))
              | (c, Inr file_mutex) \<Rightarrow>
                  (case m_check w file_mutex c of
                     (c, file_mutex, no_file) \<Rightarrow> (m_delete w file_mutex c, Inr sc_no_file)
                   | (c, file_mutex, not_locked) \<Rightarrow> (m_delete w file_mutex c, Inr sc_not_locked)
                   | (c, file_mutex, locked) \<Rightarrow>
                       (case status_attempts w (bc_digest (w_conf w) bst_conf) check_count_status c of
                          (c, r) \<Rightarrow> (m_delete w file_mutex c, Inr r))
                   | (c, file_mutex, lock_error) \<Rightarrow> (m_delete w file_mutex c, Inr sc_error_in_file_mutex_check)))))"

definition the_bst_conf :: "world \<Rightarrow> flags \<Rightarrow> bootstrap_configuration" where
  "the_bst_conf w fl = create_bootstrap_configuration (w_conf w) (FLAGS_conf fl)"

definition status_check_internal :: "world \<Rightarrow> flags \<Rightarrow> ctl \<Rightarrow> ctl \<times> status_check_result outcome" where
  "status_check_internal w fl c = status_check_internal_of w (the_bst_conf w fl) c"

definition is_running :: "world \<Rightarrow> flags \<Rightarrow> ctl \<Rightarrow> ctl \<times> bool outcome" where
  "is_running w fl c =
     (case status_check_internal w fl c of
        (c, Inl e) \<Rightarrow> (c, Inl e)
      | (c, Inr r) \<Rightarrow> (c, Inr (r = sc_activated)))"

subsection \<open>\<open>build_args\<close>\<close>

definition build_args :: "flags \<Rightarrow> boot_mode \<Rightarrow> ctl \<Rightarrow> ctl \<times> string list" where
  "build_args fl mode c =
     (let (c, args) =
        (case mode of
           mode_database_server \<Rightarrow> (c, [])
         | mode_maintenance_server \<Rightarrow> (c, [''--maintenance_server''])
         | mode_quiescent_server \<Rightarrow> (c, [''--quiesce''])
         | mode_other s \<Rightarrow> (cerr (''illegal framework boot-up mode: '' @ s @ nl) c, []))
      in (c, args @
             (if FLAGS_conf fl \<noteq> [] then [''--conf'', FLAGS_conf fl] else []) @
             (if FLAGS_label fl \<noteq> [] then [''--label'', FLAGS_label fl] else []) @
             (if FLAGS_location fl \<noteq> ''./db'' then [''--location'', FLAGS_location fl] else []) @
             (if FLAGS_load fl then [''--load''] else []) @
             (if FLAGS_tpch fl then [''--tpch''] else [])))"

subsection \<open>\<open>tgctl_kill\<close>\<close>

definition SIGHUP :: nat where "SIGHUP = 1"
definition SIGKILL :: nat where "SIGKILL = 9"

text \<open>One turn of the loop that waits for the lock to be released.\<close>

definition kill_turn ::
  "world \<Rightarrow> flags \<Rightarrow> proc_mutex \<Rightarrow> bootstrap_configuration \<Rightarrow> nat \<Rightarrow> unit \<Rightarrow> ctl
     \<Rightarrow> ctl \<times> (return_code outcome + nat \<times> unit)" where
  "kill_turn w fl file_mutex bst_conf i u c =
     (case status_check_internal w fl c of
        (c, Inl e) \<Rightarrow> (c, Inl (Inl e))
      | (c, Inr r) \<Rightarrow>
          if r = sc_not_locked
          then (let c = m_unlink w (pm_name file_mutex) c;
                    digest' = bc_digest (w_conf w) bst_conf
                in (case si_new w digest' c of
                      (c, Inl e) \<Rightarrow> (c, Inl (Inl (Tgctl_error e)))
                    | (c, Inr u) \<Rightarrow>
                        (let c = si_force_delete digest' (si_apply_shm_entry digest' c)
                         in (cout_unless (FLAGS_quiet fl)
                               (''successfully killed '' @ server_name_string @ ''.'' @ nl) c, Inl (Inr rc_ok)))))
          else (usleep_ms sleep_time_unit_regular c, Inr (0, ())))"

definition tgctl_kill ::
  "world \<Rightarrow> flags \<Rightarrow> proc_mutex \<Rightarrow> bootstrap_configuration \<Rightarrow> ctl \<Rightarrow> ctl \<times> proc_mutex \<times> return_code outcome" where
  "tgctl_kill w fl file_mutex bst_conf c =
     (case m_pid w file_mutex False c of
        (c, file_mutex, Inl e) \<Rightarrow> (c, file_mutex, Inl e)
      | (c, file_mutex, Inr pid) \<Rightarrow>
          if pid \<noteq> 0 then
            (let c = emit (Signal pid SIGKILL) (others w c);
                 check_count = check_count_of (FLAGS_timeout fl) sleep_time_unit_regular check_count_kill
             in (case for_loop (kill_turn w fl file_mutex bst_conf) check_count 0 () c of
                   (c, Inl r) \<Rightarrow> (c, file_mutex, r)
                 | (c, Inr u) \<Rightarrow>
                     (cout_unless (FLAGS_quiet fl)
                        (''could not kill '' @ server_name_string @ '' within '' @
                         seconds_text sleep_time_unit_regular check_count_kill @ '' seconds, as '' @
                         ''kill is still in progress.'' @ nl) c,
                      file_mutex, Inr rc_err)))
          else
            (cout_unless (FLAGS_quiet fl)
               (''could not kill '' @ server_name_string @ '' within '' @
                seconds_text sleep_time_unit_regular check_count_kill @ '' seconds, as '' @
                ''contents of the file ('' @ pm_name file_mutex @ '') cannot be used.'' @ nl) c,
             file_mutex, Inr rc_err))"

subsection \<open>\<open>tgctl_start\<close>\<close>

datatype start_check = chk_init | chk_ok | chk_another | chk_dead_abnormally

record start_wait =
  sw_result :: start_check
  sw_chkn :: nat
  sw_pid :: int
  sw_mutex :: "proc_mutex option"

text \<open>A turn of the first loop: until the child has stored its pid in the lock file.  The variables are
  \<open>pid_in_file_mutex\<close> and \<open>file_mutex\<close>.\<close>

definition pid_turn ::
  "world \<Rightarrow> path \<Rightarrow> int \<Rightarrow> nat \<Rightarrow> int \<times> proc_mutex option \<Rightarrow> ctl
     \<Rightarrow> ctl \<times> (start_wait outcome + nat \<times> int \<times> proc_mutex option)" where
  "pid_turn w lock_file child_pid i = (\<lambda>(pid_in_file_mutex, file_mutex) c.
     (case alive w child_pid c of
        (c, False) \<Rightarrow>
          (c, Inl (Inr \<lparr>sw_result = chk_dead_abnormally, sw_chkn = 0, sw_pid = pid_in_file_mutex,
                        sw_mutex = file_mutex\<rparr>))
      | (c, True) \<Rightarrow>
          (case (case file_mutex of Some m \<Rightarrow> (c, Inr m) | None \<Rightarrow> m_new w lock_file True c) of
             (c, Inl e) \<Rightarrow> (usleep_ms sleep_time_unit_regular c, Inr (0, pid_in_file_mutex, None))
           | (c, Inr m) \<Rightarrow>
               (case m_check w m c of
                  (c, m, st) \<Rightarrow>
                    if st = no_file
                    then (usleep_ms sleep_time_unit_regular c, Inr (0, pid_in_file_mutex, Some m))
                    else
                      (case m_pid w m False c of
                         (c, m, Inl e) \<Rightarrow> (m_delete w m c, Inl (Inl e))
                       | (c, m, Inr pid) \<Rightarrow>
                           if pid = 0 then (usleep_ms sleep_time_unit_regular c, Inr (0, pid, Some m))
                           else if child_pid = pid then
                             (c, Inl (Inr \<lparr>sw_result = chk_ok, sw_chkn = i, sw_pid = pid, sw_mutex = Some m\<rparr>))
                           else
                             (case alive w pid c of
                                (c, True) \<Rightarrow>
                                  (c, Inl (Inr \<lparr>sw_result = chk_another, sw_chkn = i, sw_pid = pid, sw_mutex = Some m\<rparr>))
                              | (c, False) \<Rightarrow> (usleep_ms sleep_time_unit_regular c, Inr (0, pid, Some m))))))))"

definition wait_for_pid :: "world \<Rightarrow> path \<Rightarrow> int \<Rightarrow> nat \<Rightarrow> ctl \<Rightarrow> ctl \<times> start_wait outcome" where
  "wait_for_pid w lock_file child_pid check_count c =
     (case for_loop (pid_turn w lock_file child_pid) check_count 0 (0, None) c of
        (c, Inl r) \<Rightarrow> (c, r)
      | (c, Inr (pid_in_file_mutex, file_mutex)) \<Rightarrow>
          (c, Inr \<lparr>sw_result = chk_init, sw_chkn = 0, sw_pid = pid_in_file_mutex, sw_mutex = file_mutex\<rparr>))"

text \<open>The second loop: until the status memory exists; \<open>Inl chkn\<close> when it was attached.\<close>

definition attach_turn :: "world \<Rightarrow> string \<Rightarrow> nat \<Rightarrow> unit \<Rightarrow> ctl \<Rightarrow> ctl \<times> (nat + nat \<times> unit)" where
  "attach_turn w digest' i u c =
     (case si_attach w digest' c of
        (c, True) \<Rightarrow> (c, Inl i)
      | (c, False) \<Rightarrow> (usleep_ms sleep_time_unit_regular c, Inr (0, ())))"

definition inconsistent_message :: "nat \<Rightarrow> string" where
  "inconsistent_message check_count =
     ''failed to confirm '' @ server_name_string @ '' launch within '' @
     seconds_text sleep_time_unit_regular check_count @ '' seconds, because ''"

text \<open>A turn of the third loop: until the server has left the states \<open>initial\<close> and \<open>ready\<close>.  \<open>Some rtnv\<close> is a
  \<open>return\<close> from within the loop, \<open>None\<close> a \<open>break\<close>.\<close>

definition activation_turn ::
  "world \<Rightarrow> flags \<Rightarrow> bootstrap_configuration \<Rightarrow> int \<Rightarrow> int \<Rightarrow> nat \<Rightarrow> nat \<Rightarrow> unit \<Rightarrow> ctl
     \<Rightarrow> ctl \<times> (return_code option outcome + nat \<times> unit)" where
  "activation_turn w fl bst_conf child_pid pid_in_file_mutex check_count i u c =
     (case si_pid w c of
        (c, pid_in_status_info) \<Rightarrow>
          if pid_in_status_info = 0 then (usleep_ms sleep_time_unit_regular c, Inr (0, ()))
          else if child_pid = pid_in_status_info then
            (case status_check_internal_of w bst_conf c of
               (c, Inl e) \<Rightarrow> (c, Inl (Inl e))
             | (c, Inr r) \<Rightarrow>
                 if r = sc_activated then
                   (cout_unless (FLAGS_quiet fl) (''successfully launched '' @ server_name_string @ ''.'' @ nl)
                      (finish reason_absent c), Inl (Inr (Some rc_ok)))
                 else if r = sc_not_locked \<or> r = sc_boot_error then
                   (cout_unless (FLAGS_quiet fl)
                      (''could not launch '' @ server_name_string @ '', as '' @ server_name_string @
                       '' exited due to some error.'' @ nl)
                      (finish reason_ambiguous c), Inl (Inr (Some rc_err)))
                 else if r = sc_no_file \<or> r = sc_initial \<or> r = sc_ready then
                   (usleep_ms sleep_time_unit_regular c, Inr (0, ()))
                 else if r = sc_deactivating \<or> r = sc_deactivated then
                   (cout_unless (FLAGS_quiet fl)
                      (''could not launch '' @ server_name_string @ '', as '' @ ''shutdown procedure for '' @
                       server_name_string @ '' is taking place now.'' @ nl) c, Inl (Inr None))
                 else if r = sc_status_check_count_over then (c, Inr (check_count_status, ()))
                 else
                   (cout_unless (FLAGS_quiet fl)
                      (inconsistent_message check_count @ ''the status information is inconsistent.'' @ nl) c,
                    Inl (Inr None)))
          else
            (cout_unless (FLAGS_quiet fl)
               (inconsistent_message check_count @ ''the pid stored in status_info('' @
                int_to_string pid_in_status_info @ '') and file_mutex('' @ int_to_string pid_in_file_mutex @
                '') do not match.'' @ nl) c, Inl (Inr None)))"

text \<open>The part of \<open>tgctl_start\<close> that confirms the launch of the child.  \<open>Inl rtnv\<close>: the function has returned;
  \<open>Inr (rtnv, reason)\<close>: it goes on to its end with these values.\<close>

definition destroy_mutex :: "world \<Rightarrow> proc_mutex option \<Rightarrow> ctl \<Rightarrow> ctl" where
  "destroy_mutex w mo c = (case mo of None \<Rightarrow> c | Some m \<Rightarrow> m_delete w m c)"

definition confirm_activation ::
  "world \<Rightarrow> flags \<Rightarrow> bootstrap_configuration \<Rightarrow> int \<Rightarrow> nat \<Rightarrow> start_wait \<Rightarrow> ctl
     \<Rightarrow> ctl \<times> (return_code + return_code \<times> reason) outcome" where
  "confirm_activation w fl bst_conf child_pid check_count sw c =
     (case for_loop (attach_turn w (bc_digest (w_conf w) bst_conf)) check_count (sw_chkn sw) () c of
        (c, Inl chkn) \<Rightarrow>
          (case for_loop (activation_turn w fl bst_conf child_pid (sw_pid sw) check_count) check_count chkn () c of
             (c, Inl (Inl e)) \<Rightarrow> (destroy_mutex w (sw_mutex sw) c, Inl e)
           | (c, Inl (Inr (Some rtnv))) \<Rightarrow> (destroy_mutex w (sw_mutex sw) c, Inr (Inl rtnv))
           | (c, r) \<Rightarrow>
               (destroy_mutex w (sw_mutex sw)
                  (cout_unless (FLAGS_quiet fl)
                     (inconsistent_message check_count @ ''the launch is still in progres.'' @ nl) c),
                Inr (Inr (rc_err, reason_timeout))))
      | (c, Inr u) \<Rightarrow>
          (let (c, mo) =
             (if FLAGS_quiet fl then (c, sw_mutex sw)
              else (case sw_mutex sw of
                      None \<Rightarrow> (c, None)
                    | Some m \<Rightarrow>
                        (case m_check w m c of
                           (c, m, st) \<Rightarrow>
                             (cout (if st = locked
                                    then inconsistent_message check_count @ ''the launch is still in progres.'' @ nl
                                    else ''could not launch '' @ server_name_string @ '', as '' @ server_name_string @
                                         '' exited due to some error.'' @ nl) c, Some m))))
           in (destroy_mutex w mo c, Inr (Inr (rc_err, reason_timeout)))))"

definition confirm_start ::
  "world \<Rightarrow> flags \<Rightarrow> bootstrap_configuration \<Rightarrow> int \<Rightarrow> ctl \<Rightarrow> ctl \<times> (return_code + return_code \<times> reason) outcome" where
  "confirm_start w fl bst_conf child_pid c =
     (let check_count = check_count_of (FLAGS_timeout fl) sleep_time_unit_regular check_count_startup
      in (case snd (get_configuration (w_conf w) bst_conf) of
            Inl e \<Rightarrow> (c, Inl e)
          | Inr None \<Rightarrow>
              (cout_unless (FLAGS_quiet fl)
                 (''could not launch '' @ server_name_string @ '', as the configuration file cannot be found.'' @ nl) c,
               Inr (Inr (rc_err, reason_not_found)))
          | Inr (Some conf) \<Rightarrow>
              (case wait_for_pid w (bc_lock_file bst_conf) child_pid check_count c of
                 (c, Inl e) \<Rightarrow> (c, Inl e)
               | (c, Inr sw) \<Rightarrow>
                   (case sw_result sw of
                      chk_ok \<Rightarrow> confirm_activation w fl bst_conf child_pid check_count sw c
                    | chk_another \<Rightarrow>
                        (destroy_mutex w (sw_mutex sw)
                           (cout_unless (FLAGS_quiet fl)
                              (''could not launch '' @ server_name_string @ '' as '' @ server_name_string @
                               '' is already running.'' @ nl) c),
                         Inr (Inr (rc_err, reason_another_process)))
                    | chk_dead_abnormally \<Rightarrow>
                        (destroy_mutex w (sw_mutex sw)
                           (cout_unless (FLAGS_quiet fl)
                              (''could not launch '' @ server_name_string @ '', as '' @ server_name_string @
                               '' has exited abnormally.'' @ nl) c),
                         Inr (Inr (rc_err, reason_internal)))
                    | chk_init \<Rightarrow>
                        (destroy_mutex w (sw_mutex sw)
                           (cout_unless (FLAGS_quiet fl)
                              (inconsistent_message check_count @ ''it failed to check server status.'' @ nl) c),
                         Inr (Inr (rc_err, reason_ambiguous)))))))"

text \<open>\<^verbatim>\<open>--start_mode\<close>: \<open>None\<close> when the command goes on, \<open>Some rtnv\<close> when it has returned.\<close>

definition start_force ::
  "world \<Rightarrow> flags \<Rightarrow> bootstrap_configuration \<Rightarrow> ctl \<Rightarrow> ctl \<times> return_code option outcome" where
  "start_force w fl bst_conf c =
     (if FLAGS_start_mode fl = [] then (c, Inr None)
      else if FLAGS_start_mode fl = ''force'' then
        (case m_new w (bc_lock_file bst_conf) True c of
           (c, Inl e) \<Rightarrow> (c, Inl (Tgctl_error e))
         | (c, Inr file_mutex) \<Rightarrow>
             (case tgctl_kill w fl file_mutex bst_conf c of
                (c, file_mutex, Inl e) \<Rightarrow> (m_delete w file_mutex c, Inl e)
              | (c, file_mutex, Inr rtnv) \<Rightarrow>
                  if rtnv \<noteq> rc_ok
                  then (m_delete w file_mutex
                          (finish reason_initialization (cerr (''cannot tgctl kill before start'' @ nl) c)),
                        Inr (Some rc_err))
                  else (m_delete w file_mutex c, Inr None)))
      else (finish reason_invalid_argument
              (cerr (''only \"force\" can be specified for the start-mode'' @ nl) c), Inr (Some rc_err)))"

subsection \<open>\<open>get_base_path\<close> (\<^verbatim>\<open>process.h\<close>)\<close>

text \<open>\<open>parent_path\<close> of a canonical path: without its last element.\<close>

definition parent_path :: "path \<Rightarrow> path" where
  "parent_path p =
     (let d = rev (dropWhile (\<lambda>ch. ch \<noteq> CHR ''/'') (rev p))
      in if length d \<le> 1 then d else butlast d)"

definition get_base_path :: "world \<Rightarrow> string \<Rightarrow> ctl \<Rightarrow> ctl \<times> path outcome" where
  "get_base_path w argv0 c =
     (case w_canonical w (if parent_path argv0 = [] then w_search_path w argv0 else argv0) of
        Inl msg \<Rightarrow> (c, Inl (Std_error msg))
      | Inr path_for_this \<Rightarrow>
          (let c = (if w_exists w path_for_this then c else cerr (''cannot find '' @ path_for_this @ ''n'') c)
           in (case w_canonical w path_for_this of
                 Inl msg \<Rightarrow> (c, Inl (Std_error msg))
               | Inr p \<Rightarrow> (c, Inr (parent_path (parent_path p))))))"

definition tgctl_start ::
  "world \<Rightarrow> flags \<Rightarrow> string \<Rightarrow> bool \<Rightarrow> boot_mode \<Rightarrow> ctl \<Rightarrow> ctl \<times> return_code outcome" where
  "tgctl_start w fl argv0 need_check mode c =
     (let c = open_monitor (FLAGS_monitor fl \<noteq> [] \<and> need_check) c;
          bst_conf = the_bst_conf w fl
      in if bc_valid bst_conf then
           (case start_force w fl bst_conf c of
              (c, Inl e) \<Rightarrow> (c, Inl e)
            | (c, Inr (Some rtnv)) \<Rightarrow> (c, Inr rtnv)
            | (c, Inr None) \<Rightarrow>
                (case status_check_internal_of w bst_conf c of
                   (c, Inl e) \<Rightarrow> (c, Inl e)
                 | (c, Inr state) \<Rightarrow>
                     if state = sc_initial \<or> state = sc_ready \<or> state = sc_activated \<or> state = sc_deactivating
                     then (finish reason_another_process
                             (cout_unless (FLAGS_quiet fl)
                                (''could not launch '' @ server_name_string @ '', as '' @ server_name_string @
                                 '' is already running.'' @ nl) c), Inr rc_err)
                     else
                       (case get_base_path w argv0 c of
                          (c, Inl (Tgctl_error e)) \<Rightarrow> (cerr (what e @ nl) c, Inr rc_err)
                        | (c, Inl e) \<Rightarrow> (c, Inl e)
                        | (c, Inr base_path) \<Rightarrow>
                            (case build_args fl mode c of
                               (c, args) \<Rightarrow>
                                 (let exec = path_append (path_append base_path ''libexec'') server_name_string;
                                      c = emit (Spawn exec args) (others w c);
                                      child_pid = w_child w
                                  in if need_check then
                                       (case confirm_start w fl bst_conf child_pid c of
                                          (c, Inl e) \<Rightarrow> (c, Inl e)
                                        | (c, Inr (Inl rtnv)) \<Rightarrow> (c, Inr rtnv)
                                        | (c, Inr (Inr (rtnv, reason))) \<Rightarrow> (finish reason c, Inr rtnv))
                                     else (c, Inr rc_ok))))))
         else
           (finish reason_not_found
              (cout_unless (FLAGS_quiet fl)
                 (''could not launch '' @ server_name_string @ '', as there is no valid configuration file.'' @ nl) c),
            Inr rc_err))"

subsection \<open>\<open>tgctl_shutdown\<close> and \<open>tgctl_shutdown_kill\<close>\<close>

text \<open>A turn of the loop that waits until the lock file has gone; the variables are \<open>dot\<close>, which tells whether
  a dot has been printed, and the mutex object.\<close>

definition shutdown_turn ::
  "world \<Rightarrow> flags \<Rightarrow> nat \<Rightarrow> bool \<times> proc_mutex \<Rightarrow> ctl \<Rightarrow> ctl \<times> (proc_mutex + nat \<times> bool \<times> proc_mutex)" where
  "shutdown_turn w fl i = (\<lambda>(dot, file_mutex) c.
     (case m_check w file_mutex c of
        (c, file_mutex, st) \<Rightarrow>
          if st = no_file
          then (cout_unless (FLAGS_quiet fl) (''successfully shutdown '' @ server_name_string @ ''.'' @ nl)
                  (if dot then cout nl c else c), Inl file_mutex)
          else (cout ''.'' (usleep_ms sleep_time_unit_shutdown c), Inr (0, True, file_mutex))))"

definition tgctl_shutdown ::
  "world \<Rightarrow> flags \<Rightarrow> proc_mutex \<Rightarrow> ctl \<Rightarrow> ctl \<times> proc_mutex \<times> return_code" where
  "tgctl_shutdown w fl file_mutex c =
     (if FLAGS_graceful fl \<and> FLAGS_forceful fl then
        (cout (''shutdown was not performed, as both forceful and graceful options specified'' @ nl) c, file_mutex, rc_err)
      else
        (let shutdown_type = (if FLAGS_graceful fl then shutdown_graceful else shutdown_forceful)
         in (case si_request_shutdown w shutdown_type c of
               (c, False) \<Rightarrow>
                 (cout_unless (FLAGS_quiet fl)
                    (''shutdown was not performed, as shutdown is already requested.'' @ nl) c, file_mutex, rc_err)
             | (c, True) \<Rightarrow>
                 (let c = usleep_ms sleep_time_unit_mutex c;
                      check_count = check_count_of (FLAGS_timeout fl) sleep_time_unit_shutdown check_count_shutdown
                  in (case for_loop (shutdown_turn w fl) check_count 0 (False, file_mutex) c of
                        (c, Inl file_mutex) \<Rightarrow> (c, file_mutex, rc_ok)
                      | (c, Inr (dot, file_mutex)) \<Rightarrow>
                          (cout_unless (FLAGS_quiet fl)
                             (''could not shutdown '' @ server_name_string @ '' within '' @
                              seconds_text sleep_time_unit_shutdown check_count @
                              '' seconds, as shutdown is still in progress.'' @ nl)
                             (if dot then cout nl c else c), file_mutex, rc_err))))))"

text \<open>The body of the \<open>try\<close> block: \<open>Inl rtnv\<close> when the function has returned, \<open>Inr (rtnv, reason)\<close> when it goes
  on to its end, an exception in the outer sum.\<close>

definition shutdown_kill_body ::
  "world \<Rightarrow> flags \<Rightarrow> bool \<Rightarrow> bootstrap_configuration \<Rightarrow> ctl \<Rightarrow> ctl \<times> (return_code + return_code \<times> reason) outcome" where
  "shutdown_kill_body w fl force bst_conf c =
     (case status_check_internal_of w bst_conf c of
        (c, Inl e) \<Rightarrow> (c, Inl e)
      | (c, Inr state) \<Rightarrow>
          if state = sc_no_file \<or> state = sc_not_locked \<or> state = sc_deactivated then
            (finish reason_absent
               (cout_unless (FLAGS_quiet fl)
                  ((if force then ''kill '' else ''shutdown '') @ ''was not performed, as no '' @ server_name_string @
                   '' was running.'' @ nl) c), Inr (Inl rc_ok))
          else
            (case m_new w (bc_lock_file bst_conf) True c of
               (c, Inl e) \<Rightarrow> (c, Inl (Tgctl_error e))
             | (c, Inr file_mutex) \<Rightarrow>
                 if force then
                   (case tgctl_kill w fl file_mutex bst_conf c of
                      (c, file_mutex, Inl e) \<Rightarrow> (m_delete w file_mutex c, Inl e)
                    | (c, file_mutex, Inr rtnv) \<Rightarrow>
                        if rtnv = rc_ok then (m_delete w file_mutex (finish reason_absent c), Inr (Inl rtnv))
                        else (m_delete w file_mutex c, Inr (Inr (rtnv, reason_absent))))
                 else
                   (case si_new w (bc_digest (w_conf w) bst_conf) c of
                      (c, Inl e) \<Rightarrow> (m_delete w file_mutex c, Inl (Tgctl_error e))
                    | (c, Inr u) \<Rightarrow>
                        (case si_is_shutdown_requested w c of
                           (c, False) \<Rightarrow>
                             (case tgctl_shutdown w fl file_mutex c of
                                (c, file_mutex, rtnv) \<Rightarrow>
                                  if rtnv = rc_ok then (m_delete w file_mutex (finish reason_absent c), Inr (Inl rtnv))
                                  else (m_delete w file_mutex c, Inr (Inr (rtnv, reason_absent))))
                         | (c, True) \<Rightarrow>
                             (m_delete w file_mutex
                                (cout_unless (FLAGS_quiet fl)
                                   (''shutdown was not performed, as shutdown is already requested.'' @ nl) c),
                              Inr (Inr (rc_err, reason_invalid_status)))))))"

definition tgctl_shutdown_kill ::
  "world \<Rightarrow> flags \<Rightarrow> bool \<Rightarrow> bool \<Rightarrow> ctl \<Rightarrow> ctl \<times> return_code outcome" where
  "tgctl_shutdown_kill w fl force status_output c =
     (let c = open_monitor (FLAGS_monitor fl \<noteq> [] \<and> status_output) c;
          bst_conf = the_bst_conf w fl;
          verb = (if force then ''kill'' else ''shutdown'')
      in if bc_valid bst_conf then
           (case snd (get_configuration (w_conf w) bst_conf) of
              Inl e \<Rightarrow> (c, Inl e)
            | Inr None \<Rightarrow>
                (finish reason_initialization
                   (cout_unless (FLAGS_quiet fl) (verb @ '' was not performed, as error in create_configuration.'' @ nl) c),
                 Inr rc_err)
            | Inr (Some conf) \<Rightarrow>
                (case shutdown_kill_body w fl force bst_conf c of
                   (c, Inr (Inl rtnv)) \<Rightarrow> (c, Inr rtnv)
                 | (c, Inr (Inr (rtnv, reason))) \<Rightarrow> (finish reason c, Inr rtnv)
                 | (c, Inl (Tgctl_error e)) \<Rightarrow>
                     if FLAGS_quiet fl then (finish reason_absent c, Inr rc_err)
                     else if what e = ''the lock file does not exist''
                     then (finish reason_invalid_status
                             (cout (verb @ '' was not performed, as no '' @ server_name_string @ '' was running.'' @ nl) c),
                           Inr rc_err)
                     else (finish reason_ambiguous
                             (cout (verb @ '' was not performed, as '' @ what e @ ''.'' @ nl) c), Inr rc_err)
                 | (c, Inl e) \<Rightarrow> (c, Inl e)))
         else
           (finish reason_not_found
              (cout_unless (FLAGS_quiet fl)
                 (verb @ '' was not performed, as any valid configuration file cannot be found.'' @ nl) c),
            Inr rc_err))"

subsection \<open>\<open>tgctl_status\<close>\<close>

text \<open>What the command reports for a state: a status on the monitor or a line on the console; or an error with
  its message and reason.\<close>

fun status_report :: "status_check_result \<Rightarrow> (string \<times> reason) + (status \<times> string)" where
  "status_report sc_no_file = Inr (status_stop, ''INACTIVE'')"
| "status_report sc_initial = Inr (status_ready, ''BOOTING_UP'')"
| "status_report sc_ready = Inr (status_ready, ''BOOTING_UP'')"
| "status_report sc_activated = Inr (status_activated, ''RUNNING'')"
| "status_report sc_deactivating = Inr (status_deactivating, ''SHUTTING_DOWN'')"
| "status_report sc_deactivated = Inr (status_deactivated, ''INACTIVE'')"
| "status_report sc_status_check_count_over =
     Inl (''cannot check the state within the specified time'', reason_timeout)"
| "status_report sc_not_locked = Inr (status_unknown, ''UNKNOWN'')"
| "status_report sc_error_in_create_conf = Inl (''error in create_configuration'', reason_initialization)"
| "status_report sc_error_in_conf_file_name = Inl (''cannot find any valid configuration file'', reason_not_found)"
| "status_report r = Inl (''should not reach here'', reason_ambiguous)"

definition tgctl_status :: "world \<Rightarrow> flags \<Rightarrow> ctl \<Rightarrow> ctl \<times> return_code outcome" where
  "tgctl_status w fl c =
     (let c = open_monitor (FLAGS_monitor fl \<noteq> []) c
      in (case status_check_internal w fl c of
            (c, Inl e) \<Rightarrow> (c, Inl e)
          | (c, Inr r) \<Rightarrow>
              (case status_report r of
                 Inr (stat, text) \<Rightarrow>
                   (finish reason_absent
                      (if con_monitor c \<noteq> None then monitor_put (M_status stat) c
                       else cout (server_name_string_for_status @ '' is '' @ text @ nl) c), Inr rc_ok)
               | Inl (message, reason) \<Rightarrow> (finish reason (cerr (message @ nl) c), Inr rc_err))))"

subsection \<open>\<open>get_pid\<close>, \<open>tgctl_diagnostic\<close> and \<open>tgctl_pid\<close>\<close>

text \<open>The loop of \<open>get_pid\<close> ends only when the lock file holds a pid: with \<open>fuel\<close> turns the result is \<open>None\<close> when
  it has not.\<close>

fun get_pid_loop :: "world \<Rightarrow> nat \<Rightarrow> proc_mutex \<Rightarrow> ctl \<Rightarrow> ctl \<times> int outcome option" where
  "get_pid_loop w 0 file_mutex c = (c, None)"
| "get_pid_loop w (Suc fuel) file_mutex c =
     (case m_pid w file_mutex True c of
        (c, file_mutex, Inl e) \<Rightarrow> (m_delete w file_mutex c, Some (Inl e))
      | (c, file_mutex, Inr pid) \<Rightarrow>
          if pid \<noteq> 0 then (m_delete w file_mutex c, Some (Inr pid))
          else get_pid_loop w fuel file_mutex (usleep_ms 10 c))"

definition get_pid :: "world \<Rightarrow> flags \<Rightarrow> nat \<Rightarrow> ctl \<Rightarrow> ctl \<times> int outcome option" where
  "get_pid w fl fuel c =
     (let bst_conf = the_bst_conf w fl
      in if bc_valid bst_conf then
           (case snd (get_configuration (w_conf w) bst_conf) of
              Inl e \<Rightarrow> (c, Some (Inl e))
            | Inr None \<Rightarrow>
                (c, Some (Inl (Tgctl_error (runtime_error reason_internal ''error in create_configuration''))))
            | Inr (Some conf) \<Rightarrow>
                (case m_new w (bc_lock_file bst_conf) True c of
                   (c, Inl e) \<Rightarrow> (c, Some (Inl (Tgctl_error e)))
                 | (c, Inr file_mutex) \<Rightarrow> get_pid_loop w fuel file_mutex c))
         else (c, Some (Inl (Tgctl_error
                 (runtime_error reason_internal ''cannot find any valid configuration file'')))))"

definition tgctl_diagnostic :: "world \<Rightarrow> flags \<Rightarrow> nat \<Rightarrow> ctl \<Rightarrow> ctl \<times> return_code outcome option" where
  "tgctl_diagnostic w fl fuel c =
     (case get_pid w fl fuel c of
        (c, None) \<Rightarrow> (c, None)
      | (c, Some (Inr pid)) \<Rightarrow> (emit (Signal pid SIGHUP) (others w c), Some (Inr rc_ok))
      | (c, Some (Inl (Tgctl_error e))) \<Rightarrow> (cerr (what e @ nl) c, Some (Inr rc_err))
      | (c, Some (Inl e)) \<Rightarrow> (c, Some (Inl e)))"

definition tgctl_pid :: "world \<Rightarrow> flags \<Rightarrow> nat \<Rightarrow> ctl \<Rightarrow> ctl \<times> return_code outcome option" where
  "tgctl_pid w fl fuel c =
     (case get_pid w fl fuel c of
        (c, None) \<Rightarrow> (c, None)
      | (c, Some (Inr pid)) \<Rightarrow> (cout (int_to_string pid @ nl) c, Some (Inr rc_ok))
      | (c, Some (Inl (Tgctl_error e))) \<Rightarrow> (cerr (what e @ nl) c, Some (Inr rc_err))
      | (c, Some (Inl e)) \<Rightarrow> (c, Some (Inl e)))"

end
