(* ===== verification/Process_Properties.thy ===== *)
theory Process_Properties
  imports Process_Control
begin

section \<open>Lemmas on the control commands\<close>

text \<open>
  What the functions of \<open>Process_Control\<close> do to the monitor log, to other processes and to the time spent.
\<close>

lemma open_log_finished:
  "open_log c \<Longrightarrow> con_monitor x = map_option (\<lambda>log. log @ [M_finish y]) (con_monitor c) \<Longrightarrow> finished_log y x"
  using open_log_finish [of c y] finished_log_cong [of x "finish y c"] by simp

lemma spends_cout_unless [simp]: "spends n c (cout_unless q s d) = spends n c d"
  by (simp add: cout_unless_def)

lemma cout_unless_simps [simp]:
  "con_monitor (cout_unless q s c) = con_monitor c" "ctl_effects (cout_unless q s c) = ctl_effects c"
  "ctl_slept (cout_unless q s c) = ctl_slept c" "ctl_fs (cout_unless q s c) = ctl_fs c"
  "ctl_tick (cout_unless q s c) = ctl_tick c"
  by (simp_all add: cout_unless_def)

lemma spends_destroy [simp]: "spends n c d \<Longrightarrow> spends n c (destroy_mutex w mo d)"
  by (simp add: destroy_mutex_def split: option.split)

lemma destroy_mutex_simps [simp]:
  "con_monitor (destroy_mutex w mo c) = con_monitor c" "ctl_effects (destroy_mutex w mo c) = ctl_effects c"
  "ctl_slept (destroy_mutex w mo c) = ctl_slept c" "ctl_tick c \<le> ctl_tick (destroy_mutex w mo c)"
  by (simp_all add: destroy_mutex_def split: option.split)

lemma spends_zero_trans: "spends 0 c d \<Longrightarrow> spends n d e \<Longrightarrow> spends n c e"
  using spends_trans by fastforce

lemma spends_trans_zero: "spends n c d \<Longrightarrow> spends 0 d e \<Longrightarrow> spends n c e"
  using spends_trans by fastforce

subsection \<open>\<open>status_check_internal\<close>\<close>

lemma status_attempts_spends:
  "status_attempts w dg n c = (c', r) \<Longrightarrow> spends (20 * (n - 1)) c c'"
proof (induction w dg n c arbitrary: c' rule: status_attempts.induct)
  case (1 w dg c)
  then show ?case by simp
next
  case (2 w dg n c)
  obtain d u where d: "si_new w dg c = (d, u)" by fastforce
  have sd: "spends 0 c d" using d by (rule spends_si)
  show ?case
  proof (cases u)
    case (Inl e)
    show ?thesis
    proof (cases n)
      case 0
      then show ?thesis using 2(2) d Inl sd by auto
    next
      case (Suc k)
      have "spends (20 * (n - 1)) (usleep_ms sleep_time_unit_regular d) c'"
        using "2.IH" 2(2) d Inl Suc by simp
      moreover have "spends (0 + 20) c (usleep_ms sleep_time_unit_regular d)"
        using spends_usleep [OF sd, of 20] by (simp add: sleep_time_unit_regular_def)
      ultimately show ?thesis using Suc spends_trans by fastforce
    qed
  next
    case (Inr v)
    then have "spends 0 d c'"
      using 2(2) d by (auto split: prod.splits intro: spends_si)
    then show ?thesis using sd by (meson spends_mono spends_zero_trans zero_le)
  qed
qed

text \<open>\<open>activated\<close> is reported only after the status memory said so.\<close>

lemma status_attempts_activated:
  "status_attempts w dg n c = (c', sc_activated) \<Longrightarrow>
     \<exists>t. ctl_tick c < t \<and> t < ctl_tick c' \<and> w_whole w t = state_activated"
proof (induction w dg n c arbitrary: c' rule: status_attempts.induct)
  case (1 w dg c)
  then show ?case by simp
next
  case (2 w dg n c)
  obtain d u where d: "si_new w dg c = (d, u)" by fastforce
  have tick: "ctl_tick d = Suc (ctl_tick c)"
    using d by (auto simp: si_new_def si_attach_def split: prod.splits bool.splits)
  show ?case
  proof (cases u)
    case (Inl e)
    then have "\<exists>t. ctl_tick (usleep_ms sleep_time_unit_regular d) < t \<and> t < ctl_tick c' \<and> w_whole w t = state_activated"
      using "2.IH" 2(2) d by (auto split: if_splits)
    then show ?thesis using tick by (auto intro: exI order.strict_trans)
  next
    case (Inr v)
    then have "c' = others w d" "check_result_of_state (w_whole w (ctl_tick d)) = sc_activated"
      using 2(2) d by (auto simp: si_whole_def)
    then show ?thesis
      using tick by (intro exI [of _ "ctl_tick d"]) (cases "w_whole w (ctl_tick d)"; simp)
  qed
qed

lemma status_check_spends:
  assumes "status_check_internal_of w bc c = (c', r)"
  shows "spends 180 c c'"
proof -
  have attempts: "spends 180 d e" if "status_attempts w dg check_count_status d = (e, q)" for dg d e q
    using status_attempts_spends [OF that] by (simp add: check_count_status_def)
  show ?thesis
    using assms
    by (auto simp: status_check_internal_of_def split: if_split_asm sum.split_asm option.split_asm prod.split_asm lock_state.split_asm
        dest!: spends_m_new spends_m_check attempts
        intro!: spends_m_delete intro: spends_zero_trans spends_mono)
qed

lemma status_check_activated:
  assumes "status_check_internal_of w bc c = (c', Inr sc_activated)"
  shows "\<exists>t. ctl_tick c < t \<and> t < ctl_tick c' \<and> w_whole w t = state_activated"
proof -
  obtain d m e m' f where steps: "m_new w (bc_lock_file bc) False c = (d, Inr m)" "m_check w m d = (e, m', locked)"
    "status_attempts w (bc_digest (w_conf w) bc) check_count_status e = (f, sc_activated)" "c' = m_delete w m' f"
    using assms
    by (auto simp: status_check_internal_of_def
        split: if_split_asm sum.split_asm option.split_asm prod.split_asm lock_state.split_asm)
  have "ctl_tick c \<le> ctl_tick e"
    using spends_m_new [OF steps(1)] spends_m_check [OF steps(2)] by (auto simp: spends_def)
  moreover obtain t where "ctl_tick e < t" "t < ctl_tick f" "w_whole w t = state_activated"
    using status_attempts_activated [OF steps(3)] by blast
  ultimately show ?thesis using steps(4) by (intro exI [of _ t]) simp
qed

subsection \<open>The waiting loops\<close>

lemma spends_turn: "spends 0 c d \<Longrightarrow> spends 20 c (usleep_ms sleep_time_unit_regular d)"
  using spends_usleep [of 0 c d 20] by (simp add: sleep_time_unit_regular_def)

text \<open>A loop whose turns sleep at most \<open>u\<close> milliseconds, and leave the rest alone, ends by running out of turns
  or in a turn that leaves it, and has slept at most \<open>u\<close> for every turn before.\<close>

definition turns_spend :: "nat \<Rightarrow> (nat \<Rightarrow> 's \<Rightarrow> ctl \<Rightarrow> ctl \<times> ('r + nat \<times> 's)) \<Rightarrow> bool" where
  "turns_spend u body \<longleftrightarrow> (\<forall>j s d e k s'. body j s d = (e, Inr (k, s')) \<longrightarrow> spends u d e)"

lemma for_loop_exit:
  assumes loop: "for_loop body n i s c = (c', r)" and turns: "turns_spend u body"
  shows "(\<exists>s'. r = Inr s' \<and> spends (u * (n - i)) c c') \<or>
         (\<exists>j s d x. i \<le> j \<and> j < n \<and> spends (u * (j - i)) c d \<and> body j s d = (c', Inl x) \<and> r = Inl x)"
  using loop
proof (rule for_loop_rule [where P = "\<lambda>j s d. i \<le> j \<and> spends (u * (min j n - i)) c d"])
  fix j s d e k s'
  assume j: "j < n" and inv: "i \<le> j \<and> spends (u * (min j n - i)) c d" and b: "body j s d = (e, Inr (k, s'))"
  have "spends u d e" using turns b unfolding turns_spend_def by blast
  then have step: "spends (u * Suc (j - i)) c e"
    using spends_trans [of "u * (j - i)" c d u e] inv j by (simp add: add.commute)
  have "Suc (j - i) \<le> min (Suc (j + k)) n - i" using inv j by auto
  then have "spends (u * (min (Suc (j + k)) n - i)) c e"
    by (rule spends_mono [OF step mult_le_mono2])
  then show "i \<le> Suc (j + k) \<and> spends (u * (min (Suc (j + k)) n - i)) c e" using inv by simp
next
  fix j s d
  assume "n \<le> j" "i \<le> j \<and> spends (u * (min j n - i)) c d"
  then have "spends (u * (n - i)) c d" by (simp add: min_absorb2)
  then show "(\<exists>s'. Inr s = Inr s' \<and> spends (u * (n - i)) c d) \<or>
         (\<exists>j sa da x. i \<le> j \<and> j < n \<and> spends (u * (j - i)) c da \<and> body j sa da = (d, Inl x) \<and> Inr s = Inl x)"
    by blast
next
  fix j s d e x
  assume "j < n" "i \<le> j \<and> spends (u * (min j n - i)) c d" "body j s d = (e, Inl x)"
  then show "(\<exists>s'. Inl x = Inr s' \<and> spends (u * (n - i)) c e) \<or>
         (\<exists>j sa d xa. i \<le> j \<and> j < n \<and> spends (u * (j - i)) c d \<and> body j sa d = (e, Inl xa) \<and> Inl x = Inl xa)"
    by (auto simp: min_absorb1)
qed simp

lemma pid_turn_spends:
  assumes "pid_turn w lf child i s c = (c', r)"
  shows "spends 20 c c' \<and> (\<forall>x. r = Inl x \<longrightarrow> spends 0 c c') \<and>
         (\<forall>sw. r = Inl (Inr sw) \<longrightarrow> sw_chkn sw \<le> i)"
proof -
  obtain pid mo where s: "s = (pid, mo)" by fastforce
  obtain d b where d: "alive w child c = (d, b)" by fastforce
  have cd: "spends 0 c d" using d by (rule spends_si)
  obtain e q where e: "(case mo of Some m \<Rightarrow> (d, Inr m) | None \<Rightarrow> m_new w lf True d) = (e, q)" by fastforce
  have ce: "spends 0 c e"
    using cd e by (auto split: option.splits dest: spends_m_new intro: spends_zero_trans)
  have after: "spends 0 c f" "spends 0 c g" "spends 0 c h"
    if "m_check w m e = (f, m', st)" "m_pid w m' False f = (g, m'', p)" "alive w pid' g = (h, a)" for m f m' st g m'' p pid' h a
    using ce spends_m_check [OF that(1)] spends_m_pid [OF that(2)] spends_si(1) [OF that(3)]
    by (blast intro: spends_zero_trans)+
  show ?thesis
  proof (cases "b \<and> (\<exists>m. q = Inr m)")
    case False
    then show ?thesis
      using assms s d e cd ce
      by (auto simp: pid_turn_def spends_turn split: sum.splits bool.splits intro: spends_mono)
  next
    case True
    then obtain m where m: b "q = Inr m" by blast
    obtain f m' st where f: "m_check w m e = (f, m', st)" by (cases "m_check w m e") auto
    obtain g m'' p where g: "m_pid w m' False f = (g, m'', p)" by (cases "m_pid w m' False f") auto
    obtain h a where h: "alive w (case p of Inr x \<Rightarrow> x | Inl e \<Rightarrow> 0) g = (h, a)" by fastforce
    note z = after [OF f g h]
    have "spends 20 c f" "spends 20 c g" "spends 20 c h" using z by (auto intro: spends_mono)
    then show ?thesis
      using assms s d e f g h m z spends_turn [OF z(1)] spends_turn [OF z(2)] spends_turn [OF z(3)]
      by (auto simp: pid_turn_def split: sum.splits bool.splits if_splits)
  qed
qed

lemma attach_turn_spends:
  assumes "attach_turn w dg i s c = (c', r)"
  shows "spends 20 c c' \<and> (\<forall>j. r = Inl j \<longrightarrow> spends 0 c c' \<and> j = i)"
  using assms
  by (auto simp: attach_turn_def spends_turn split: prod.splits bool.splits dest: spends_si(2) intro: spends_mono)

lemma pid_attach_turns: "turns_spend 20 (pid_turn w lf child)" "turns_spend 20 (attach_turn w dg)"
  unfolding turns_spend_def using pid_turn_spends attach_turn_spends by blast+

text \<open>A turn of the third loop goes on silently, leaves silently without a result, or returns the result it has
  just written to the monitor.\<close>

lemma activation_turn_cases:
  assumes "activation_turn w fl bc child pid n i u c = (c', r)"
  obtains (go) k where "r = Inr (k, ())" "spends 200 c c'"
  | (throw) e where "r = Inl (Inl e)" "spends 180 c c'"
  | (leave) "r = Inl (Inr None)" "spends 180 c c'"
  | (ok) d t t' where "r = Inl (Inr (Some rc_ok))" "spends 180 c d"
      "c' = cout_unless (FLAGS_quiet fl) (''successfully launched '' @ server_name_string @ ''.'' @ nl)
              (finish reason_absent d)"
      "w_status_pid w t = child" "child \<noteq> 0" "ctl_tick c \<le> t" "t < t'" "t' < ctl_tick d" "w_whole w t' = state_activated"
  | (failed) d s where "r = Inl (Inr (Some rc_err))" "spends 180 c d"
      "c' = cout_unless (FLAGS_quiet fl) s (finish reason_ambiguous d)"
proof -
  obtain d p where d: "si_pid w c = (d, p)" by fastforce
  have cd: "spends 0 c d" using d by (rule spends_si)
  have dt: "p = w_status_pid w (ctl_tick c)" "ctl_tick d = Suc (ctl_tick c)" using d by (auto simp: si_pid_def)
  obtain e q where e: "status_check_internal_of w bc d = (e, q)" by fastforce
  have ce: "spends 180 c e" using cd status_check_spends [OF e] by (rule spends_zero_trans)
  have ce': "spends 200 c (usleep_ms sleep_time_unit_regular e)"
    using spends_usleep [OF ce, of 20] by (simp add: sleep_time_unit_regular_def)
  have cd': "spends 200 c (usleep_ms sleep_time_unit_regular d)"
    using spends_turn [OF cd] by (rule spends_mono) simp
  have m: "spends 180 c d" "spends 200 c e" using cd ce by (auto intro: spends_mono)
  show thesis
  proof (cases "p = child \<and> p \<noteq> 0 \<and> q = Inr sc_activated")
    case True
    moreover obtain t' where "ctl_tick d < t'" "t' < ctl_tick e" "w_whole w t' = state_activated"
      using status_check_activated e True by blast
    ultimately show thesis
      using ok [of e "ctl_tick c" t'] assms d e ce dt by (simp add: activation_turn_def)
  next
    case False
    then show thesis
      using assms d e ce ce' cd' m go throw leave failed
      by (auto simp: activation_turn_def split: if_split_asm sum.split_asm)
  qed
qed

lemma activation_turns: "turns_spend 200 (activation_turn w fl bc child pid n)"
  unfolding turns_spend_def
proof (intro allI impI)
  fix j s d e k s'
  assume "activation_turn w fl bc child pid n j s d = (e, Inr (k, s'))"
  then show "spends 200 d e" by (cases rule: activation_turn_cases) auto
qed

subsection \<open>Confirming a launch\<close>

text \<open>\<open>concludes rc k c c'\<close>: from \<open>c\<close> to \<open>c'\<close> the command slept at most \<open>k\<close> milliseconds, did nothing to other
  processes and wrote to the monitor nothing but the end of a command with return code \<open>rc\<close>.\<close>

definition concludes :: "return_code \<Rightarrow> nat \<Rightarrow> ctl \<Rightarrow> ctl \<Rightarrow> bool" where
  "concludes rc k c c' \<longleftrightarrow>
     (\<exists>r. con_monitor c' = map_option (\<lambda>log. log @ [M_finish r]) (con_monitor c) \<and> (rc = rc_ok \<longleftrightarrow> r = reason_absent)) \<and>
     ctl_effects c' = ctl_effects c \<and> ctl_tick c \<le> ctl_tick c' \<and> ctl_slept c' \<le> ctl_slept c + k"

lemma concludesI:
  assumes "spends k c d" "con_monitor c' = con_monitor (finish r d)" "rc = rc_ok \<longleftrightarrow> r = reason_absent"
    and "ctl_effects c' = ctl_effects d" "ctl_tick d \<le> ctl_tick c'" "ctl_slept c' = ctl_slept d"
  shows "concludes rc k c c'"
  using assms by (auto simp: concludes_def spends_def)

lemma spends_concludes: "spends j c d \<Longrightarrow> concludes rc k d e \<Longrightarrow> concludes rc (j + k) c e"
  by (auto simp: concludes_def spends_def)

lemma concludes_mono: "concludes rc j c d \<Longrightarrow> j \<le> k \<Longrightarrow> concludes rc k c d"
  by (auto simp: concludes_def)

lemma concludes_destroy: "concludes rc k c d \<Longrightarrow> concludes rc k c (destroy_mutex w mo d)"
  using destroy_mutex_simps(4) [of d w mo] unfolding concludes_def by (auto intro: order.trans)

text \<open>What a launch that was confirmed has observed: the pid of the child in the status memory and, after it,
  the state \<open>activated\<close>.\<close>

definition saw_activated :: "world \<Rightarrow> ctl \<Rightarrow> ctl \<Rightarrow> bool" where
  "saw_activated w c c' \<longleftrightarrow>
     (\<exists>t t'. ctl_tick c \<le> t \<and> t < t' \<and> t' < ctl_tick c' \<and> w_child w \<noteq> 0 \<and>
             w_status_pid w t = w_child w \<and> w_whole w t' = state_activated)"

lemma activation_loop:
  assumes "for_loop (activation_turn w fl bc (w_child w) pid n) n i () c = (c', r)" "i < n"
  shows "case r of
      Inl (Inl e) \<Rightarrow> True
    | Inl (Inr (Some rc)) \<Rightarrow> concludes rc (200 * (n - i)) c c' \<and> (rc = rc_err \<or> saw_activated w c c')
    | _ \<Rightarrow> spends (200 * (n - i)) c c'"
proof -
  from for_loop_exit [OF assms(1) activation_turns]
  consider (over) s' where "r = Inr s'" "spends (200 * (n - i)) c c'"
    | (left) j s d x where "i \<le> j" "j < n" "spends (200 * (j - i)) c d"
        "activation_turn w fl bc (w_child w) pid n j s d = (c', Inl x)" "r = Inl x" by blast
  then show ?thesis
  proof cases
    case over
    then show ?thesis by simp
  next
    case left
    have bound: "200 * (j - i) + 180 \<le> 200 * (n - i)" using left by simp
    have end_up: "spends (200 * (n - i)) c e" if "spends 180 d e" for e
      using spends_trans [OF left(3) that] bound by (rule spends_mono)
    show ?thesis
      using left(4)
    proof (cases rule: activation_turn_cases)
      case (ok e t t')
      have "spends (200 * (n - i)) c e" using ok(2) by (rule end_up)
      then have "concludes rc_ok (200 * (n - i)) c c'"
        by (rule concludesI [where r = reason_absent]) (simp_all add: ok(3))
      moreover have "ctl_tick c \<le> ctl_tick d" using left(3) by (simp add: spends_def)
      then have "saw_activated w c c'"
        unfolding saw_activated_def using ok by (intro exI [of _ t] exI [of _ t']) simp
      ultimately show ?thesis using left(5) ok(1) by simp
    next
      case (failed e s')
      have "spends (200 * (n - i)) c e" using failed(2) by (rule end_up)
      then have "concludes rc_err (200 * (n - i)) c c'"
        by (rule concludesI [where r = reason_ambiguous]) (simp_all add: failed(3))
      then show ?thesis using left(5) failed(1) by simp
    qed (use left(5) end_up in auto)
  qed
qed

lemma confirm_activation_result:
  assumes "confirm_activation w fl bc (w_child w) n sw c = (c', r)" "sw_chkn sw < n"
  shows "case r of
      Inl e \<Rightarrow> True
    | Inr (Inl rc) \<Rightarrow> concludes rc (200 * (n - sw_chkn sw)) c c' \<and> (rc = rc_err \<or> saw_activated w c c')
    | Inr (Inr (rc, reason)) \<Rightarrow> rc = rc_err \<and> reason \<noteq> reason_absent \<and> spends (200 * (n - sw_chkn sw)) c c'"
proof -
  let ?i = "sw_chkn sw"
  obtain d q where d: "for_loop (attach_turn w (bc_digest (w_conf w) bc)) n ?i () c = (d, q)" by fastforce
  from for_loop_exit [OF d pid_attach_turns(2)]
  consider (over) u where "q = Inr u" "spends (20 * (n - ?i)) c d"
    | (attached) j s x where "?i \<le> j" "j < n" "spends (20 * (j - ?i)) c x"
        "attach_turn w (bc_digest (w_conf w) bc) j s x = (d, Inl j)" "q = Inl j"
    using attach_turn_spends by blast
  then show ?thesis
  proof cases
    case over
    have cd: "spends (200 * (n - ?i)) c d" using over(2) by (rule spends_mono) simp
    have "spends (200 * (n - ?i)) c e" if "m_check w m d = (e, m', st)" for m e m' st
      using cd spends_m_check [OF that] by (rule spends_trans_zero)
    then show ?thesis
      using assms(1) d over(1) cd
      by (auto simp: confirm_activation_def split: if_split_asm option.split_asm prod.split_asm intro!: spends_destroy)
  next
    case attached
    have cd: "spends (20 * (j - ?i)) c d"
      using attached(3,4) attach_turn_spends spends_trans_zero by blast
    obtain e z where e: "for_loop (activation_turn w fl bc (w_child w) (sw_pid sw) n) n j () d = (e, z)" by fastforce
    have time: "20 * (j - ?i) + 200 * (n - j) \<le> 200 * (n - ?i)" using attached by simp
    note loop = activation_loop [OF e attached(2)]
    have silent: "spends (200 * (n - ?i)) c e" if "spends (200 * (n - j)) d e"
      using spends_trans [OF cd that] time by (rule spends_mono)
    have conc: "concludes rc (200 * (n - ?i)) c e" if "concludes rc (200 * (n - j)) d e" for rc
      using spends_concludes [OF cd that] time by (rule concludes_mono)
    have saw: "saw_activated w c (destroy_mutex w (sw_mutex sw) e)" if "saw_activated w d e"
      using that cd destroy_mutex_simps(4) [of e w "sw_mutex sw"]
      unfolding saw_activated_def spends_def by (meson order.strict_trans2 order.trans)
    show ?thesis
      using assms(1) d attached(5) e loop silent conc saw
      by (auto simp: confirm_activation_def concludes_destroy split: sum.split_asm option.split_asm)
  qed
qed

lemma confirm_start_result:
  assumes "confirm_start w fl bc (w_child w) c = (c', r)"
  defines "n \<equiv> check_count_of (FLAGS_timeout fl) sleep_time_unit_regular check_count_startup"
  shows "case r of
      Inl e \<Rightarrow> True
    | Inr (Inl rc) \<Rightarrow> concludes rc (200 * n) c c' \<and> (rc = rc_err \<or> saw_activated w c c')
    | Inr (Inr (rc, reason)) \<Rightarrow> rc = rc_err \<and> reason \<noteq> reason_absent \<and> spends (200 * n) c c'"
proof (cases "snd (get_configuration (w_conf w) bc)")
  case (Inl e)
  then show ?thesis using assms(1) by (auto simp: confirm_start_def Let_def)
next
  case (Inr co)
  show ?thesis
  proof (cases co)
    case None
    then show ?thesis using assms(1) Inr by (auto simp: confirm_start_def Let_def)
  next
    case (Some conf)
    let ?lf = "bc_lock_file bc"
    obtain d q where d: "for_loop (pid_turn w ?lf (w_child w)) n 0 (0, None) c = (d, q)" by fastforce
    from for_loop_exit [OF d pid_attach_turns(1)]
    consider (over) s' where "q = Inr s'" "spends (20 * n) c d"
      | (left) j s x y where "j < n" "spends (20 * j) c x" "pid_turn w ?lf (w_child w) j s x = (d, Inl y)" "q = Inl y"
      by auto
    then show ?thesis
    proof cases
      case over
      have "spends (200 * n) c d" using over(2) by (rule spends_mono) simp
      then show ?thesis
        using assms(1) Inr Some d over(1)
        by (auto simp: confirm_start_def wait_for_pid_def n_def Let_def split: prod.split_asm)
    next
      case left
      note turn_end = pid_turn_spends [OF left(3)]
      have cd: "spends (20 * j) c d" using left(2) turn_end spends_trans_zero by blast
      have silent: "spends (200 * n) c d" using cd by (rule spends_mono) (use left(1) in simp)
      show ?thesis
      proof (cases "\<exists>sw. y = Inr sw \<and> sw_result sw = chk_ok")
        case False
        then show ?thesis
          using assms(1) Inr Some d left(4) silent
          by (auto simp: confirm_start_def wait_for_pid_def n_def Let_def split: sum.split_asm start_check.split_asm)
      next
        case True
        then obtain sw where sw: "y = Inr sw" "sw_result sw = chk_ok" by blast
        have chkn: "sw_chkn sw = j"
          using left(3) sw by (auto simp: pid_turn_def split: prod.split_asm bool.split_asm sum.split_asm if_split_asm)
        have run: "confirm_activation w fl bc (w_child w) n sw d = (c', r)"
          using assms(1) Inr Some d left(4) sw by (simp add: confirm_start_def wait_for_pid_def n_def Let_def)
        have time: "20 * j + 200 * (n - j) \<le> 200 * n" using left(1) by simp
        have "spends (200 * n) c c'" if "spends (200 * (n - j)) d c'"
          using spends_trans [OF cd that] time by (rule spends_mono)
        moreover have "concludes rc (200 * n) c c'" if "concludes rc (200 * (n - j)) d c'" for rc
          using spends_concludes [OF cd that] time by (rule concludes_mono)
        moreover have "saw_activated w c c'" if "saw_activated w d c'"
          using that cd unfolding saw_activated_def spends_def by (meson order.trans)
        ultimately show ?thesis
          using confirm_activation_result [OF run] chkn left(1) by (auto split: sum.split_asm prod.split_asm)
      qed
    qed
  qed
qed

subsection \<open>\<open>tgctl_kill\<close>\<close>

definition kill_count :: "flags \<Rightarrow> nat" where
  "kill_count fl = check_count_of (FLAGS_timeout fl) sleep_time_unit_regular check_count_kill"

definition cleanup :: "world \<Rightarrow> bootstrap_configuration \<Rightarrow> effect list" where
  "cleanup w bc = (let sf = status_file_name (bc_digest (w_conf w) bc) in [Remove_shm_entries sf, Force_delete sf])"

lemma kill_turn_cases:
  assumes "kill_turn w fl m bc i u c = (c', r)"
  obtains (go) "r = Inr (0, ())" "spends 200 c c'"
  | (throw) e where "r = Inl (Inl e)"
  | (killed) d where "r = Inl (Inr rc_ok)" "spends 180 c d" "con_monitor c' = con_monitor d"
      "ctl_effects c' = ctl_effects d @ cleanup w bc" "ctl_slept c' = ctl_slept d" "ctl_tick c' = ctl_tick d"
proof -
  obtain d q where d: "status_check_internal w fl c = (d, q)" by fastforce
  have cd: "spends 180 c d" using d status_check_spends unfolding status_check_internal_def by blast
  have cd': "spends 200 c (usleep_ms sleep_time_unit_regular d)"
    using spends_usleep [OF cd, of 20] by (simp add: sleep_time_unit_regular_def)
  let ?dg = "bc_digest (w_conf w) bc"
  obtain e u where e: "si_new w ?dg (m_unlink w (pm_name m) d) = (e, u)" by fastforce
  have ce: "spends 180 c e"
    using spends_m_unlink [OF cd] spends_si(3) [OF e] by (rule spends_trans_zero)
  show thesis
  proof (cases "q = Inr sc_not_locked \<and> (\<exists>v. u = Inr v)")
    case True
    then show thesis
      using killed [of e] assms d e ce
      by (auto simp: kill_turn_def Let_def si_force_delete_def si_apply_shm_entry_def cleanup_def)
  next
    case False
    then show thesis
      using assms d e cd' go throw
      by (auto simp: kill_turn_def Let_def split: sum.split_asm if_split_asm)
  qed
qed

lemma kill_turns: "turns_spend 200 (kill_turn w fl m bc)"
  unfolding turns_spend_def
proof (intro allI impI)
  fix j s d e k s'
  assume "kill_turn w fl m bc j s d = (e, Inr (k, s'))"
  then show "spends 200 d e" by (cases rule: kill_turn_cases) auto
qed

lemma tgctl_kill_result:
  assumes "tgctl_kill w fl m bc c = (c', m', Inr rc)"
  shows "con_monitor c' = con_monitor c \<and> ctl_tick c \<le> ctl_tick c' \<and>
         ctl_slept c' \<le> ctl_slept c + 200 * kill_count fl \<and>
         (case rc of
            rc_ok \<Rightarrow> \<exists>pid. pid \<noteq> 0 \<and> ctl_effects c' = ctl_effects c @ Signal pid SIGKILL # cleanup w bc
          | rc_err \<Rightarrow> ctl_effects c' = ctl_effects c \<or>
                      (\<exists>pid. pid \<noteq> 0 \<and> ctl_effects c' = ctl_effects c @ [Signal pid SIGKILL]))"
proof -
  obtain d m1 p where d: "m_pid w m False c = (d, m1, p)" by (cases "m_pid w m False c") auto
  have cd: "spends 0 c d" using d by (rule spends_m_pid)
  show ?thesis
  proof (cases "\<exists>pid. p = Inr pid \<and> pid \<noteq> 0")
    case False
    then show ?thesis
      using assms d cd by (auto simp: tgctl_kill_def spends_def split: sum.split_asm if_split_asm)
  next
    case True
    then obtain pid where pid: "p = Inr pid" "pid \<noteq> 0" by blast
    let ?s = "emit (Signal pid SIGKILL) (others w d)"
    obtain e q where e: "for_loop (kill_turn w fl m1 bc) (kill_count fl) 0 () ?s = (e, q)" by fastforce
    have start: "con_monitor ?s = con_monitor c" "ctl_effects ?s = ctl_effects c @ [Signal pid SIGKILL]"
      "ctl_slept ?s = ctl_slept c" "ctl_tick c \<le> ctl_tick ?s"
      using cd by (simp_all add: spends_def)
    note run = assms d pid e kill_count_def
    from for_loop_exit [OF e kill_turns]
    consider (over) u where "q = Inr u" "spends (200 * kill_count fl) ?s e"
      | (left) j s x y where "j < kill_count fl" "spends (200 * j) ?s x" "kill_turn w fl m1 bc j s x = (e, Inl y)" "q = Inl y"
      by auto
    then show ?thesis
    proof cases
      case over
      then show ?thesis
        using run start by (auto simp: tgctl_kill_def Let_def spends_def)
    next
      case left
      have y: "y = Inr rc" "c' = e" using run left(4) by (auto simp: tgctl_kill_def Let_def)
      from left(3) show ?thesis
      proof (cases rule: kill_turn_cases)
        case (killed f)
        have "spends (200 * j + 180) ?s f" using left(2) killed(2) by (rule spends_trans)
        then have f: "spends (200 * kill_count fl) ?s f" by (rule spends_mono) (use left(1) in simp)
        then show ?thesis
          using y start killed pid by (auto simp: spends_def)
      qed (use y in auto)
    qed
  qed
qed

subsection \<open>\<open>tgctl_start\<close>\<close>

definition start_count :: "flags \<Rightarrow> nat" where
  "start_count fl = check_count_of (FLAGS_timeout fl) sleep_time_unit_regular check_count_startup"

lemma start_force_result:
  assumes "start_force w fl bc c = (c', Inr r)"
  shows "case r of
      None \<Rightarrow> con_monitor c' = con_monitor c \<and> ctl_tick c \<le> ctl_tick c' \<and>
              ctl_slept c' \<le> ctl_slept c + (if FLAGS_start_mode fl = [] then 0 else 200 * kill_count fl) \<and>
              (if FLAGS_start_mode fl = [] then ctl_effects c' = ctl_effects c
               else \<exists>pid. pid \<noteq> 0 \<and> ctl_effects c' = ctl_effects c @ Signal pid SIGKILL # cleanup w bc)
    | Some rc \<Rightarrow> rc = rc_err \<and> (\<exists>x. x \<noteq> reason_absent \<and>
                    con_monitor c' = map_option (\<lambda>log. log @ [M_finish x]) (con_monitor c))"
proof (cases "FLAGS_start_mode fl = ''force''")
  case False
  then show ?thesis
    using assms by (auto simp: start_force_def split: if_split_asm)
next
  case True
  obtain d q where d: "m_new w (bc_lock_file bc) True c = (d, q)" by fastforce
  have cd: "spends 0 c d" using d by (rule spends_m_new)
  obtain m where m: "q = Inr m" using assms True d by (auto simp: start_force_def split: sum.split_asm)
  obtain e m' x where e: "tgctl_kill w fl m bc d = (e, m', x)" by (cases "tgctl_kill w fl m bc d") auto
  obtain rc where rc: "x = Inr rc" using assms True d m e by (auto simp: start_force_def split: sum.split_asm)
  have "con_monitor d = con_monitor c" "ctl_effects d = ctl_effects c" "ctl_slept d = ctl_slept c" "ctl_tick c \<le> ctl_tick d"
    using cd by (simp_all add: spends_def)
  then show ?thesis
    using tgctl_kill_result [OF e [unfolded rc]] assms True d m e rc
    by (cases rc) (auto simp: start_force_def)
qed

lemma build_args_state: "build_args fl mode c = (c', args) \<Longrightarrow> spends 0 c c'"
  by (auto simp: build_args_def Let_def split: boot_mode.splits)

lemma get_base_path_state:
  "get_base_path w argv0 c = (c', r) \<Longrightarrow> spends 0 c c' \<and> (\<forall>e. r \<noteq> Inl (Tgctl_error e))"
  by (auto simp: get_base_path_def Let_def split: sum.split_asm if_split_asm)

text \<open>The launch proper, after \<^verbatim>\<open>--start_mode\<close> has been dealt with.\<close>

lemma start_confirmed:
  assumes "confirm_start w fl bc (w_child w) h = (k, Inr r)" "open_log h"
    and c': "c' = (case r of Inl x \<Rightarrow> k | Inr (x, y) \<Rightarrow> finish y k)" "rc = (case r of Inl x \<Rightarrow> x | Inr (x, y) \<Rightarrow> x)"
  shows "\<exists>y. finished_log y c' \<and> (rc = rc_ok \<longleftrightarrow> y = reason_absent) \<and> (rc = rc_err \<or> saw_activated w h c') \<and>
    ctl_effects c' = ctl_effects h \<and> ctl_slept c' \<le> ctl_slept h + 200 * start_count fl"
proof -
  have fin: "spends n h k \<Longrightarrow> y \<noteq> reason_absent \<Longrightarrow> concludes rc_err n h (finish y k)" for n y
    by (rule concludesI) simp_all
  have "concludes rc (200 * start_count fl) h c' \<and> (rc = rc_err \<or> saw_activated w h c')"
    using confirm_start_result [OF assms(1)] c' fin
    by (cases r) (auto simp: start_count_def split: prod.split_asm)
  then show ?thesis using open_log_finished [OF assms(2)] unfolding concludes_def by blast
qed

text \<open>A new process is spawned only after the check of the state, which takes at most 180 milliseconds.\<close>

lemma start_spawned:
  assumes run: "tgctl_start w fl argv0 True mode c = (c', Inr rc)" and valid: "bc_valid (the_bst_conf w fl)"
    and d: "start_force w fl (the_bst_conf w fl) (open_monitor (FLAGS_monitor fl \<noteq> []) c) = (d, Inr None)"
    and e: "status_check_internal_of w (the_bst_conf w fl) d = (e, Inr st)" and de: "spends 180 d e"
    and st: "\<not> (st = sc_initial \<or> st = sc_ready \<or> st = sc_activated \<or> st = sc_deactivating)"
    and "open_log d" "ctl_tick c \<le> ctl_tick d"
  shows "\<exists>y exec args. finished_log y c' \<and> (rc = rc_ok \<longleftrightarrow> y = reason_absent) \<and> (rc = rc_err \<or> saw_activated w c c') \<and>
    ctl_effects c' = ctl_effects d @ [Spawn exec args] \<and> ctl_slept c' \<le> ctl_slept d + 180 + 200 * start_count fl"
proof -
  let ?bc = "the_bst_conf w fl"
  obtain f bp where f: "get_base_path w argv0 e = (f, Inr bp)"
    using run valid d e st get_base_path_state [of w argv0 e]
    by (cases "get_base_path w argv0 e") (auto simp: tgctl_start_def Let_def split: sum.split_asm exn.split_asm)
  obtain g args where g: "build_args fl mode f = (g, args)" by fastforce
  let ?exec = "path_append (path_append bp ''libexec'') server_name_string"
  let ?h = "emit (Spawn ?exec args) (others w g)"
  have dg: "spends 180 d g"
    using de get_base_path_state [OF f] build_args_state [OF g] by (blast intro: spends_trans_zero)
  obtain k r where k: "confirm_start w fl ?bc (w_child w) ?h = (k, Inr r)"
    using run valid d e st f g
    by (cases "confirm_start w fl ?bc (w_child w) ?h") (auto simp: tgctl_start_def Let_def split: sum.split_asm)
  have c': "c' = (case r of Inl x \<Rightarrow> k | Inr (x, y) \<Rightarrow> finish y k)" "rc = (case r of Inl x \<Rightarrow> x | Inr (x, y) \<Rightarrow> x)"
    using run valid d e st f g k by (auto simp: tgctl_start_def Let_def split: sum.split_asm prod.split_asm)
  have h: "con_monitor ?h = con_monitor d" "ctl_effects ?h = ctl_effects d @ [Spawn ?exec args]"
    "ctl_slept ?h \<le> ctl_slept d + 180" "ctl_tick c \<le> ctl_tick ?h"
    using dg assms(8) by (simp_all add: spends_def)
  have "open_log ?h" using h(1) assms(7) open_log_cong [of ?h d] by simp
  moreover have "saw_activated w ?h x \<Longrightarrow> saw_activated w c x" for x
    using h(4) unfolding saw_activated_def by (meson order.trans)
  ultimately show ?thesis using start_confirmed [OF k _ c'] h(2,3) by fastforce
qed

lemma tgctl_start_result:
  assumes run: "tgctl_start w fl argv0 True mode c = (c', Inr rc)"
  shows "(\<exists>r. finished_log r c' \<and> (rc = rc_ok \<longleftrightarrow> r = reason_absent)) \<and>
         (rc = rc_err \<or> saw_activated w c c') \<and>
         (FLAGS_start_mode fl \<noteq> [] \<or>
          ctl_slept c' \<le> ctl_slept c + 180 + 200 * start_count fl \<and>
          (if rc = rc_ok then \<exists>exec args. ctl_effects c' = ctl_effects c @ [Spawn exec args]
           else ctl_effects c' = ctl_effects c \<or> (\<exists>exec args. ctl_effects c' = ctl_effects c @ [Spawn exec args])))"
proof (cases "bc_valid (the_bst_conf w fl)")
  case False
  let ?c = "open_monitor (FLAGS_monitor fl \<noteq> []) c"
  have "open_log ?c" by simp
  then have "finished_log reason_not_found (finish reason_not_found (cout_unless q s ?c))" for q s
    by (intro open_log_finish) (simp add: cout_unless_def)
  then show ?thesis
    using run False by (auto simp: tgctl_start_def Let_def simp del: append.simps)
next
  case valid: True
  let ?c = "open_monitor (FLAGS_monitor fl \<noteq> []) c" and ?bc = "the_bst_conf w fl"
  obtain d q where d: "start_force w fl ?bc ?c = (d, Inr q)"
    using run valid by (cases "start_force w fl ?bc ?c") (auto simp: tgctl_start_def Let_def split: sum.split_asm)
  note force = start_force_result [OF d]
  show ?thesis
  proof (cases q)
    case (Some x)
    then have "c' = d" "x = rc" "FLAGS_start_mode fl \<noteq> []"
      using run valid d by (auto simp: tgctl_start_def Let_def start_force_def)
    moreover obtain y where "y \<noteq> reason_absent" "finished_log y d" "x = rc_err"
      using force Some open_log_finished [of ?c d] by auto
    ultimately show ?thesis by auto
  next
    case None
    have cd: "con_monitor d = con_monitor ?c" "ctl_tick c \<le> ctl_tick d" using force None by auto
    have open_d: "open_log d" using cd(1) open_log_cong [of d ?c] by simp
    obtain e st where e: "status_check_internal_of w ?bc d = (e, Inr st)"
      using run valid d None
      by (cases "status_check_internal_of w ?bc d") (auto simp: tgctl_start_def Let_def split: sum.split_asm)
    have de: "spends 180 d e" using e by (rule status_check_spends)
    have open_e: "open_log e" using de open_d open_log_cong [of e d] by (simp add: spends_def)
    show ?thesis
    proof (cases "st = sc_initial \<or> st = sc_ready \<or> st = sc_activated \<or> st = sc_deactivating")
      case True
      have "finished_log reason_another_process (finish reason_another_process (cout_unless qu s e))" for qu s
        using open_e by (intro open_log_finish) (simp add: cout_unless_def)
      then show ?thesis
        using run valid d None e True force de
        by (auto simp: tgctl_start_def Let_def spends_def simp del: append.simps)
    next
      case False
      have d': "start_force w fl ?bc ?c = (d, Inr None)" using d None by simp
      have "FLAGS_start_mode fl = [] \<Longrightarrow> ctl_effects d = ctl_effects c \<and> ctl_slept d \<le> ctl_slept c"
        using force None by simp
      then show ?thesis
        using start_spawned [OF run valid d' e de False open_d cd(2)] by fastforce
    qed
  qed
qed

subsection \<open>\<open>tgctl_shutdown\<close>\<close>

definition shutdown_count :: "flags \<Rightarrow> nat" where
  "shutdown_count fl = check_count_of (FLAGS_timeout fl) sleep_time_unit_shutdown check_count_shutdown"

definition requested_type :: "flags \<Rightarrow> shutdown_type" where
  "requested_type fl = (if FLAGS_graceful fl then shutdown_graceful else shutdown_forceful)"

lemma pm_check_lock_file: "pm_check fs m = (fs', m', st) \<Longrightarrow> pm_lock_file m' = pm_lock_file m"
  by (auto simp: pm_check_def Let_def split: option.split_asm entry.split_asm prod.split_asm bool.split_asm)

lemma pm_check_no_file: "pm_check fs m = (fs', m', no_file) \<Longrightarrow> fs_names fs' (pm_lock_file m) = None"
  by (auto simp: pm_check_def Let_def split: option.split_asm entry.split_asm prod.split_asm bool.split_asm)

lemma m_check_lock_file: "m_check w m c = (c', m', st) \<Longrightarrow> pm_lock_file m' = pm_lock_file m"
  by (auto simp: m_check_def Let_def split: prod.split_asm dest: pm_check_lock_file)

lemma m_check_no_file: "m_check w m c = (c', m', no_file) \<Longrightarrow> fs_names (ctl_fs c') (pm_lock_file m) = None"
  by (auto simp: m_check_def Let_def split: prod.split_asm dest: pm_check_no_file)

lemma shutdown_turn_cases:
  assumes "shutdown_turn w fl i (dot, m) c = (c', r)"
  obtains (go) m' where "r = Inr (0, True, m')" "spends 1000 c c'" "pm_lock_file m' = pm_lock_file m"
  | (gone) m' where "r = Inl m'" "spends 0 c c'" "fs_names (ctl_fs c') (pm_lock_file m) = None"
proof -
  obtain d m' st where d: "m_check w m c = (d, m', st)" by (cases "m_check w m c") auto
  have cd: "spends 0 c d" using d by (rule spends_m_check)
  have cd': "spends 1000 c (usleep_ms sleep_time_unit_shutdown d)"
    using spends_usleep [OF cd, of 1000] by (simp add: sleep_time_unit_shutdown_def)
  show thesis
  proof (cases "st = no_file")
    case True
    then show thesis
      using gone [of m'] assms d cd m_check_no_file [of w m c d m'] by (auto simp: shutdown_turn_def)
  next
    case False
    then show thesis
      using go [of m'] assms d cd' m_check_lock_file [OF d] by (auto simp: shutdown_turn_def)
  qed
qed

lemma shutdown_loop:
  assumes "for_loop (shutdown_turn w fl) n 0 (False, m) c = (c', r)"
  shows "spends (1000 * n) c c' \<and> (case r of Inl m' \<Rightarrow> fs_names (ctl_fs c') (pm_lock_file m) = None | Inr s \<Rightarrow> True)"
  using assms
proof (rule for_loop_rule [where P = "\<lambda>j s d. pm_lock_file (snd s) = pm_lock_file m \<and> spends (1000 * min j n) c d"])
  fix j s d e k s'
  assume j: "j < n" and inv: "pm_lock_file (snd s) = pm_lock_file m \<and> spends (1000 * min j n) c d"
    and b: "shutdown_turn w fl j s d = (e, Inr (k, s'))"
  obtain dot m1 where s: "s = (dot, m1)" by fastforce
  from b [unfolded s] show "pm_lock_file (snd s') = pm_lock_file m \<and> spends (1000 * min (Suc (j + k)) n) c e"
  proof (cases rule: shutdown_turn_cases)
    case (go m')
    have "spends (1000 * j + 1000) c e" using inv j go(2) spends_trans [of "1000 * j" c d 1000 e] by simp
    then have "spends (1000 * min (Suc (j + k)) n) c e" by (rule spends_mono) (use j go(1) in simp)
    then show ?thesis using go inv s by auto
  qed auto
next
  fix j s d e x
  assume j: "j < n" and inv: "pm_lock_file (snd s) = pm_lock_file m \<and> spends (1000 * min j n) c d"
    and b: "shutdown_turn w fl j s d = (e, Inl x)"
  obtain dot m1 where s: "s = (dot, m1)" by fastforce
  from b [unfolded s] show "spends (1000 * n) c e \<and> (case Inl x of Inl m' \<Rightarrow> fs_names (ctl_fs e) (pm_lock_file m) = None | Inr s \<Rightarrow> True)"
  proof (cases rule: shutdown_turn_cases)
    case (gone m')
    have "spends (1000 * min j n) c e" using inv gone(2) spends_trans_zero by blast
    then have "spends (1000 * n) c e" by (rule spends_mono) simp
    then show ?thesis using gone inv s by simp
  qed auto
next
  fix j s d
  assume "n \<le> j" "pm_lock_file (snd s) = pm_lock_file m \<and> spends (1000 * min j n) c d"
  then show "spends (1000 * n) c d \<and> (case Inr s of Inl m' \<Rightarrow> fs_names (ctl_fs d) (pm_lock_file m) = None | Inr s \<Rightarrow> True)"
    by (simp add: min_absorb2)
qed simp

lemma tgctl_shutdown_result:
  assumes "tgctl_shutdown w fl m c = (c', m', rc)"
  shows "con_monitor c' = con_monitor c \<and> ctl_tick c \<le> ctl_tick c' \<and>
         ctl_slept c' \<le> ctl_slept c + 50 + 1000 * shutdown_count fl \<and>
         (rc = rc_err \<or> fs_names (ctl_fs c') (pm_lock_file m) = None \<and> \<not> (FLAGS_graceful fl \<and> FLAGS_forceful fl) \<and>
            ctl_effects c' = ctl_effects c @ [Request_shutdown (requested_type fl)])"
proof (cases "FLAGS_graceful fl \<and> FLAGS_forceful fl")
  case True
  then show ?thesis using assms by (auto simp: tgctl_shutdown_def)
next
  case False
  obtain d b where d: "si_request_shutdown w (requested_type fl) c = (d, b)" by fastforce
  have cd: "con_monitor d = con_monitor c" "ctl_tick c \<le> ctl_tick d" "ctl_slept d = ctl_slept c"
    "ctl_effects d = ctl_effects c @ [Request_shutdown (requested_type fl)]"
    using d by (auto simp: si_request_shutdown_def)
  let ?d = "usleep_ms sleep_time_unit_mutex d"
  obtain e r where e: "for_loop (shutdown_turn w fl) (shutdown_count fl) 0 (False, m) ?d = (e, r)" by fastforce
  note loop = shutdown_loop [OF e]
  show ?thesis
  proof (cases b)
    case False
    then show ?thesis
      using assms d cd \<open>\<not> (FLAGS_graceful fl \<and> FLAGS_forceful fl)\<close>
      by (auto simp: tgctl_shutdown_def Let_def requested_type_def)
  next
    case True
    then have "ctl_slept e \<le> ctl_slept c + 50 + 1000 * shutdown_count fl" "con_monitor e = con_monitor c"
      "ctl_tick c \<le> ctl_tick e" "ctl_effects e = ctl_effects c @ [Request_shutdown (requested_type fl)]"
      using loop cd by (auto simp: spends_def sleep_time_unit_mutex_def)
    then show ?thesis
      using assms d e True loop \<open>\<not> (FLAGS_graceful fl \<and> FLAGS_forceful fl)\<close>
      by (cases r) (auto simp: tgctl_shutdown_def Let_def requested_type_def shutdown_count_def)
  qed
qed


lemma kill_turn_monitor: "kill_turn w fl m bc i u c = (c', r) \<Longrightarrow> con_monitor c' = con_monitor c"
  by (auto simp: kill_turn_def status_check_internal_def Let_def si_force_delete_def si_apply_shm_entry_def
      split: prod.split_asm sum.split_asm if_split_asm
      dest!: status_check_spends spends_si(3) simp: spends_def)

lemma tgctl_kill_monitor:
  assumes "tgctl_kill w fl m bc c = (c', m', r)"
  shows "con_monitor c' = con_monitor c"
proof -
  have loop: "con_monitor e = con_monitor d"
    if "for_loop (kill_turn w fl m bc) n 0 () d = (e, x)" for m n d e x
    using that
    by (rule for_loop_rule [where P = "\<lambda>j s y. con_monitor y = con_monitor d"]) (auto dest: kill_turn_monitor)
  show ?thesis
    using assms
    by (auto simp: tgctl_kill_def Let_def split: prod.split_asm sum.split_asm if_split_asm
        dest!: spends_m_pid loop simp: spends_def)
qed

lemma shutdown_kill_body_result:
  assumes "shutdown_kill_body w fl force bc c = (c', r)"
  shows "case r of
      Inl e \<Rightarrow> con_monitor c' = con_monitor c
    | Inr (Inl rc) \<Rightarrow> rc = rc_ok \<and> con_monitor c' = map_option (\<lambda>log. log @ [M_finish reason_absent]) (con_monitor c) \<and>
        (ctl_effects c' = ctl_effects c \<or>
         (if force then \<exists>pid. pid \<noteq> 0 \<and> ctl_effects c' = ctl_effects c @ Signal pid SIGKILL # cleanup w bc
          else ctl_effects c' = ctl_effects c @ [Request_shutdown (requested_type fl)]))
    | Inr (Inr (rc, reason)) \<Rightarrow> rc = rc_err \<and> con_monitor c' = con_monitor c"
proof -
  obtain d q where d: "status_check_internal_of w bc c = (d, q)" by fastforce
  have cd: "con_monitor d = con_monitor c" "ctl_effects d = ctl_effects c"
    using status_check_spends [OF d] by (simp_all add: spends_def)
  obtain e x where e: "m_new w (bc_lock_file bc) True d = (e, x)" by fastforce
  have de: "con_monitor e = con_monitor c" "ctl_effects e = ctl_effects c"
    using cd spends_m_new [OF e] by (simp_all add: spends_def)
  show ?thesis
  proof (cases "\<exists>st m. q = Inr st \<and> st \<notin> {sc_no_file, sc_not_locked, sc_deactivated} \<and> x = Inr m")
    case False
    then show ?thesis
      using assms d cd e de
      by (auto simp: shutdown_kill_body_def split: sum.split_asm if_split_asm)
  next
    case True
    then obtain st m where m: "q = Inr st" "st \<notin> {sc_no_file, sc_not_locked, sc_deactivated}" "x = Inr m" by blast
    show ?thesis
    proof (cases force)
      case True
      obtain f m' y where f: "tgctl_kill w fl m bc e = (f, m', y)" by (cases "tgctl_kill w fl m bc e") auto
      have ok: "y = Inr rc_ok \<Longrightarrow> \<exists>pid. pid \<noteq> 0 \<and> ctl_effects f = ctl_effects c @ Signal pid SIGKILL # cleanup w bc"
        using tgctl_kill_result [of w fl m bc e f m' rc_ok] f de by simp
      show ?thesis
        using assms d e m f tgctl_kill_monitor [OF f] de ok True
        by (auto simp: shutdown_kill_body_def split: sum.split_asm if_split_asm return_code.split_asm) (metis return_code.exhaust)+
    next
      case False
      obtain f u where f: "si_new w (bc_digest (w_conf w) bc) e = (f, u)" by fastforce
      obtain g b where g: "si_is_shutdown_requested w f = (g, b)" by fastforce
      have eg: "con_monitor f = con_monitor c" "con_monitor g = con_monitor c" "ctl_effects g = ctl_effects c"
        using de spends_si(3) [OF f] spends_si(6) [OF g] by (simp_all add: spends_def)
      obtain h m' rc where h: "tgctl_shutdown w fl m g = (h, m', rc)" by (cases "tgctl_shutdown w fl m g") auto
      note down = tgctl_shutdown_result [OF h]
      show ?thesis
        using assms d e m f g h False eg down
        by (cases rc) (auto simp: shutdown_kill_body_def split: sum.split_asm if_split_asm bool.split_asm)
    qed
  qed
qed

end
