(* ===== verification/Control_Commands.thy ===== *)
theory Control_Commands
  imports Process_Properties
begin

section \<open>Sample runs\<close>

text \<open>
  The properties of the control commands, with the runs that witness them.  In the sample world the
  configuration is the one of \<open>sample_conf_env\<close>, the status memory is always there, and the pid of the server
  is 7; what the other processes do to the file system, and the state of the server, are arguments.
\<close>

definition sample_lock :: path where
  "sample_lock = ''/var/lock/tsurugi-000000000000000a.pid''"

text \<open>The server boots: it creates the lock file, locks it and stores its pid.\<close>

definition server_boots :: "path \<Rightarrow> nat \<Rightarrow> file_system \<Rightarrow> file_system" where
  "server_boots p pid fs =
     (case pm_new fs p True True of
        (fs, Inl e) \<Rightarrow> fs
      | (fs, Inr m) \<Rightarrow> (case pm_lock fs m of (fs, m, r) \<Rightarrow> fst (pm_fill_contents fs m pid)))"

definition sample_world :: "(nat \<Rightarrow> file_system \<Rightarrow> file_system) \<Rightarrow> server_state \<Rightarrow> world" where
  "sample_world oth st =
     \<lparr>w_conf = sample_conf_env, w_others = oth, w_attach = (\<lambda>t n. True), w_whole = (\<lambda>t. st),
      w_status_pid = (\<lambda>t. 7), w_shutdown_request = (\<lambda>t. shutdown_nothing), w_request_shutdown = (\<lambda>t ty. True),
      w_alive = (\<lambda>t p. p = 7), w_search_path = (\<lambda>p. p), w_canonical = Inr, w_exists = (\<lambda>p. True), w_child = 7\<rparr>"

definition sample_flags :: flags where
  "sample_flags = default_flags\<lparr>FLAGS_monitor := ''m.log''\<rparr>"

definition sample_start :: "ctl \<times> return_code outcome" where
  "sample_start =
     tgctl_start (sample_world (\<lambda>t fs. if t = 5 then server_boots sample_lock 7 fs else fs) state_activated)
       sample_flags ''/opt/tsurugi/bin/tgctl'' True mode_database_server (new_ctl empty_fs)"


lemmas ctl_eval = m_new_def m_check_def m_pid_def m_delete_def m_unlink_def others_def alive_def usleep_ms_def emit_def
  si_new_def si_attach_def si_pid_def si_whole_def si_is_shutdown_requested_def si_request_shutdown_def
  si_force_delete_def si_apply_shm_entry_def console_defs cout_unless_def destroy_mutex_def new_ctl_def
  pm_eval pm_name_def pm_delete_def pm_delete_close_def pm_delete_unlink_def Let_def

lemmas count_eval = check_count_of_def check_count_startup_def check_count_kill_def check_count_shutdown_def
  check_count_status_def sleep_time_unit_regular_def sleep_time_unit_shutdown_def sleep_time_unit_mutex_def

lemma sample_stoi: "stoi ''7'' = Stoi_value 7" "to_string 7 = ''7''"
  by code_simp+

lemma sample_bst_conf:
  "the_bst_conf (sample_world oth st) (sample_flags\<lparr>FLAGS_timeout := i\<rparr>) =
     \<lparr>bc_conf_file = ''/etc/a.ini'', bc_lock_file = sample_lock, bc_configuration = Some sample_whole, bc_valid = True\<rparr>"
  "the_bst_conf (sample_world oth st) sample_flags =
     \<lparr>bc_conf_file = ''/etc/a.ini'', bc_lock_file = sample_lock, bc_configuration = Some sample_whole, bc_valid = True\<rparr>"
  by (simp_all add: the_bst_conf_def sample_world_def sample_flags_def default_flags_def
      create_bootstrap_configuration_def sample_bootstrap sample_lock_def)

lemma sample_get_configuration:
  "\<exists>conf. snd (get_configuration sample_conf_env
     \<lparr>bc_conf_file = f, bc_lock_file = l, bc_configuration = Some sample_whole, bc_valid = True\<rparr>) = Inr (Some conf)"
proof -
  have id: "instance_id None ''Node-1'' = Inr ''node-1''" by code_simp
  have host: "ce_hostname sample_conf_env = None" by (simp add: sample_conf_env_def)
  show ?thesis
    by (simp add: get_configuration_def host instance_id_setup_def sample_whole_def id)
qed

lemma sample_world_simps [simp]:
  "w_conf (sample_world oth st) = sample_conf_env" "w_others (sample_world oth st) = oth" "w_attach (sample_world oth st) t n" "w_whole (sample_world oth st) t = st"
  "w_status_pid (sample_world oth st) t = 7" "w_shutdown_request (sample_world oth st) t = shutdown_nothing"
  "w_request_shutdown (sample_world oth st) t ty" "w_alive (sample_world oth st) t q = (q = 7)"
  "w_search_path (sample_world oth st) p = p" "w_canonical (sample_world oth st) p = Inr p"
  "w_exists (sample_world oth st) p" "w_child (sample_world oth st) = 7"
  by (simp_all add: sample_world_def)

lemma sample_flags_simps [simp]:
  "FLAGS_conf sample_flags = []" "FLAGS_monitor sample_flags = ''m.log''" "FLAGS_label sample_flags = []"
  "FLAGS_start_mode sample_flags = []" "FLAGS_timeout sample_flags = -1" "\<not> FLAGS_quiet sample_flags"
  "\<not> FLAGS_graceful sample_flags" "\<not> FLAGS_forceful sample_flags" "FLAGS_location sample_flags = ''./db''"
  "\<not> FLAGS_load sample_flags" "\<not> FLAGS_tpch sample_flags"
  by (simp_all add: sample_flags_def default_flags_def)

lemma status_attempts_first:
  "status_attempts w dg 10 c =
     (case si_new w dg c of
        (c, Inl e) \<Rightarrow> status_attempts w dg 9 (usleep_ms sleep_time_unit_regular c)
      | (c, Inr u) \<Rightarrow> (case si_whole w c of (c, st) \<Rightarrow> (c, check_result_of_state st)))"
proof -
  have "(10::nat) = Suc 9" by simp
  then show ?thesis by (simp only: status_attempts.simps) (simp split: prod.split sum.split)
qed

lemma sample_start_ok: "snd sample_start = Inr rc_ok"
proof -
  let ?w = "sample_world (\<lambda>t fs. if t = 5 then server_boots sample_lock 7 fs else fs) state_activated"
  obtain conf where conf: "snd (get_configuration sample_conf_env
     \<lparr>bc_conf_file = ''/etc/a.ini'', bc_lock_file = sample_lock, bc_configuration = Some sample_whole, bc_valid = True\<rparr>) = Inr (Some conf)"
    using sample_get_configuration by blast
  have path: "get_base_path ?w ''/opt/tsurugi/bin/tgctl'' c = (c, Inr ''/opt/tsurugi'')" for c
    by (simp add: get_base_path_def parent_path_def)
  show ?thesis
    unfolding sample_start_def tgctl_start_def sample_bst_conf
    by (simp add: start_force_def status_check_internal_of_def conf path build_args_def confirm_start_def
        wait_for_pid_def for_loop.simps pid_turn_def confirm_activation_def attach_turn_def activation_turn_def
        server_boots_def sample_stoi count_eval status_attempts_first ctl_eval)
qed

section \<open>Properties of the control commands\<close>

text \<open>C3: \<open>tgctl start\<close> tells the truth about a launch: whatever the other processes do, when the command returns
  a code its monitor log is complete, the log says success exactly if the code is ok, and the code is ok
  only if the status memory held the pid of the child and, later, the state \<open>activated\<close>.\<close>

theorem start_reports_result:
  assumes "tgctl_start w fl argv0 True mode c = (c', Inr rc)"
  shows "(\<exists>r. finished_log r c' \<and> (rc = rc_ok \<longleftrightarrow> r = reason_absent)) \<and> (rc = rc_err \<or> saw_activated w c c')"
  using tgctl_start_result [OF assms] by blast


text \<open>C4: a shutdown that is reported to have succeeded has happened: \<open>tgctl_shutdown\<close> returns ok only after it
  has requested a shutdown of the type the flags ask for and the lock file has gone; in every case it writes
  nothing to the monitor and sleeps at most 50 milliseconds and one second for every turn.\<close>

theorem shutdown_ok_lock_file_gone:
  assumes "tgctl_shutdown w fl m c = (c', m', rc)"
  shows "con_monitor c' = con_monitor c \<and>
         ctl_slept c' \<le> ctl_slept c + 50 + 1000 * shutdown_count fl \<and>
         (rc = rc_err \<or> fs_names (ctl_fs c') (pm_lock_file m) = None \<and>
            ctl_effects c' = ctl_effects c @ [Request_shutdown (requested_type fl)])"
  using tgctl_shutdown_result [OF assms] by blast

lemma tgctl_shutdown_kill_result:
  assumes "tgctl_shutdown_kill w fl force status_output c = (c', Inr rc)"
  shows "(\<exists>r. finished_log r c' \<and> (rc = rc_err \<or> r = reason_absent)) \<and>
         (rc = rc_err \<or> ctl_effects c' = ctl_effects c \<or>
          (if force then \<exists>pid. pid \<noteq> 0 \<and> ctl_effects c' = ctl_effects c @ Signal pid SIGKILL # cleanup w (the_bst_conf w fl)
           else ctl_effects c' = ctl_effects c @ [Request_shutdown (requested_type fl)]))"
proof -
  let ?c = "open_monitor (FLAGS_monitor fl \<noteq> [] \<and> status_output) c" and ?bc = "the_bst_conf w fl"
  have fin: "con_monitor x = con_monitor ?c \<Longrightarrow> finished_log r (finish r x)" for r x
    by (rule open_log_finished [of ?c]) simp_all
  have some: "con_monitor x = con_monitor ?c \<Longrightarrow> \<exists>r. finished_log r (finish r' x)" for r' x
    using fin by blast
  obtain d q where d: "shutdown_kill_body w fl force ?bc ?c = (d, q)" by fastforce
  note body = shutdown_kill_body_result [OF d]
  show ?thesis
  proof (cases "bc_valid ?bc \<and> (\<exists>conf. snd (get_configuration (w_conf w) ?bc) = Inr (Some conf))")
    case False
    then show ?thesis
      using assms
      by (auto simp: tgctl_shutdown_kill_def Let_def simp del: append.simps intro!: some
          split: sum.split_asm option.split_asm if_split_asm)
  next
    case True
    have done': "con_monitor d = map_option (\<lambda>log. log @ [M_finish reason_absent]) (con_monitor ?c) \<Longrightarrow> finished_log reason_absent d"
      by (rule open_log_finished [of ?c]) simp_all
    show ?thesis
      using assms True d body done'
      by (auto simp: tgctl_shutdown_kill_def Let_def simp del: append.simps intro!: some
          split: sum.split_asm prod.split_asm exn.split_asm if_split_asm)
  qed
qed


theorem start_reports_result_witness:
  "\<exists>r. finished_log r (fst sample_start) \<and> r = reason_absent"
proof -
  have "tgctl_start (sample_world (\<lambda>t fs. if t = 5 then server_boots sample_lock 7 fs else fs) state_activated)
       sample_flags ''/opt/tsurugi/bin/tgctl'' True mode_database_server (new_ctl empty_fs) = (fst sample_start, Inr rc_ok)"
    using sample_start_ok by (simp add: sample_start_def prod_eq_iff)
  from start_reports_result [OF this] show ?thesis by auto
qed


text \<open>A running server: another process holds the lock of the lock file, which holds the pid.\<close>

definition running_fs :: file_system where
  "running_fs = server_boots sample_lock 7 empty_fs"

definition client_mutex :: proc_mutex where
  "client_mutex = \<lparr>pm_fd = None, pm_lock_file = sample_lock, pm_owner = False\<rparr>"

text \<open>The server removes the lock file before the third system call of the command.\<close>

definition sample_shutdown :: "ctl \<times> proc_mutex \<times> return_code" where
  "sample_shutdown =
     tgctl_shutdown (sample_world (\<lambda>t fs. if t = 2 then sys_unlink fs sample_lock else fs) state_activated)
       sample_flags client_mutex (new_ctl running_fs)"

lemmas running_eval = running_fs_def server_boots_def client_mutex_def sample_stoi count_eval ctl_eval

lemma sample_shutdown_ok: "snd (snd sample_shutdown) = rc_ok"
  by (simp add: sample_shutdown_def tgctl_shutdown_def for_loop.simps shutdown_turn_def sys_unlink_def running_eval)

theorem shutdown_ok_lock_file_gone_witness:
  "fs_names (ctl_fs (fst sample_shutdown)) sample_lock = None \<and>
   ctl_effects (fst sample_shutdown) = [Request_shutdown shutdown_forceful]"
proof -
  have "tgctl_shutdown (sample_world (\<lambda>t fs. if t = 2 then sys_unlink fs sample_lock else fs) state_activated)
       sample_flags client_mutex (new_ctl running_fs) = (fst sample_shutdown, fst (snd sample_shutdown), rc_ok)"
    using sample_shutdown_ok by (simp add: sample_shutdown_def prod_eq_iff)
  from shutdown_ok_lock_file_gone [OF this] show ?thesis
    by (simp add: requested_type_def new_ctl_def client_mutex_def)
qed

text \<open>The server dies, and the kernel closes its descriptor, when it is killed.\<close>

definition sample_kill :: "ctl \<times> return_code outcome" where
  "sample_kill =
     tgctl_shutdown_kill (sample_world (\<lambda>t fs. if t = 9 then sys_close fs 3 else fs) state_activated)
       sample_flags True True (new_ctl running_fs)"

lemma sample_kill_ok: "snd sample_kill = Inr rc_ok"
proof -
  obtain conf where conf: "snd (get_configuration sample_conf_env
     \<lparr>bc_conf_file = ''/etc/a.ini'', bc_lock_file = sample_lock, bc_configuration = Some sample_whole, bc_valid = True\<rparr>) = Inr (Some conf)"
    using sample_get_configuration by blast
  show ?thesis
    unfolding sample_kill_def tgctl_shutdown_kill_def sample_bst_conf
    by (simp add: conf shutdown_kill_body_def status_check_internal_of_def status_check_internal_def sample_bst_conf
        status_attempts_first tgctl_kill_def for_loop.simps kill_turn_def sys_unlink_def running_eval)
qed


text \<open>A shutdown that fails is reported as a success in the monitor log: when both \<^verbatim>\<open>--graceful\<close> and
  \<^verbatim>\<open>--forceful\<close> are given for a running server, and when the kill cannot be done because the lock file holds no
  pid, the command returns err and the log ends with \<open>success\<close>.\<close>

theorem failed_shutdown_logged_as_success:
  "(let (c', r) = tgctl_shutdown_kill (sample_world (\<lambda>t fs. fs) state_activated)
                    (sample_flags\<lparr>FLAGS_graceful := True, FLAGS_forceful := True\<rparr>) False True (new_ctl running_fs)
    in r = Inr rc_err \<and> con_monitor c' = Some [M_start, M_finish reason_absent]) \<and>
   (let (c', r) = tgctl_shutdown_kill (sample_world (\<lambda>t fs. if t = 0 then fst (sys_ftruncate fs 3) else fs) state_activated)
                    sample_flags True True (new_ctl running_fs)
    in r = Inr rc_err \<and> con_monitor c' = Some [M_start, M_finish reason_absent])"
proof -
  obtain conf where conf: "snd (get_configuration sample_conf_env
     \<lparr>bc_conf_file = ''/etc/a.ini'', bc_lock_file = sample_lock, bc_configuration = Some sample_whole, bc_valid = True\<rparr>) = Inr (Some conf)"
    using sample_get_configuration by blast
  have bst: "the_bst_conf (sample_world oth st) (sample_flags\<lparr>FLAGS_graceful := True, FLAGS_forceful := True\<rparr>) =
     \<lparr>bc_conf_file = ''/etc/a.ini'', bc_lock_file = sample_lock, bc_configuration = Some sample_whole, bc_valid = True\<rparr>" for oth st
    using sample_bst_conf(2) [of oth st] by (simp add: the_bst_conf_def)
  show ?thesis
    unfolding tgctl_shutdown_kill_def sample_bst_conf bst
    by (simp add: conf shutdown_kill_body_def status_check_internal_of_def status_attempts_first tgctl_kill_def
        tgctl_shutdown_def running_eval)
qed

text \<open>\<^verbatim>\<open>tgctl start --start_mode force\<close> with no lock file does not start the server: it leaves \<open>tgctl_start\<close> by
  an exception and the monitor log has no end.\<close>

theorem force_start_without_lock_file:
  "let (c', r) = tgctl_start (sample_world (\<lambda>t fs. fs) state_activated) (sample_flags\<lparr>FLAGS_start_mode := ''force''\<rparr>)
                   ''/opt/tsurugi/bin/tgctl'' True mode_database_server (new_ctl empty_fs)
   in r = Inl (Tgctl_error (runtime_error reason_internal ''the lock file does not exist'')) \<and>
      con_monitor c' = Some [M_start] \<and> ctl_effects c' = []"
proof -
  have bst: "the_bst_conf (sample_world oth st) (sample_flags\<lparr>FLAGS_start_mode := ''force''\<rparr>) =
     \<lparr>bc_conf_file = ''/etc/a.ini'', bc_lock_file = sample_lock, bc_configuration = Some sample_whole, bc_valid = True\<rparr>" for oth st
    using sample_bst_conf(2) [of oth st] by (simp add: the_bst_conf_def)
  show ?thesis
    unfolding tgctl_start_def bst by (simp add: start_force_def ctl_eval)
qed


definition sample_status :: "ctl \<times> return_code outcome" where
  "sample_status = tgctl_status (sample_world (\<lambda>t fs. fs) state_activated) sample_flags (new_ctl running_fs)"

lemma sample_status_eval:
  "snd sample_status = Inr rc_ok"
  "snd (status_check_internal (sample_world (\<lambda>t fs. fs) state_activated) sample_flags
          (open_monitor True (new_ctl running_fs))) = Inr sc_activated"
proof -
  obtain conf where conf: "snd (get_configuration sample_conf_env
     \<lparr>bc_conf_file = ''/etc/a.ini'', bc_lock_file = sample_lock, bc_configuration = Some sample_whole, bc_valid = True\<rparr>) = Inr (Some conf)"
    using sample_get_configuration by blast
  show "snd sample_status = Inr rc_ok"
    "snd (status_check_internal (sample_world (\<lambda>t fs. fs) state_activated) sample_flags
            (open_monitor True (new_ctl running_fs))) = Inr sc_activated"
    unfolding sample_status_def tgctl_status_def status_check_internal_def sample_bst_conf
    by (simp_all add: status_check_internal_of_def conf status_attempts_first running_eval)
qed


text \<open>C26: \<open>tgctl pid\<close> ends, and prints the pid of the server, when another process holds the lock of the lock file
  and the file holds its pid: with any positive number of turns it returns ok, and what it prints is the
  number in the file.\<close>

theorem pid_command_prints_pid:
  assumes "bc_valid (the_bst_conf w fl)" "snd (get_configuration (w_conf w) (the_bst_conf w fl)) = Inr (Some conf)"
    and "\<And>t fs. w_others w t fs = fs"
    and "fs_names (ctl_fs c) (bc_lock_file (the_bst_conf w fl)) = Some (Regular i)"
    and "bc_lock_file (the_bst_conf w fl) \<notin> set (fs_denied (ctl_fs c))"
    and "in_holder (fs_inodes (ctl_fs c) i) = Some fd" "fd \<noteq> fs_next_fd (ctl_fs c)"
    and "in_contents (fs_inodes (ctl_fs c) i) = to_string pid" "0 < pid" "pid < 2 ^ 31"
  shows "\<exists>c'. tgctl_pid w fl (Suc fuel) c = (c', Some (Inr rc_ok)) \<and> con_out c' = con_out c @ to_string pid @ nl"
proof -
  have ne: "to_string pid \<noteq> []" using to_string_digits by blast
  have sys: "m_new w (bc_lock_file (the_bst_conf w fl)) True c =
      (c\<lparr>ctl_tick := Suc (ctl_tick c),
         ctl_fs := (ctl_fs c)\<lparr>fs_fds := (fs_fds (ctl_fs c))(fs_next_fd (ctl_fs c) \<mapsto> i), fs_next_fd := Suc (fs_next_fd (ctl_fs c))\<rparr>\<rparr>,
       Inr \<lparr>pm_fd = Some (fs_next_fd (ctl_fs c)), pm_lock_file = bc_lock_file (the_bst_conf w fl), pm_owner = False\<rparr>)"
    using assms(3-5) by (simp add: m_new_def others_def Let_def pm_new_def sys_open_def)
  show ?thesis
    using assms ne stoi_to_string [OF assms(10)]
    by (simp add: tgctl_pid_def get_pid_def Let_def sys m_pid_def others_def pm_pid_def pm_contents_def pm_check_def
        sys_flock_def m_delete_def int_to_string_def console_defs)
qed

theorem pid_command_prints_pid_witness:
  "\<exists>c'. tgctl_pid (sample_world (\<lambda>t fs. fs) state_activated) sample_flags (Suc 0) (new_ctl running_fs) =
     (c', Some (Inr rc_ok)) \<and> con_out c' = ''7'' @ nl"
proof -
  obtain conf where conf: "snd (get_configuration sample_conf_env
     \<lparr>bc_conf_file = ''/etc/a.ini'', bc_lock_file = sample_lock, bc_configuration = Some sample_whole, bc_valid = True\<rparr>) = Inr (Some conf)"
    using sample_get_configuration by blast
  have "\<exists>c'. tgctl_pid (sample_world (\<lambda>t fs. fs) state_activated) sample_flags (Suc 0) (new_ctl running_fs) =
     (c', Some (Inr rc_ok)) \<and> con_out c' = con_out (new_ctl running_fs) @ to_string 7 @ nl"
    by (rule pid_command_prints_pid [where conf = conf and i = 0 and fd = 3])
       (simp_all add: sample_bst_conf conf running_eval)
  then show ?thesis by (simp add: sample_stoi new_ctl_def)
qed

end
