(* ===== verification/Message_Wire.thy ===== *)
theory Message_Wire
  imports Wire_Message
begin

section \<open>\<open>unidirectional_message_wire\<close> and \<open>unidirectional_response_wire\<close>\<close>

text \<open>
  The request and the response wire of \<^verbatim>\<open>src/tateyama/transport/wire.h\<close>: \<open>simple_wire\<close> extended by the
  flags of the classes derived from it.  \<open>peep\<close> and \<open>await\<close> are loops around a timed wait on
  \<open>c_empty_\<close>.  What the other process does to the wire during a wait is an argument: a list of
  functions, one for each time the caller is blocked; with an empty list the wait times out.
\<close>

subsection \<open>Timeouts\<close>

text \<open>\<open>std::int64_t\<close> division truncates towards zero.\<close>

definition c_div :: "int \<Rightarrow> int \<Rightarrow> int" where
  "c_div a b = (if 0 \<le> a then a div b else - ((- a) div b))"

definition MAX_TIMEOUT :: int where
  "MAX_TIMEOUT = 10 * 365 * 24 * 3600 * 1000 * 1000"

definition u_cap :: "int \<Rightarrow> int" where
  "u_cap timeout = (if timeout > MAX_TIMEOUT then MAX_TIMEOUT else timeout)"

definition u_round :: "int \<Rightarrow> int" where
  "u_round timeout = (if timeout = 0 then timeout else (c_div (timeout - 500) 1000 + 1) * 1000)"

definition n_cap :: "int \<Rightarrow> int" where
  "n_cap timeout = (if timeout > MAX_TIMEOUT * 1000 then MAX_TIMEOUT * 1000 else timeout)"

subsection \<open>The request wire\<close>

record message_wire = "message_header simple_wire" +
  mw_termination_requested :: bool
  mw_onetime_notification :: bool
  mw_closed :: bool

definition mw_read_ready :: "message_wire \<Rightarrow> bool" where
  "mw_read_ready w \<longleftrightarrow> stored w \<ge> mh_size \<or> mw_termination_requested w \<or> mw_onetime_notification w"

datatype 'a wait_outcome = Returned 'a | Thrown runtime_error | Blocked

text \<open>One turn of \<open>peep\<close> up to its timed wait.\<close>

definition mw_peep_turn :: "message_wire \<Rightarrow> message_wire \<times> message_header wait_outcome" where
  "mw_peep_turn w =
     (let termination_requested = mw_termination_requested w;
          onetime_notification = mw_onetime_notification w
      in if stored w \<ge> mh_size
         then (let w' = copy_header message_header_ops w in (w', Returned (sw_header_received w')))
         else if termination_requested
         then (w\<lparr>mw_termination_requested := False\<rparr>, Returned (mk_message_header mh_terminate_request 0))
         else if onetime_notification
         then (w, Thrown (runtime_error reason_server
                 ''received shutdown request from outside the communication partner''))
         else (w\<lparr>sw_wait_for_read := True\<rparr>, Blocked))"

fun mw_peep :: "(message_wire \<Rightarrow> message_wire) list \<Rightarrow> message_wire
    \<Rightarrow> message_wire \<times> (runtime_error + message_header)" where
  "mw_peep env w =
     (case mw_peep_turn w of
        (w', Returned h) \<Rightarrow> (w', Inr h)
      | (w', Thrown e) \<Rightarrow> (w', Inl e)
      | (w', Blocked) \<Rightarrow>
          (case env of
             [] \<Rightarrow> (w'\<lparr>sw_wait_for_read := False\<rparr>,
                   Inl (runtime_error reason_connection_timeout
                     ''request has not been received within the specified time''))
           | peer # env' \<Rightarrow>
               let w'' = peer w'
               in if mw_read_ready w''
                  then mw_peep env' (w''\<lparr>sw_wait_for_read := False\<rparr>)
                  else (w''\<lparr>sw_wait_for_read := False\<rparr>,
                        Inl (runtime_error reason_connection_timeout
                          ''request has not been received within the specified time''))))"

declare mw_peep.simps [simp del]

definition mw_notify :: "message_wire \<Rightarrow> message_wire" where
  "mw_notify w = notify_empty (w\<lparr>mw_onetime_notification := True\<rparr>)"

definition mw_close :: "message_wire \<Rightarrow> message_wire" where
  "mw_close w = notify_full (w\<lparr>mw_closed := True\<rparr>)"

definition mw_write :: "message_wire \<Rightarrow> byte list \<Rightarrow> message_header \<Rightarrow> message_wire option" where
  "mw_write w from header = wire_write message_header_ops w from header (mw_closed w)"

definition mw_terminate :: "message_wire \<Rightarrow> message_wire" where
  "mw_terminate w = notify_empty (w\<lparr>mw_termination_requested := True\<rparr>)"

subsection \<open>The response wire\<close>

record response_wire = "response_header simple_wire" +
  rw_closed :: bool
  rw_shutdown :: bool

definition rw_watch_interval :: int where
  "rw_watch_interval = 5"

definition rw_read_ready :: "response_wire \<Rightarrow> bool" where
  "rw_read_ready w \<longleftrightarrow> stored w \<ge> rh_size \<or> rw_closed w \<or> rw_shutdown w"

text \<open>The timeout \<open>await\<close> passes to its timed wait, in microseconds.\<close>

definition rw_await_timeout :: "int \<Rightarrow> int" where
  "rw_await_timeout timeout =
     u_cap (u_round (if timeout = 0 then rw_watch_interval * 1000 * 1000 else timeout))"

definition rw_await_turn :: "response_wire \<Rightarrow> response_wire \<times> response_header wait_outcome" where
  "rw_await_turn w =
     (let closed_shutdown = rw_closed w \<or> rw_shutdown w
      in if stored w \<ge> rh_size
         then (let w' = copy_header response_header_ops w in (w', Returned (sw_header_received w')))
         else if closed_shutdown
         then (let w' = w\<lparr>sw_header_received := mk_response_header 0 0 0\<rparr>
               in (w', Returned (sw_header_received w')))
         else (w\<lparr>sw_wait_for_read := True\<rparr>, Blocked))"

fun rw_await :: "(response_wire \<Rightarrow> response_wire) list \<Rightarrow> response_wire
    \<Rightarrow> response_wire \<times> (runtime_error + response_header)" where
  "rw_await env w =
     (case rw_await_turn w of
        (w', Returned h) \<Rightarrow> (w', Inr h)
      | (w', Thrown e) \<Rightarrow> (w', Inl e)
      | (w', Blocked) \<Rightarrow>
          (case env of
             [] \<Rightarrow> (w'\<lparr>sw_wait_for_read := False\<rparr>,
                   Inl (runtime_error reason_connection_timeout
                     ''response has not been received within the specified time''))
           | peer # env' \<Rightarrow>
               let w'' = peer w'
               in if rw_read_ready w''
                  then rw_await env' (w''\<lparr>sw_wait_for_read := False\<rparr>)
                  else (w''\<lparr>sw_wait_for_read := False\<rparr>,
                        Inl (runtime_error reason_connection_timeout
                          ''response has not been received within the specified time''))))"

declare rw_await.simps [simp del]

definition rw_get_length :: "response_wire \<Rightarrow> length_type" where
  "rw_get_length w = rh_length (sw_header_received w)"

definition rw_get_idx :: "response_wire \<Rightarrow> index_type" where
  "rw_get_idx w = rh_idx (sw_header_received w)"

definition rw_get_type :: "response_wire \<Rightarrow> msg_type" where
  "rw_get_type w = rh_type (sw_header_received w)"

definition rw_close :: "response_wire \<Rightarrow> response_wire" where
  "rw_close w = notify_empty (notify_full (w\<lparr>rw_closed := True\<rparr>))"

definition rw_check_shutdown :: "response_wire \<Rightarrow> bool" where
  "rw_check_shutdown w = rw_shutdown w"

definition rw_write :: "response_wire \<Rightarrow> byte list \<Rightarrow> response_header \<Rightarrow> response_wire option" where
  "rw_write w from header = wire_write response_header_ops w from header (rw_closed w)"

definition rw_is_writable :: "response_wire \<Rightarrow> response_header \<Rightarrow> bool" where
  "rw_is_writable w header \<longleftrightarrow> room w \<ge> unat (rh_length header)"

definition rw_notify_shutdown :: "response_wire \<Rightarrow> response_wire" where
  "rw_notify_shutdown w = notify_empty (w\<lparr>rw_shutdown := True\<rparr>)"

definition rw_force_close :: "response_wire \<Rightarrow> response_wire" where
  "rw_force_close w = notify_full (w\<lparr>rw_closed := True\<rparr>)"

section \<open>Properties\<close>

text \<open>The timeout passed to a timed wait is a whole number of milliseconds within half a millisecond of
  the requested one, at least one millisecond, and never more than ten years.\<close>

theorem timeout_rounding:
  assumes "0 < t"
  shows "u_round t mod 1000 = 0 \<and> 1000 \<le> u_round t \<and> u_cap (u_round t) \<le> MAX_TIMEOUT \<and>
    (500 \<le> t \<longrightarrow> \<bar>u_round t - t\<bar> \<le> 500)"
proof (intro conjI impI)
  show "u_round t mod 1000 = 0" using assms by (simp add: u_round_def)
  have "(500 - t) div 1000 = 0" if "t < 500" using that assms by simp
  then show "1000 \<le> u_round t" using assms by (auto simp: u_round_def c_div_def)
  show "u_cap (u_round t) \<le> MAX_TIMEOUT" by (simp add: u_cap_def)
  assume t: "500 \<le> t"
  have "1000 * ((t - 500) div 1000) = (t - 500) - (t - 500) mod 1000"
    by (rule minus_mod_eq_mult_div [symmetric])
  moreover have "0 \<le> (t - 500) mod 1000" "(t - 500) mod 1000 < 1000" by simp_all
  ultimately show "\<bar>u_round t - t\<bar> \<le> 500" using t by (simp add: u_round_def c_div_def)
qed

theorem timeout_rounding_witness:
  "\<bar>u_round 1234567 - 1234567\<bar> \<le> 500 \<and> u_round 1234567 = 1235000 \<and> u_round 1 = 1000"
  using timeout_rounding [of 1234567] by (simp add: u_round_def c_div_def)

subsection \<open>Waiting for a request\<close>

lemma stored_front:
  assumes "sw_inv w" "live w = hdr @ rest"
  shows "length hdr \<le> stored w"
proof -
  have "length (live w) = length hdr + length rest" by (simp only: assms(2) length_append)
  then show ?thesis using stored_live [OF assms(1)] by linarith
qed

lemma peep_front:
  assumes "sw_inv w" "live w = mh_get_buffer h @ rest"
  shows "mw_peep env w = (w\<lparr>sw_header_received := h\<rparr>, Inr h)"
proof -
  have "copy_header message_header_ops w = w\<lparr>sw_header_received := h\<rparr>"
    using mh.copy_header_front [of w h rest] assms by simp
  moreover have "mh_size \<le> stored w"
    using stored_front [OF assms] by (simp add: mh_size_def)
  ultimately have "mw_peep_turn w = (w\<lparr>sw_header_received := h\<rparr>, Returned h)"
    by (simp add: mw_peep_turn_def Let_def)
  then show ?thesis by (subst mw_peep.simps) simp
qed

text \<open>An idle wire: nothing queued, no flag set.\<close>

definition mw_idle :: "message_wire \<Rightarrow> bool" where
  "mw_idle w \<longleftrightarrow> sw_inv w \<and> live w = [] \<and> \<not> mw_termination_requested w \<and>
     \<not> mw_onetime_notification w \<and> \<not> mw_closed w"

lemma peep_blocks:
  assumes "mw_idle w"
  shows "mw_peep (peer # env) w =
    (let w' = peer (w\<lparr>sw_wait_for_read := True\<rparr>)
     in if mw_read_ready w' then mw_peep env (w'\<lparr>sw_wait_for_read := False\<rparr>)
        else (w'\<lparr>sw_wait_for_read := False\<rparr>,
              Inl (runtime_error reason_connection_timeout
                ''request has not been received within the specified time'')))"
proof -
  have "stored w = 0" using assms stored_live [of w] by (simp add: mw_idle_def del: length_live)
  then have "mw_peep_turn w = (w\<lparr>sw_wait_for_read := True\<rparr>, Blocked)"
    using assms by (simp add: mw_peep_turn_def mw_idle_def mh_size_def Let_def)
  then show ?thesis by (subst mw_peep.simps) (simp add: Let_def)
qed

text \<open>A server thread blocked in \<open>peep\<close> on an idle request wire is woken by the client's \<open>write\<close>, whatever
  flags are raised later: it gets the header of exactly that request, and the view \<open>payload\<close> then gives
  denotes the request's body.\<close>

theorem peep_receives_request:
  assumes "mw_idle w" "length body = unat (mh_length h)"
    and "mh_size + length body \<le> sw_capacity w" "mh_size + length body < budget w"
    and "sw_need_dispose w = 0"
  shows "\<exists>w' v w''. mw_peep ((\<lambda>w. the (mw_write w body h)) # env) w = (w', Inr h) \<and>
    payload message_header_ops w' = Some (v, w'') \<and> view_bytes w'' v = Some body \<and> live (dispose w'') = []"
proof -
  let ?w = "w\<lparr>sw_wait_for_read := True\<rparr>"
  let ?r = "notify_empty (ring_put (ring_put ?w (mh_get_buffer h)) body)"
  have idle: "sw_inv ?w" "live ?w = []" "\<not> mw_closed w"
    using assms(1) by (simp_all add: mw_idle_def)
  have fits: "length (live ?w) + hdr_size message_header_ops + length body \<le> sw_capacity ?w"
      "hdr_size message_header_ops + length body < budget ?w"
    using assms(3,4) idle(2) by (simp_all add: mh_size_def)
  have len: "length body = hdr_get_length message_header_ops h" using assms(2) by simp
  note wr = mh.wire_write_fits [OF idle(1) len fits]
  have r: "mw_write ?w body h = Some ?r" using wr(1) idle(3) by (simp add: mw_write_def)
  have front: "sw_inv ?r" "live ?r = mh_get_buffer h @ body" using wr(2,3) idle(2) by simp_all
  have ready: "mw_read_ready ?r"
    using stored_front [OF front] by (simp add: mw_read_ready_def mh_size_def)
  let ?f = "?r\<lparr>sw_wait_for_read := False\<rparr>"
  let ?h = "?f\<lparr>sw_header_received := h\<rparr>"
  have "mw_peep ((\<lambda>w. the (mw_write w body h)) # env) w = (?h, Inr h)"
    using ready r peep_front [of ?f h body] front by (simp add: peep_blocks [OF assms(1)] Let_def)
  moreover have "\<exists>v w''. payload message_header_ops ?h = Some (v, w'') \<and>
      view_bytes w'' v = Some body \<and> sw_inv (dispose w'') \<and> live (dispose w'') = []"
    by (rule mh.payload_front [where h = h])
      (use front assms(2,5) in simp_all)
  ultimately show ?thesis by blast
qed

definition sample_message_wire :: message_wire where
  "sample_message_wire =
     simple_wire.extend (fresh_wire message_header_ops 16)
       (message_wire.fields False False False)"

lemma sample_message_wire_idle:
  "mw_idle sample_message_wire" "sw_capacity sample_message_wire = 16"
  "budget sample_message_wire = u64_limit" "sw_need_dispose sample_message_wire = 0"
  by (simp_all add: sample_message_wire_def mw_idle_def sw_inv_def live_def budget_def fresh_wire_def
      simple_wire.extend_def message_wire.fields_def)

theorem peep_receives_request_witness:
  "\<exists>w' v w''. mw_peep [\<lambda>w. the (mw_write w [7, 8, 9] (mk_message_header 5 3))] sample_message_wire =
      (w', Inr (mk_message_header 5 3)) \<and>
    payload message_header_ops w' = Some (v, w'') \<and> view_bytes w'' v = Some [7, 8, 9]"
  using peep_receives_request [OF sample_message_wire_idle(1), of "[7, 8, 9]" "mk_message_header 5 3" "[]"]
  by (auto simp: sample_message_wire_idle mk_message_header_def mh_size_def)

text \<open>Termination does not overtake requests: with a request on the wire \<open>peep\<close> returns its header even
  when termination has been requested, and leaves that request pending; on an empty wire it returns the
  header with index \<open>terminate_request\<close> and length 0, once.\<close>

theorem peep_terminate_after_requests:
  assumes "sw_inv w" "mw_termination_requested w"
  shows "(\<forall>h rest. live w = mh_get_buffer h @ rest \<longrightarrow>
            (\<exists>w'. mw_peep env w = (w', Inr h) \<and> mw_termination_requested w' \<and> live w' = live w)) \<and>
    (live w = [] \<longrightarrow>
       mw_peep env w = (w\<lparr>mw_termination_requested := False\<rparr>, Inr (mk_message_header mh_terminate_request 0)))"
proof (intro conjI allI impI)
  fix h rest
  assume "live w = mh_get_buffer h @ rest"
  then show "\<exists>w'. mw_peep env w = (w', Inr h) \<and> mw_termination_requested w' \<and> live w' = live w"
    using peep_front [OF assms(1)] assms(2) by simp
next
  assume "live w = []"
  then have "stored w = 0" using stored_live [OF assms(1)] by (simp del: length_live)
  then show "mw_peep env w =
      (w\<lparr>mw_termination_requested := False\<rparr>, Inr (mk_message_header mh_terminate_request 0))"
    using assms by (subst mw_peep.simps) (simp add: mw_peep_turn_def mh_size_def Let_def)
qed

theorem peep_terminate_after_requests_witness:
  "mw_peep [] (mw_terminate sample_message_wire) =
     ((mw_terminate sample_message_wire)\<lparr>mw_termination_requested := False\<rparr>,
      Inr (mk_message_header mh_terminate_request 0))"
proof -
  have "sw_inv (mw_terminate sample_message_wire)" "live (mw_terminate sample_message_wire) = []"
      "mw_termination_requested (mw_terminate sample_message_wire)"
    by (simp_all add: mw_terminate_def sample_message_wire_def sw_inv_def live_def fresh_wire_def
        notify_empty_def simple_wire.extend_def message_wire.fields_def)
  then show ?thesis using peep_terminate_after_requests by blast
qed

subsection \<open>Waiting for a response\<close>

text \<open>The function \<open>await\<close> prefers data to end-of-session: with a response at the front of the wire it returns that
  response's header even when the wire is closed or the server has shut the session down; only with
  nothing queued does a closed or shut-down wire yield the header (0, 0, 0); an idle open wire times out.\<close>

theorem await_response:
  assumes "sw_inv w"
  shows "(\<forall>h rest. live w = rh_get_buffer h @ rest \<longrightarrow>
            rw_await env w = (w\<lparr>sw_header_received := h\<rparr>, Inr h)) \<and>
    (live w = [] \<and> (rw_closed w \<or> rw_shutdown w) \<longrightarrow>
       snd (rw_await env w) = Inr (mk_response_header 0 0 0)) \<and>
    (live w = [] \<and> \<not> rw_closed w \<and> \<not> rw_shutdown w \<longrightarrow>
       snd (rw_await [] w) = Inl (runtime_error reason_connection_timeout
                     ''response has not been received within the specified time''))"
proof (intro conjI allI impI)
  fix h rest
  assume live: "live w = rh_get_buffer h @ rest"
  have "copy_header response_header_ops w = w\<lparr>sw_header_received := h\<rparr>"
    using rh.copy_header_front [of w h rest] assms live by simp
  moreover have "rh_size \<le> stored w"
    using stored_front [OF assms live] by (simp add: rh_size_def)
  ultimately have "rw_await_turn w = (w\<lparr>sw_header_received := h\<rparr>, Returned h)"
    by (simp add: rw_await_turn_def Let_def)
  then show "rw_await env w = (w\<lparr>sw_header_received := h\<rparr>, Inr h)" by (subst rw_await.simps) simp
next
  assume live: "live w = [] \<and> (rw_closed w \<or> rw_shutdown w)"
  then have "stored w = 0" using stored_live [OF assms] by (simp del: length_live)
  then show "snd (rw_await env w) = Inr (mk_response_header 0 0 0)"
    using live by (subst rw_await.simps) (auto simp: rw_await_turn_def rh_size_def Let_def)
next
  assume live: "live w = [] \<and> \<not> rw_closed w \<and> \<not> rw_shutdown w"
  then have "stored w = 0" using stored_live [OF assms] by (simp del: length_live)
  then show "snd (rw_await [] w) = Inl (runtime_error reason_connection_timeout
                     ''response has not been received within the specified time'')"
    using live by (subst rw_await.simps) (auto simp: rw_await_turn_def rh_size_def Let_def)
qed

definition sample_response_wire :: response_wire where
  "sample_response_wire =
     simple_wire.extend (fresh_wire response_header_ops 16) (response_wire.fields False False)"

lemma sample_response_wire_simps:
  "sw_inv sample_response_wire" "live sample_response_wire = []" "sw_capacity sample_response_wire = 16"
  "budget sample_response_wire = u64_limit" "\<not> rw_closed sample_response_wire"
  "\<not> rw_shutdown sample_response_wire"
  by (simp_all add: sample_response_wire_def sw_inv_def live_def budget_def fresh_wire_def
      simple_wire.extend_def response_wire.fields_def)

theorem await_response_witness:
  "snd (rw_await [] sample_response_wire) = Inl (runtime_error reason_connection_timeout
     ''response has not been received within the specified time'')"
  using await_response [OF sample_response_wire_simps(1)] by (simp add: sample_response_wire_simps)

text \<open>\<open>is_writable\<close> does not account for the header: it answers true for a response of which only the
  body fits, and the \<open>write\<close> that follows blocks.\<close>

theorem is_writable_ignores_header:
  "\<exists>w'. rw_write sample_response_wire [1, 2, 3] (mk_response_header 0 3 1) = Some w' \<and>
      rw_is_writable w' (mk_response_header 0 5 1) \<and>
      rw_write w' [1, 2, 3, 4, 5] (mk_response_header 0 5 1) = None"
proof (intro exI conjI)
  let ?w = "notify_empty (ring_put (ring_put sample_response_wire
    (rh_get_buffer (mk_response_header 0 3 1))) [1, 2, 3])"
  have put: "rw_write sample_response_wire [1, 2, 3] (mk_response_header 0 3 1) = Some ?w"
    and inv: "sw_inv ?w" and live: "live ?w = rh_get_buffer (mk_response_header 0 3 1) @ [1, 2, 3]"
    using rh.wire_write_fits [of sample_response_wire "[1, 2, 3]" "mk_response_header 0 3 1"]
      sample_response_wire_simps by (simp_all add: rw_write_def mk_response_header_def del: length_live)
  from put show "rw_write sample_response_wire [1, 2, 3] (mk_response_header 0 3 1) = Some ?w" .
  have "length (live ?w) = 11" by (simp only: live length_append) simp
  then have room: "room ?w = 5"
    using room_eq [OF inv] sample_response_wire_simps by (simp del: length_live)
  then show "rw_is_writable ?w (mk_response_header 0 5 1)"
    by (simp add: rw_is_writable_def mk_response_header_def)
  have "\<not> rw_closed ?w" "sw_capacity ?w = 16"
    using sample_response_wire_simps by (simp_all add: notify_empty_def ring_put_def)
  then show "rw_write ?w [1, 2, 3, 4, 5] (mk_response_header 0 5 1) = None"
    using rh.wire_write_blocks [of ?w "mk_response_header 0 5 1"] room
    by (simp add: rw_write_def mk_response_header_def)
qed

end
