(* ===== verification/Connection_Queue.thy ===== *)
theory Connection_Queue
  imports Monitor_Constants "HOL-Library.Multiset"
begin

unbundle bit_operations_syntax

section \<open>\<open>connection_queue\<close>: how clients obtain a session\<close>

text \<open>
  \<^verbatim>\<open>class connection_queue\<close> of \<^verbatim>\<open>src/tateyama/transport/wire.h\<close>, in shared memory.  A client takes a
  slot from \<open>q_free_\<close> and puts it on \<open>q_requested_\<close>; the server takes it from there, accepts or
  rejects it, and returns it to \<open>q_free_\<close> when the session ends.  A slot is a 64-bit number whose top
  bit marks an administrator request.  Every operation of \<open>index_queue\<close> that reads and writes its
  counters holds the queue's mutex, so an operation is one step here; the loop around
  \<open>compare_exchange_strong\<close> in \<open>try_pop\<close> runs under that mutex and succeeds at its first turn.
  \<open>condition_.notify_one\<close> is counted.
\<close>

type_synonym slot = "64 word"

datatype cq_exception = Cq_runtime_error runtime_error | Cq_out_of_range

subsection \<open>Admin bit\<close>

definition admin_bit :: slot where
  "admin_bit = push_bit 63 1"

definition set_admin :: "slot \<Rightarrow> slot" where
  "set_admin slot = slot OR admin_bit"

definition reset_admin :: "slot \<Rightarrow> slot" where
  "reset_admin slot = slot AND NOT admin_bit"

definition is_admin :: "slot \<Rightarrow> bool" where
  "is_admin slot \<longleftrightarrow> slot AND admin_bit \<noteq> 0"

definition session_id_indicating_error :: nat where
  "session_id_indicating_error = u64_limit - 1"

subsection \<open>\<open>index_queue\<close>\<close>

record index_queue =
  iq_queue :: "slot list"
  iq_capacity :: nat
  iq_admin_slots_in_use :: nat
  iq_condition :: nat
  iq_pushed :: nat
  iq_poped :: nat

text \<open>\<open>capacity_\<close> is a \<open>std::uint32_t\<close>, \<open>admin_slots_in_use_\<close> an \<open>std::atomic_uint8_t\<close>.\<close>

definition index_queue_new :: "nat \<Rightarrow> index_queue" where
  "index_queue_new n =
     (let cap = n mod 2 ^ 32
      in \<lparr>iq_queue = replicate cap 0, iq_capacity = cap, iq_admin_slots_in_use = 0,
          iq_condition = 0, iq_pushed = 0, iq_poped = 0\<rparr>)"

definition iq_index :: "index_queue \<Rightarrow> nat \<Rightarrow> nat" where
  "iq_index q n = n mod iq_capacity q"

definition iq_fill :: "index_queue \<Rightarrow> nat \<Rightarrow> index_queue" where
  "iq_fill q admin_slots =
     q\<lparr>iq_queue := map of_nat [0..<iq_capacity q],
       iq_pushed := (iq_capacity q + (2 ^ 32 - admin_slots)) mod 2 ^ 32\<rparr>"

definition iq_push :: "index_queue \<Rightarrow> slot \<Rightarrow> nat \<Rightarrow> index_queue" where
  "iq_push q sid admin_slots =
     (let at = iq_index q (u64_add (iq_pushed q) admin_slots);
          q' = (if admin_slots > 0 \<and> is_admin sid
                then q\<lparr>iq_queue := (iq_queue q)[at := reset_admin sid],
                       iq_admin_slots_in_use := (iq_admin_slots_in_use q + 255) mod 256,
                       iq_pushed := u64_add (iq_pushed q) 1\<rparr>
                else q\<lparr>iq_queue := (iq_queue q)[at := sid],
                       iq_pushed := u64_add (iq_pushed q) 1\<rparr>)
      in q'\<lparr>iq_condition := Suc (iq_condition q')\<rparr>)"

definition iq_try_pop :: "index_queue \<Rightarrow> index_queue \<times> slot result" where
  "iq_try_pop q =
     (let current = iq_poped q; ps = iq_pushed q
      in if u64_add ps (iq_admin_slots_in_use q) \<le> current
         then (q, Inl (runtime_error reason_internal ''no request slot is available for normal request''))
         else (q\<lparr>iq_poped := u64_add current 1\<rparr>, Inr (iq_queue q ! iq_index q current)))"

text \<open>In the admin variant \<open>admin_slots - admin_slots_in_use_\<close> is computed in \<open>int\<close> and then
  converted to \<open>unsigned long\<close>.\<close>

definition iq_try_pop_admin :: "index_queue \<Rightarrow> nat \<Rightarrow> index_queue \<times> slot result" where
  "iq_try_pop_admin q admin_slots =
     (let current = iq_poped q; ps = iq_pushed q
      in if (int ps + (int admin_slots - int (iq_admin_slots_in_use q))) mod int u64_limit \<le> int current
         then (q, Inl (runtime_error reason_internal ''no request slot is available for admin request''))
         else (q\<lparr>iq_poped := u64_add current 1,
                 iq_admin_slots_in_use := (iq_admin_slots_in_use q + 1) mod 256\<rparr>,
               Inr (set_admin (iq_queue q ! iq_index q current))))"

text \<open>The value \<open>wait\<close> returns once its \<open>timed_wait\<close> is over.\<close>

definition iq_wait :: "index_queue \<Rightarrow> bool" where
  "iq_wait q \<longleftrightarrow> iq_pushed q > iq_poped q"

definition iq_pop :: "index_queue \<Rightarrow> index_queue" where
  "iq_pop q = q\<lparr>iq_poped := u64_add (iq_poped q) 1\<rparr>"

definition iq_front :: "index_queue \<Rightarrow> slot" where
  "iq_front q = iq_queue q ! iq_index q (iq_poped q)"

definition iq_notify :: "index_queue \<Rightarrow> index_queue" where
  "iq_notify q = q\<lparr>iq_condition := Suc (iq_condition q)\<rparr>"

definition iq_size :: "index_queue \<Rightarrow> nat" where
  "iq_size q = u64_sub (iq_pushed q) (iq_poped q)"

subsection \<open>\<open>element\<close>\<close>

record element =
  el_session_id :: nat
  el_notified :: nat

definition element_new :: element where
  "element_new = \<lparr>el_session_id = 0, el_notified = 0\<rparr>"

definition el_notify :: "element \<Rightarrow> element" where
  "el_notify e = e\<lparr>el_notified := Suc (el_notified e)\<rparr>"

definition el_accept :: "element \<Rightarrow> nat \<Rightarrow> element" where
  "el_accept e session_id = el_notify (e\<lparr>el_session_id := session_id\<rparr>)"

definition el_reject :: "element \<Rightarrow> element" where
  "el_reject e = el_notify (e\<lparr>el_session_id := session_id_indicating_error\<rparr>)"

text \<open>\<open>None\<close>: the caller is still blocked on \<open>c_accepted_\<close>.  With a positive timeout the value is
  the one after the timed wait.\<close>

definition el_wait :: "element \<Rightarrow> int \<Rightarrow> nat result option" where
  "el_wait e timeout =
     (if el_session_id e \<noteq> 0 then Some (Inr (el_session_id e))
      else if timeout \<le> 0 then None
      else Some (Inl (runtime_error reason_connection_timeout
             ''connection response has not been accepted within the specified time'')))"

definition el_reuse :: "element \<Rightarrow> element" where
  "el_reuse e = e\<lparr>el_session_id := 0\<rparr>"

definition el_check :: "element \<Rightarrow> bool" where
  "el_check e \<longleftrightarrow> el_session_id e \<noteq> 0"

subsection \<open>\<open>connection_queue\<close>\<close>

record connection_queue =
  cq_free :: index_queue
  cq_requested :: index_queue
  cq_v_requested :: "element list"
  cq_terminate :: bool
  cq_admin_slots :: nat
  cq_s_terminated :: nat
  cq_session_id :: nat

definition connection_queue_new :: "nat \<Rightarrow> nat \<Rightarrow> connection_queue" where
  "connection_queue_new n as_n =
     \<lparr>cq_free = iq_fill (index_queue_new (n + as_n)) as_n,
      cq_requested = index_queue_new (n + as_n),
      cq_v_requested = replicate (n + as_n) element_new,
      cq_terminate = False, cq_admin_slots = as_n, cq_s_terminated = 0, cq_session_id = 0\<rparr>"

definition cq_request :: "connection_queue \<Rightarrow> connection_queue \<times> (cq_exception + slot)" where
  "cq_request c =
     (case iq_try_pop (cq_free c) of
        (q, Inl e) \<Rightarrow> (c\<lparr>cq_free := q\<rparr>, Inl (Cq_runtime_error e))
      | (q, Inr sid) \<Rightarrow>
          (c\<lparr>cq_free := q, cq_requested := iq_push (cq_requested c) sid 0\<rparr>, Inr sid))"

definition cq_request_admin :: "connection_queue \<Rightarrow> connection_queue \<times> (cq_exception + slot)" where
  "cq_request_admin c =
     (case iq_try_pop_admin (cq_free c) (cq_admin_slots c) of
        (q, Inl e) \<Rightarrow> (c\<lparr>cq_free := q\<rparr>, Inl (Cq_runtime_error e))
      | (q, Inr sid) \<Rightarrow>
          (c\<lparr>cq_free := q, cq_requested := iq_push (cq_requested c) sid 0\<rparr>, Inr sid))"

text \<open>\<open>v_requested_.at(reset_admin(sid))\<close> and its update.\<close>

definition cq_entry :: "connection_queue \<Rightarrow> slot \<Rightarrow> element option" where
  "cq_entry c sid =
     (let i = unat (reset_admin sid)
      in if i < length (cq_v_requested c) then Some (cq_v_requested c ! i) else None)"

definition cq_set_entry :: "connection_queue \<Rightarrow> slot \<Rightarrow> element \<Rightarrow> connection_queue" where
  "cq_set_entry c sid e = c\<lparr>cq_v_requested := (cq_v_requested c)[unat (reset_admin sid) := e]\<rparr>"

definition cq_wait :: "connection_queue \<Rightarrow> slot \<Rightarrow> int \<Rightarrow> (connection_queue \<times> (cq_exception + nat)) option" where
  "cq_wait c sid timeout =
     (if cq_terminate c
      then Some (c, Inl (Cq_runtime_error (runtime_error reason_connection ''server is shutting down now'')))
      else case cq_entry c sid of
             None \<Rightarrow> Some (c, Inl Cq_out_of_range)
           | Some e \<Rightarrow>
               (case el_wait e timeout of
                  None \<Rightarrow> None
                | Some (Inr rtnv) \<Rightarrow> Some (cq_set_entry c sid (el_reuse e), Inr rtnv)
                | Some (Inl ex) \<Rightarrow> Some (cq_set_entry c sid (el_reuse e), Inl (Cq_runtime_error ex))))"

definition cq_check :: "connection_queue \<Rightarrow> slot \<Rightarrow> cq_exception + bool" where
  "cq_check c sid = (case cq_entry c sid of None \<Rightarrow> Inl Cq_out_of_range | Some e \<Rightarrow> Inr (el_check e))"

definition cq_listen :: "connection_queue \<Rightarrow> connection_queue \<times> nat" where
  "cq_listen c =
     (if iq_wait (cq_requested c)
      then (let s = u64_add (cq_session_id c) 1 in (c\<lparr>cq_session_id := s\<rparr>, s))
      else (c, 0))"

definition cq_slot :: "connection_queue \<Rightarrow> slot" where
  "cq_slot c = iq_front (cq_requested c)"

definition cq_accept :: "connection_queue \<Rightarrow> slot \<Rightarrow> nat \<Rightarrow> connection_queue \<times> (cq_exception + unit)" where
  "cq_accept c sid session_id =
     (let c' = c\<lparr>cq_requested := iq_pop (cq_requested c)\<rparr>
      in case cq_entry c' sid of
           None \<Rightarrow> (c', Inl Cq_out_of_range)
         | Some e \<Rightarrow> (cq_set_entry c' sid (el_accept e session_id), Inr ()))"

definition cq_disconnect :: "connection_queue \<Rightarrow> slot \<Rightarrow> connection_queue" where
  "cq_disconnect c sid = c\<lparr>cq_free := iq_push (cq_free c) sid (cq_admin_slots c)\<rparr>"

definition cq_reject :: "connection_queue \<Rightarrow> slot \<Rightarrow> connection_queue \<times> (cq_exception + unit)" where
  "cq_reject c sid =
     (let c' = c\<lparr>cq_requested := iq_pop (cq_requested c)\<rparr>
      in case cq_entry c' sid of
           None \<Rightarrow> (c', Inl Cq_out_of_range)
         | Some e \<Rightarrow>
             (let c'' = cq_set_entry c' sid (el_reject e)
              in (c''\<lparr>cq_free := iq_push (cq_free c'') sid (cq_admin_slots c'')\<rparr>, Inr ())))"

text \<open>\<open>request_terminate\<close> up to its \<open>s_terminated_.wait()\<close>, that wait (\<open>None\<close> while it blocks), and the
  server's answer.\<close>

definition cq_request_terminate :: "connection_queue \<Rightarrow> connection_queue" where
  "cq_request_terminate c = c\<lparr>cq_terminate := True, cq_requested := iq_notify (cq_requested c)\<rparr>"

definition cq_s_terminated_wait :: "connection_queue \<Rightarrow> connection_queue option" where
  "cq_s_terminated_wait c =
     (if cq_s_terminated c = 0 then None else Some (c\<lparr>cq_s_terminated := cq_s_terminated c - 1\<rparr>))"

definition cq_is_terminated :: "connection_queue \<Rightarrow> bool" where
  "cq_is_terminated c = cq_terminate c"

definition cq_confirm_terminated :: "connection_queue \<Rightarrow> connection_queue" where
  "cq_confirm_terminated c = c\<lparr>cq_s_terminated := Suc (cq_s_terminated c)\<rparr>"

definition cq_pending_requests :: "connection_queue \<Rightarrow> nat" where
  "cq_pending_requests c = iq_size (cq_requested c)"

definition cq_session_id_accepted :: "connection_queue \<Rightarrow> nat" where
  "cq_session_id_accepted c = cq_session_id c"

section \<open>Laws\<close>

subsection \<open>The admin bit\<close>

lemma bit_admin_bit [simp]: "bit admin_bit n \<longleftrightarrow> n = 63"
  unfolding admin_bit_def by (simp only: bit_push_bit_iff bit_1_iff) auto

lemma is_admin_bit: "is_admin s \<longleftrightarrow> bit s 63"
proof
  assume "is_admin s"
  then have "\<exists>n. bit (s AND admin_bit) n" unfolding is_admin_def by (auto simp: bit_eq_iff)
  then show "bit s 63" by (auto simp: bit_and_iff)
next
  assume "bit s 63"
  then have "bit (s AND admin_bit) 63" by (simp add: bit_and_iff)
  then show "is_admin s" unfolding is_admin_def by auto
qed

lemma is_admin_set [simp]: "is_admin (set_admin s)"
  by (simp add: is_admin_bit set_admin_def bit_or_iff)

lemma is_admin_reset [simp]: "\<not> is_admin (reset_admin s)"
  by (simp add: is_admin_bit reset_admin_def bit_and_iff bit_not_iff)

lemma reset_admin_id: "\<not> is_admin s \<Longrightarrow> reset_admin s = s"
  by (rule bit_word_eqI) (auto simp: is_admin_bit reset_admin_def bit_and_iff bit_not_iff)

lemma reset_set_admin: "\<not> is_admin s \<Longrightarrow> reset_admin (set_admin s) = s"
  by (rule bit_word_eqI)
    (auto simp: is_admin_bit reset_admin_def set_admin_def bit_and_iff bit_or_iff bit_not_iff)

lemma not_admin_of_nat:
  assumes "i < 2 ^ 63"
  shows "\<not> is_admin (of_nat i)"
proof -
  have "unat (of_nat i :: slot) = i"
    using assms by (simp add: unat_of_nat)
  then have "bit (of_nat i :: slot) 63 = bit i 63"
    by (metis bit_unsigned_iff bit_imp_possible_bit possible_bit_nat)
  then show ?thesis using assms by (simp add: is_admin_bit bit_iff_odd)
qed

subsection \<open>A bounded queue, as an interface\<close>

locale bounded_fifo =
  fixes inv :: "'q \<Rightarrow> bool" and contents :: "'q \<Rightarrow> 'a list" and cap :: "'q \<Rightarrow> nat"
    and credit :: "'q \<Rightarrow> nat" and put :: "'q \<Rightarrow> 'a \<Rightarrow> 'q" and front :: "'q \<Rightarrow> 'a" and pop :: "'q \<Rightarrow> 'q"
  assumes put_inv: "inv q \<Longrightarrow> length (contents q) < cap q \<Longrightarrow> 0 < credit q \<Longrightarrow> inv (put q x)"
    and put_contents: "inv q \<Longrightarrow> length (contents q) < cap q \<Longrightarrow> 0 < credit q \<Longrightarrow>
          contents (put q x) = contents q @ [x]"
    and put_cap: "cap (put q x) = cap q"
    and put_credit: "inv q \<Longrightarrow> 0 < credit q \<Longrightarrow> credit (put q x) = credit q - 1"
    and front_contents: "inv q \<Longrightarrow> contents q = x # xs \<Longrightarrow> front q = x"
    and pop_inv: "inv q \<Longrightarrow> contents q \<noteq> [] \<Longrightarrow> inv (pop q)"
    and pop_contents: "inv q \<Longrightarrow> contents q \<noteq> [] \<Longrightarrow> contents (pop q) = tl (contents q)"
    and pop_cap: "cap (pop q) = cap q"
    and pop_credit: "credit (pop q) = credit q"
    and bounded: "inv q \<Longrightarrow> length (contents q) \<le> cap q"
begin

lemma put_all:
  "inv q \<Longrightarrow> length (contents q) + length xs \<le> cap q \<Longrightarrow> length xs \<le> credit q \<Longrightarrow>
   inv (fold (\<lambda>x q. put q x) xs q) \<and> contents (fold (\<lambda>x q. put q x) xs q) = contents q @ xs"
proof (induction xs arbitrary: q)
  case (Cons x xs)
  then show ?case
    using put_inv [of q x] put_contents [of q x] put_credit [of q x]
    by (simp add: put_cap)
qed simp

lemma front_pop_put:
  assumes "inv q" "contents q = x # xs" "length (contents q) < cap q" "0 < credit q"
  shows "front (put q y) = x" "contents (pop (put q y)) = xs @ [y]"
  using assms put_inv [of q y] put_contents [of q y] front_contents [of "put q y"] pop_contents [of "put q y"]
  by auto

end

subsection \<open>\<open>index_queue\<close> is such a queue\<close>

text \<open>With \<open>a\<close> slots in front of \<open>pushed_\<close> (the reserved admin slots of \<open>q_free_\<close>, none for
  \<open>q_requested_\<close>).\<close>

definition iq_contents :: "nat \<Rightarrow> index_queue \<Rightarrow> slot list" where
  "iq_contents a q = map (\<lambda>k. iq_queue q ! (k mod iq_capacity q)) [iq_poped q..<iq_pushed q + a]"

definition iq_inv :: "nat \<Rightarrow> index_queue \<Rightarrow> bool" where
  "iq_inv a q \<longleftrightarrow> 0 < iq_capacity q \<and> length (iq_queue q) = iq_capacity q \<and>
     iq_poped q \<le> iq_pushed q + a \<and> iq_pushed q + a \<le> iq_poped q + iq_capacity q \<and>
     iq_pushed q + a < u64_limit"

definition iq_credit :: "nat \<Rightarrow> index_queue \<Rightarrow> nat" where
  "iq_credit a q = u64_limit - 1 - (iq_pushed q + a)"

definition iq_put :: "nat \<Rightarrow> index_queue \<Rightarrow> slot \<Rightarrow> index_queue" where
  "iq_put a q s =
     q\<lparr>iq_queue := (iq_queue q)[iq_index q (u64_add (iq_pushed q) a) := s],
       iq_pushed := u64_add (iq_pushed q) 1\<rparr>"

lemma length_iq_contents [simp]: "length (iq_contents a q) = iq_pushed q + a - iq_poped q"
  by (simp add: iq_contents_def)

lemma mod_apart:
  assumes "k < n" "n < k + c"
  shows "n mod c \<noteq> k mod (c::nat)"
proof -
  have "\<not> c dvd n - k" using assms by (intro nat_dvd_not_less) auto
  then show ?thesis using assms by (simp add: mod_eq_dvd_iff_nat)
qed

lemma iq_contents_empty_iff [simp]: "iq_contents a q = [] \<longleftrightarrow> iq_pushed q + a \<le> iq_poped q"
  by (auto simp: iq_contents_def)

lemma iq_put_contents:
  assumes "iq_inv a q" "length (iq_contents a q) < iq_capacity q" "0 < iq_credit a q"
  shows "iq_contents a (iq_put a q x) = iq_contents a q @ [x]"
proof -
  let ?n = "iq_pushed q + a" and ?c = "iq_capacity q"
  have small: "u64_add (iq_pushed q) a = ?n" "u64_add (iq_pushed q) (Suc 0) = iq_pushed q + 1"
    using assms by (auto simp: u64_simps iq_inv_def iq_credit_def)
  have "(iq_queue q)[?n mod ?c := x] ! (k mod ?c) = iq_queue q ! (k mod ?c)"
    if "k \<in> {iq_poped q..<?n}" for k
    using that assms mod_apart [of k ?n ?c] by (auto simp: iq_inv_def)
  moreover have "(iq_queue q)[?n mod ?c := x] ! (?n mod ?c) = x"
    using assms(1) by (simp add: iq_inv_def)
  ultimately show ?thesis
    using assms(1) by (simp add: iq_contents_def iq_put_def iq_index_def small iq_inv_def)
qed

interpretation iq: bounded_fifo "iq_inv a" "iq_contents a" iq_capacity "iq_credit a" "iq_put a"
  iq_front iq_pop for a
proof
  fix q :: index_queue and x :: slot and xs
  show "iq_contents a (iq_put a q x) = iq_contents a q @ [x]"
    if "iq_inv a q" "length (iq_contents a q) < iq_capacity q" "0 < iq_credit a q"
    using that by (rule iq_put_contents)
  show "iq_front q = x" if "iq_inv a q" "iq_contents a q = x # xs"
    using that by (auto simp: iq_contents_def iq_front_def iq_index_def upt_eq_Cons_conv)
  show "iq_contents a (iq_pop q) = tl (iq_contents a q)" if "iq_inv a q" "iq_contents a q \<noteq> []"
    using that by (auto simp: iq_contents_def iq_pop_def iq_inv_def u64_simps upt_conv_Cons)
qed (auto simp: iq_inv_def iq_put_def iq_pop_def iq_credit_def u64_simps)

lemma iq_push_put:
  "iq_contents b (iq_push q s a) = iq_contents b (iq_put a q (if 0 < a then reset_admin s else s))"
  "iq_inv b (iq_push q s a) = iq_inv b (iq_put a q (if 0 < a then reset_admin s else s))"
  "iq_capacity (iq_push q s a) = iq_capacity q"
  "iq_pushed (iq_push q s a) = u64_add (iq_pushed q) 1"
  "iq_admin_slots_in_use (iq_push q s a) =
     (if 0 < a \<and> is_admin s then (iq_admin_slots_in_use q + 255) mod 256 else iq_admin_slots_in_use q)"
  by (simp_all add: iq_push_def iq_put_def iq_contents_def iq_inv_def Let_def reset_admin_id)

lemma iq_push_free:
  assumes "iq_inv a q" "length (iq_contents a q) < iq_capacity q" "0 < iq_credit a q"
    and "a = 0 \<longrightarrow> \<not> is_admin s"
  shows "iq_inv a (iq_push q s a) \<and> iq_contents a (iq_push q s a) = iq_contents a q @ [reset_admin s]"
  using assms iq.put_inv [of a q] iq.put_contents [of a q] unfolding iq_push_put
  by (cases "a = 0") (simp_all add: reset_admin_id)

lemma iq_push_requested:
  assumes "iq_inv 0 q" "length (iq_contents 0 q) < iq_capacity q" "0 < iq_credit 0 q"
  shows "iq_inv 0 (iq_push q s 0) \<and> iq_contents 0 (iq_push q s 0) = iq_contents 0 q @ [s]"
  using assms iq.put_inv [of 0 q] iq.put_contents [of 0 q] unfolding iq_push_put by simp

subsection \<open>The abstract slot pool\<close>

text \<open>The specification of \<open>connection_queue\<close>: slots \<open>0..<C\<close> are each either free or held (requested or
  in a session), \<open>u\<close> of those held are marked as administrator slots, and enough free slots are left
  for the administrators that may still come.\<close>

definition all_slots :: "nat \<Rightarrow> slot multiset" where
  "all_slots C = mset (map of_nat [0..<C])"

definition slot_pool :: "nat \<Rightarrow> nat \<Rightarrow> slot list \<Rightarrow> slot list \<Rightarrow> nat \<Rightarrow> bool" where
  "slot_pool a C fl out u \<longleftrightarrow>
     (\<forall>s\<in>set fl. \<not> is_admin s) \<and>
     mset fl + image_mset reset_admin (mset out) = all_slots C \<and>
     u = length (filter is_admin out) \<and> u \<le> a \<and> a \<le> length fl + u"

lemma slot_pool_size:
  assumes "slot_pool a C fl out u"
  shows "length fl + length out = C"
proof -
  have "size (mset fl + image_mset reset_admin (mset out)) = size (all_slots C)"
    using assms by (simp add: slot_pool_def)
  then show ?thesis by (simp add: all_slots_def)
qed

lemma slot_pool_range:
  assumes "slot_pool a C fl out u" "s \<in> set out" "C \<le> 2 ^ 32"
  shows "unat (reset_admin s) < C"
proof -
  have "reset_admin s \<in># all_slots C"
    using assms(1,2) unfolding slot_pool_def by (metis image_eqI in_image_mset set_mset_mset union_iff)
  then obtain i where "i < C" "reset_admin s = of_nat i" by (auto simp: all_slots_def)
  then show ?thesis using assms(3) by (simp add: unat_of_nat)
qed

lemma slot_pool_distinct:
  assumes "slot_pool a C fl out u" "C \<le> 2 ^ 32"
  shows "distinct (fl @ map reset_admin out)"
proof -
  have "inj_on (of_nat :: nat \<Rightarrow> slot) {0..<C}"
    using assms(2) by (auto simp: inj_on_def word_of_nat_eq_iff take_bit_nat_eq_self)
  then have "distinct (map (of_nat :: nat \<Rightarrow> slot) [0..<C])" by (simp add: distinct_map)
  moreover have "mset (fl @ map reset_admin out) = mset (map of_nat [0..<C])"
    using assms(1) by (simp add: slot_pool_def all_slots_def)
  ultimately show ?thesis by (metis mset_eq_imp_distinct_iff)
qed

lemma slot_pool_perm:
  assumes "slot_pool a C fl out u" "mset out = mset out'"
  shows "slot_pool a C fl out' u"
proof -
  have "length (filter is_admin out) = length (filter is_admin out')"
    using assms(2) by (metis mset_filter size_mset)
  then show ?thesis using assms by (simp add: slot_pool_def)
qed

lemma slot_pool_take:
  assumes "slot_pool a C (s # fl) out u" "a \<le> length fl + u"
  shows "slot_pool a C fl (s # out) u"
  using assms by (auto simp: slot_pool_def reset_admin_id)

lemma slot_pool_take_admin:
  assumes "slot_pool a C (s # fl) out u" "u < a"
  shows "slot_pool a C fl (set_admin s # out) (Suc u)"
  using assms by (auto simp: slot_pool_def reset_set_admin)

lemma slot_pool_give:
  assumes "slot_pool a C fl (s # out) u"
  shows "slot_pool a C (fl @ [reset_admin s]) out (if is_admin s then u - 1 else u)"
  using assms by (cases "is_admin s") (auto simp: slot_pool_def)

lemma slot_pool_initial:
  assumes "n + a < 2 ^ 32"
  shows "slot_pool a (n + a) (map of_nat [0..<n + a]) [] 0"
  using assms by (auto simp: slot_pool_def all_slots_def intro!: not_admin_of_nat)

section \<open>Clients and server sharing the queue\<close>

text \<open>The state is the queue and the list of slots of the sessions the server holds.  The server accepts
  or rejects the slot at the front only (it has called \<open>slot\<close>), and disconnects only sessions it holds.
  An administrator request is issued while fewer than \<open>admin_slots_\<close> administrator slots are held.\<close>

inductive cq_step :: "connection_queue \<times> slot list \<Rightarrow> connection_queue \<times> slot list \<Rightarrow> bool" where
  request: "cq_request c = (c', r) \<Longrightarrow> cq_step (c, ss) (c', ss)"
| request_admin:
    "iq_admin_slots_in_use (cq_free c) < cq_admin_slots c \<Longrightarrow> cq_request_admin c = (c', r) \<Longrightarrow>
     cq_step (c, ss) (c', ss)"
| wait: "cq_wait c sid timeout = Some (c', r) \<Longrightarrow> cq_step (c, ss) (c', ss)"
| listen: "cq_listen c = (c', session_id) \<Longrightarrow> cq_step (c, ss) (c', ss)"
| accept:
    "iq_wait (cq_requested c) \<Longrightarrow> cq_accept c (cq_slot c) session_id = (c', r) \<Longrightarrow>
     cq_step (c, ss) (c', cq_slot c # ss)"
| reject: "iq_wait (cq_requested c) \<Longrightarrow> cq_reject c (cq_slot c) = (c', r) \<Longrightarrow> cq_step (c, ss) (c', ss)"
| disconnect: "sid \<in> set ss \<Longrightarrow> cq_step (c, ss) (cq_disconnect c sid, remove1 sid ss)"
| terminate: "cq_step (c, ss) (cq_request_terminate c, ss)"
| confirm: "cq_step (c, ss) (cq_confirm_terminated c, ss)"

inductive cq_reach :: "nat \<Rightarrow> nat \<Rightarrow> nat \<Rightarrow> connection_queue \<times> slot list \<Rightarrow> bool" for n a where
  start: "cq_reach n a 0 (connection_queue_new n a, [])"
| step: "cq_reach n a k s \<Longrightarrow> cq_step s t \<Longrightarrow> cq_reach n a (Suc k) t"

definition cq_held :: "connection_queue \<Rightarrow> slot list \<Rightarrow> slot list" where
  "cq_held c ss = iq_contents 0 (cq_requested c) @ ss"

definition cq_inv :: "nat \<Rightarrow> nat \<Rightarrow> nat \<Rightarrow> connection_queue \<times> slot list \<Rightarrow> bool" where
  "cq_inv n a k s =
     (case s of (c, ss) \<Rightarrow>
        iq_inv a (cq_free c) \<and> iq_inv 0 (cq_requested c) \<and>
        iq_capacity (cq_free c) = n + a \<and> iq_capacity (cq_requested c) = n + a \<and>
        cq_admin_slots c = a \<and> length (cq_v_requested c) = n + a \<and>
        iq_pushed (cq_free c) \<le> n + k \<and> iq_pushed (cq_requested c) \<le> k \<and>
        slot_pool a (n + a) (iq_contents a (cq_free c)) (cq_held c ss) (iq_admin_slots_in_use (cq_free c)))"

lemma cq_inv_mono: "cq_inv n a k s \<Longrightarrow> k \<le> k' \<Longrightarrow> cq_inv n a k' s"
  by (auto simp: cq_inv_def)

lemma cq_inv_cong:
  assumes "cq_inv n a k (c, ss)" "cq_free c' = cq_free c" "cq_admin_slots c' = cq_admin_slots c"
    and "iq_contents 0 (cq_requested c') = iq_contents 0 (cq_requested c)"
    and "iq_inv 0 (cq_requested c')" "iq_pushed (cq_requested c') = iq_pushed (cq_requested c)"
    and "iq_capacity (cq_requested c') = iq_capacity (cq_requested c)"
    and "length (cq_v_requested c') = length (cq_v_requested c)"
  shows "cq_inv n a k (c', ss)"
  using assms by (simp add: cq_inv_def cq_held_def)

lemma cq_new_inv:
  assumes "a < 256" "0 < n + a" "n + a < 2 ^ 32"
  shows "cq_inv n a 0 (connection_queue_new n a, [])"
proof -
  have fill: "(n + a + (2 ^ 32 - a)) mod 2 ^ 32 = n" using assms by simp
  have mod: "(n + a) mod 2 ^ 32 = n + a" using assms(3) by simp
  have "iq_contents a (cq_free (connection_queue_new n a)) = map of_nat [0..<n + a]"
    using mod fill by (auto simp: iq_contents_def connection_queue_new_def iq_fill_def index_queue_new_def Let_def)
  moreover have "iq_contents 0 (cq_requested (connection_queue_new n a)) = []"
    by (simp add: connection_queue_new_def index_queue_new_def Let_def)
  ultimately show ?thesis
    using slot_pool_initial [OF assms(3)] assms mod fill
    by (simp add: cq_inv_def cq_held_def iq_inv_def)
       (simp add: connection_queue_new_def iq_fill_def index_queue_new_def Let_def iq_contents_def)
qed

subsection \<open>What \<open>try_pop\<close> decides\<close>

lemma iq_try_pop_spec:
  assumes "iq_inv a q" "iq_admin_slots_in_use q \<le> a"
  shows "iq_try_pop q =
    (if length (iq_contents a q) \<le> a - iq_admin_slots_in_use q
     then (q, Inl (runtime_error reason_internal ''no request slot is available for normal request''))
     else (iq_pop q, Inr (hd (iq_contents a q))))"
proof -
  have small: "u64_add (iq_pushed q) (iq_admin_slots_in_use q) = iq_pushed q + iq_admin_slots_in_use q"
    using assms by (simp add: u64_simps iq_inv_def)
  have "iq_queue q ! iq_index q (iq_poped q) = hd (iq_contents a q)" if "iq_contents a q \<noteq> []"
    using that iq.front_contents [OF assms(1), of "hd (iq_contents a q)" "tl (iq_contents a q)"]
    by (simp add: iq_front_def)
  moreover have "iq_pushed q + iq_admin_slots_in_use q \<le> iq_poped q \<longleftrightarrow>
      length (iq_contents a q) \<le> a - iq_admin_slots_in_use q"
    using assms by (auto simp: iq_inv_def)
  ultimately show ?thesis
    using assms by (auto simp: iq_try_pop_def small iq_pop_def Let_def)
qed

lemma iq_try_pop_admin_spec:
  assumes "iq_inv a q" "iq_admin_slots_in_use q \<le> a"
  shows "iq_try_pop_admin q a =
    (if length (iq_contents a q) \<le> iq_admin_slots_in_use q
     then (q, Inl (runtime_error reason_internal ''no request slot is available for admin request''))
     else ((iq_pop q)\<lparr>iq_admin_slots_in_use := (iq_admin_slots_in_use q + 1) mod 256\<rparr>,
           Inr (set_admin (hd (iq_contents a q)))))"
proof -
  let ?u = "iq_admin_slots_in_use q"
  have small: "(int (iq_pushed q) + (int a - int ?u)) mod int u64_limit = int (iq_pushed q + a - ?u)"
    using assms by (subst mod_pos_pos_trivial) (auto simp: iq_inv_def)
  have "iq_queue q ! iq_index q (iq_poped q) = hd (iq_contents a q)" if "iq_contents a q \<noteq> []"
    using that iq.front_contents [OF assms(1), of "hd (iq_contents a q)" "tl (iq_contents a q)"]
    by (simp add: iq_front_def)
  moreover have "int (iq_pushed q + a - ?u) \<le> int (iq_poped q) \<longleftrightarrow> length (iq_contents a q) \<le> ?u"
    using assms by (auto simp: iq_inv_def)
  ultimately show ?thesis
    using assms unfolding iq_try_pop_admin_def Let_def small
    by (auto simp: iq_pop_def)
qed

lemma iq_notify_simps [simp]:
  "iq_contents b (iq_notify q) = iq_contents b q" "iq_inv b (iq_notify q) = iq_inv b q"
  "iq_pushed (iq_notify q) = iq_pushed q" "iq_capacity (iq_notify q) = iq_capacity q"
  by (simp_all add: iq_notify_def iq_contents_def iq_inv_def)

subsection \<open>Every step keeps every slot in exactly one place\<close>

lemma cq_inv_take:
  assumes inv: "cq_inv n a k (c, ss)" and k: "k < 2 ^ 63" and C: "n + a < 2 ^ 32"
    and fl: "iq_contents a (cq_free c) \<noteq> []"
    and pool: "slot_pool a (n + a) (tl (iq_contents a (cq_free c))) (sid # cq_held c ss) u"
    and q: "q = (iq_pop (cq_free c))\<lparr>iq_admin_slots_in_use := u\<rparr>"
  shows "cq_inv n a (Suc k) (c\<lparr>cq_free := q, cq_requested := iq_push (cq_requested c) sid 0\<rparr>, ss)"
proof -
  let ?r = "cq_requested c"
  have c: "iq_inv a (cq_free c)" "iq_inv 0 ?r" "iq_capacity ?r = n + a" "iq_pushed ?r \<le> k"
      "iq_pushed (cq_free c) \<le> n + k"
    using inv by (simp_all add: cq_inv_def)
  have "length (iq_contents 0 ?r) < n + a" "0 < iq_credit 0 ?r"
    using slot_pool_size [OF pool] k c(4) by (simp_all add: cq_held_def iq_credit_def)
  then have r: "iq_inv 0 (iq_push ?r sid 0)" "iq_contents 0 (iq_push ?r sid 0) = iq_contents 0 ?r @ [sid]"
    using iq_push_requested [OF c(2)] c(3) by simp_all
  have free: "iq_inv a q" "iq_contents a q = tl (iq_contents a (cq_free c))" "iq_pushed q = iq_pushed (cq_free c)"
      "iq_capacity q = iq_capacity (cq_free c)" "iq_admin_slots_in_use q = u"
    using iq.pop_inv [OF c(1) fl] iq.pop_contents [OF c(1) fl]
    by (simp_all add: q iq_inv_def iq_contents_def) (simp_all add: iq_pop_def)
  have "slot_pool a (n + a) (iq_contents a q) (iq_contents 0 (iq_push ?r sid 0) @ ss) u"
    by (rule slot_pool_perm [OF pool [folded free(2)]]) (simp add: cq_held_def r(2))
  moreover have "u64_add (iq_pushed ?r) 1 \<le> Suc k" using c(4) k by (simp add: u64_simps)
  ultimately show ?thesis
    using inv r free c by (simp add: cq_inv_def cq_held_def iq_push_put)
qed

lemma cq_inv_parts:
  assumes "cq_inv n a k (c, ss)"
  shows "iq_inv a (cq_free c)" "iq_inv 0 (cq_requested c)"
    "slot_pool a (n + a) (iq_contents a (cq_free c)) (cq_held c ss) (iq_admin_slots_in_use (cq_free c))"
    "iq_admin_slots_in_use (cq_free c) \<le> a" "cq_admin_slots c = a" "length (cq_v_requested c) = n + a"
    "iq_pushed (cq_free c) \<le> n + k" "iq_capacity (cq_free c) = n + a"
  using assms by (auto simp: cq_inv_def slot_pool_def)

lemma cq_request_inv:
  assumes inv: "cq_inv n a k (c, ss)" and k: "k < 2 ^ 63" "n + a < 2 ^ 32" and req: "cq_request c = (c', r)"
  shows "cq_inv n a (Suc k) (c', ss)"
proof -
  note p = cq_inv_parts [OF inv]
  let ?fl = "iq_contents a (cq_free c)" and ?u = "iq_admin_slots_in_use (cq_free c)"
  show ?thesis
  proof (cases "length ?fl \<le> a - ?u")
    case True
    then have "c' = c" using req p(4) by (simp add: cq_request_def iq_try_pop_spec [OF p(1)])
    then show ?thesis using cq_inv_mono [OF inv] by simp
  next
    case False
    then have ne: "?fl \<noteq> []" by auto
    then have fl: "?fl = hd ?fl # tl ?fl" by (cases ?fl) auto
    have "slot_pool a (n + a) (tl ?fl) (hd ?fl # cq_held c ss) ?u"
      by (rule slot_pool_take) (use p(3) fl False in auto)
    moreover have "c' = c\<lparr>cq_free := iq_pop (cq_free c), cq_requested := iq_push (cq_requested c) (hd ?fl) 0\<rparr>"
      using req p(4) False by (simp add: cq_request_def iq_try_pop_spec [OF p(1)])
    moreover have "iq_pop (cq_free c) = (iq_pop (cq_free c))\<lparr>iq_admin_slots_in_use := ?u\<rparr>"
      by (simp add: iq_pop_def)
    ultimately show ?thesis
      using cq_inv_take [OF inv k ne, of "hd ?fl" ?u] by metis
  qed
qed

lemma cq_request_admin_inv:
  assumes inv: "cq_inv n a k (c, ss)" and k: "k < 2 ^ 63" "n + a < 2 ^ 32" and a: "a < 256"
    and guard: "iq_admin_slots_in_use (cq_free c) < a" and req: "cq_request_admin c = (c', r)"
  shows "cq_inv n a (Suc k) (c', ss)"
proof -
  note p = cq_inv_parts [OF inv]
  let ?fl = "iq_contents a (cq_free c)" and ?u = "iq_admin_slots_in_use (cq_free c)"
  show ?thesis
  proof (cases "length ?fl \<le> ?u")
    case True
    then have "c' = c" using req p(4,5) by (simp add: cq_request_admin_def iq_try_pop_admin_spec [OF p(1)])
    then show ?thesis using cq_inv_mono [OF inv] by simp
  next
    case False
    then have ne: "?fl \<noteq> []" by auto
    then have fl: "?fl = hd ?fl # tl ?fl" by (cases ?fl) auto
    have "slot_pool a (n + a) (tl ?fl) (set_admin (hd ?fl) # cq_held c ss) (Suc ?u)"
      by (rule slot_pool_take_admin) (use p(3) fl guard in auto)
    moreover have "c' = c\<lparr>cq_free := (iq_pop (cq_free c))\<lparr>iq_admin_slots_in_use := Suc ?u\<rparr>,
        cq_requested := iq_push (cq_requested c) (set_admin (hd ?fl)) 0\<rparr>"
      using req p(4,5) False guard a by (simp add: cq_request_admin_def iq_try_pop_admin_spec [OF p(1)])
    ultimately show ?thesis
      using cq_inv_take [OF inv k ne, of "set_admin (hd ?fl)" "Suc ?u"] by metis
  qed
qed

text \<open>The server's side: the slot at the front leaves \<open>q_requested_\<close>, a slot returns to \<open>q_free_\<close>.\<close>

lemma cq_requested_front:
  assumes "cq_inv n a k (c, ss)" "iq_wait (cq_requested c)"
  shows "iq_contents 0 (cq_requested c) = cq_slot c # iq_contents 0 (iq_pop (cq_requested c))"
    "iq_inv 0 (iq_pop (cq_requested c))"
proof -
  have inv: "iq_inv 0 (cq_requested c)" and ne: "iq_contents 0 (cq_requested c) \<noteq> []"
    using assms by (simp_all add: cq_inv_def iq_wait_def)
  show "iq_inv 0 (iq_pop (cq_requested c))" by (rule iq.pop_inv [OF inv ne])
  show "iq_contents 0 (cq_requested c) = cq_slot c # iq_contents 0 (iq_pop (cq_requested c))"
    using iq.front_contents [OF inv] iq.pop_contents [OF inv ne] ne
    by (cases "iq_contents 0 (cq_requested c)") (simp_all add: cq_slot_def del: iq_contents_empty_iff)
qed

lemma cq_inv_popped:
  assumes inv: "cq_inv n a k (c, ss)" and "iq_wait (cq_requested c)"
  shows "cq_inv n a k (c\<lparr>cq_requested := iq_pop (cq_requested c)\<rparr>, cq_slot c # ss)"
proof -
  note f = cq_requested_front [OF assms]
  have "slot_pool a (n + a) (iq_contents a (cq_free c))
      (iq_contents 0 (iq_pop (cq_requested c)) @ cq_slot c # ss) (iq_admin_slots_in_use (cq_free c))"
    by (rule slot_pool_perm [OF cq_inv_parts(3) [OF inv]]) (simp add: cq_held_def f(1))
  then show ?thesis
    using inv f(2) by (simp add: cq_inv_def cq_held_def iq_pop_def)
qed

lemma cq_inv_give:
  assumes inv: "cq_inv n a k (c, ss)" and sid: "sid \<in> set ss" and k: "k < 2 ^ 63" "n + a < 2 ^ 32" and a: "a < 256"
  shows "cq_inv n a (Suc k) (c\<lparr>cq_free := iq_push (cq_free c) sid a\<rparr>, remove1 sid ss)"
proof -
  note p = cq_inv_parts [OF inv]
  let ?q = "cq_free c"
  let ?u = "iq_admin_slots_in_use ?q"
  have pool: "slot_pool a (n + a) (iq_contents a ?q) (sid # iq_contents 0 (cq_requested c) @ remove1 sid ss) ?u"
    by (rule slot_pool_perm [OF p(3)]) (use sid in \<open>simp add: cq_held_def\<close>)
  then have adm: "is_admin sid \<Longrightarrow> 0 < ?u" by (auto simp: slot_pool_def)
  have "length (iq_contents a ?q) < iq_capacity ?q" "0 < iq_credit a ?q" "a = 0 \<longrightarrow> \<not> is_admin sid"
    using slot_pool_size [OF pool] p(7,8) k adm p(4) by (auto simp: iq_credit_def)
  note free = iq_push_free [OF p(1) this]
  have "(?u + 255) mod 256 = ?u - 1" if "0 < ?u"
    using that p(4) a by (cases ?u) auto
  then have u: "iq_admin_slots_in_use (iq_push ?q sid a) = (if is_admin sid then ?u - 1 else ?u)"
    using adm p(4) by (auto simp: iq_push_put(5))
  have "u64_add (iq_pushed ?q) 1 \<le> n + Suc k" using p(7) k by (simp add: u64_simps)
  then show ?thesis
    using inv free slot_pool_give [OF pool] u
    by (simp add: cq_inv_def cq_held_def iq_push_put(3,4))
qed

lemma cq_set_entry_inv: "cq_inv n a k (cq_set_entry c sid e, ss) = cq_inv n a k (c, ss)"
  by (simp add: cq_inv_def cq_set_entry_def cq_held_def)

lemma cq_entry_held:
  assumes "cq_inv n a k (c, ss)" "n + a < 2 ^ 32" "sid \<in> set (cq_held c ss)"
  shows "unat (reset_admin sid) < length (cq_v_requested c)"
  using slot_pool_range [OF cq_inv_parts(3) [OF assms(1)] assms(3)] assms(2) cq_inv_parts(6) [OF assms(1)]
  by simp

lemma cq_step_inv:
  assumes "cq_step s t" "cq_inv n a k s" "k < 2 ^ 63" "n + a < 2 ^ 32" "a < 256"
  shows "cq_inv n a (Suc k) t"
  using assms
proof (cases rule: cq_step.cases)
  case (accept c session_id c' r ss)
  let ?c = "c\<lparr>cq_requested := iq_pop (cq_requested c)\<rparr>"
  have inv: "cq_inv n a k (?c, cq_slot c # ss)"
    using cq_inv_popped assms(2) accept by blast
  have "c' = ?c \<or> (\<exists>e. c' = cq_set_entry ?c (cq_slot c) e)"
    using accept(4) by (auto simp: cq_accept_def Let_def split: option.splits)
  then show ?thesis
    using cq_inv_mono [OF inv, of "Suc k"] accept by (auto simp: cq_set_entry_inv)
next
  case (reject c c' r ss)
  let ?c = "c\<lparr>cq_requested := iq_pop (cq_requested c)\<rparr>"
  have inv: "cq_inv n a k (?c, cq_slot c # ss)"
    using cq_inv_popped assms(2) reject by blast
  have "cq_entry ?c (cq_slot c) \<noteq> None"
    using cq_entry_held [OF inv assms(4), of "cq_slot c"] by (simp add: cq_entry_def cq_held_def)
  then obtain e where e: "cq_entry ?c (cq_slot c) = Some e" by blast
  let ?d = "cq_set_entry ?c (cq_slot c) (el_reject e)"
  have "cq_inv n a (Suc k) (?d\<lparr>cq_free := iq_push (cq_free ?d) (cq_slot c) a\<rparr>, ss)"
    using cq_inv_give [of n a k ?d "cq_slot c # ss" "cq_slot c"] inv assms(3-5)
    by (simp add: cq_set_entry_inv)
  moreover have "cq_admin_slots ?d = a"
    using cq_inv_parts(5) [OF inv] by (simp add: cq_set_entry_def)
  ultimately show ?thesis
    using reject e by (auto simp: cq_reject_def Let_def)
next
  case (disconnect sid ss c)
  then show ?thesis
    using cq_inv_give [of n a k c ss sid] assms cq_inv_parts(5) [of n a k c ss]
    by (simp add: cq_disconnect_def)
next
  case (wait c sid timeout c' r ss)
  then have "c' = c \<or> (\<exists>e. c' = cq_set_entry c sid e)"
    by (auto simp: cq_wait_def split: if_splits option.splits sum.splits)
  then show ?thesis
    using wait assms(2) cq_inv_mono [of n a k _ "Suc k"] by (auto simp: cq_set_entry_inv)
next
  case (listen c c' session_id ss)
  then show ?thesis
    using assms(2) cq_inv_mono [of n a k "(c, ss)" "Suc k"] cq_inv_cong [of n a "Suc k" c ss c']
    by (auto simp: cq_listen_def Let_def cq_inv_parts(2) split: if_splits)
next
  case (terminate c ss)
  then show ?thesis
    using assms(2) cq_inv_mono [of n a k "(c, ss)" "Suc k"]
    by (simp add: cq_request_terminate_def cq_inv_def cq_held_def)
next
  case (confirm c ss)
  then show ?thesis
    using assms(2) cq_inv_mono [of n a k "(c, ss)" "Suc k"]
    by (simp add: cq_confirm_terminated_def cq_inv_def cq_held_def)
next
  case (request c c' r ss)
  then show ?thesis using assms cq_request_inv by blast
next
  case (request_admin c c' r ss)
  then show ?thesis
    using assms cq_request_admin_inv [of n a k c ss] cq_inv_parts(5) [of n a k c ss] by auto
qed

lemma cq_reach_inv:
  assumes "cq_reach n a k s" "k < 2 ^ 63" "0 < n + a" "n + a < 2 ^ 32" "a < 256"
  shows "cq_inv n a k s"
  using assms by (induction rule: cq_reach.induct) (auto intro: cq_new_inv cq_step_inv)

section \<open>Properties\<close>

text \<open>C5: as long as no more than \<open>admin_slots\<close> administrator requests are open at a time, every slot is in
  exactly one place (free, requested, or in a session) after any sequence of operations of clients and
  server, so no slot is ever handed to two clients.\<close>

theorem slots_exclusive:
  assumes "cq_reach n a k (c, ss)" "k < 2 ^ 63" "0 < n + a" "n + a < 2 ^ 32" "a < 256"
  shows "mset (iq_contents a (cq_free c)) + image_mset reset_admin (mset (cq_held c ss)) = all_slots (n + a) \<and>
    distinct (map reset_admin (cq_held c ss))"
proof -
  note pool = cq_inv_parts(3) [OF cq_reach_inv [OF assms]]
  show ?thesis
    using slot_pool_distinct [OF pool] pool assms(4) by (simp add: slot_pool_def)
qed

text \<open>A run for the witnesses: a client's request, then an administrator's.\<close>

definition sample_queue :: connection_queue where
  "sample_queue = fst (cq_request_admin (fst (cq_request (connection_queue_new 2 1))))"

lemma sample_queue_reach: "cq_reach 2 1 2 (sample_queue, [])"
proof -
  let ?c = "fst (cq_request (connection_queue_new 2 1))"
  have "cq_step (connection_queue_new 2 1, []) (?c, [])"
    by (rule cq_step.request [where r = "snd (cq_request (connection_queue_new 2 1))"]) simp
  moreover have "cq_step (?c, []) (sample_queue, [])"
    by (rule cq_step.request_admin [where r = "snd (cq_request_admin ?c)"])
      (simp_all add: sample_queue_def connection_queue_new_def cq_request_def iq_try_pop_def iq_fill_def
        index_queue_new_def Let_def u64_add_def)
  ultimately have "cq_reach 2 1 (Suc (Suc 0)) (sample_queue, [])"
    by (blast intro: cq_reach.intros)
  then show ?thesis by (simp add: numeral_2_eq_2)
qed

theorem slots_exclusive_witness:
  "mset (iq_contents 1 (cq_free sample_queue)) + image_mset reset_admin (mset (cq_held sample_queue [])) =
     all_slots 3 \<and> distinct (map reset_admin (cq_held sample_queue []))"
  using slots_exclusive [OF sample_queue_reach] by simp

text \<open>A request is refused exactly when the free slots left are those reserved for administrators; when it
  is granted, the client gets the slot that has been free longest and its request is queued behind those
  already waiting.\<close>

theorem request_decision:
  assumes "cq_reach n a k (c, ss)" "k < 2 ^ 63" "0 < n + a" "n + a < 2 ^ 32" "a < 256"
  defines "fl \<equiv> iq_contents a (cq_free c)"
  shows "if length fl \<le> a - iq_admin_slots_in_use (cq_free c)
    then cq_request c =
      (c, Inl (Cq_runtime_error
            (runtime_error reason_internal ''no request slot is available for normal request'')))
    else cq_request c =
      (c\<lparr>cq_free := iq_pop (cq_free c), cq_requested := iq_push (cq_requested c) (hd fl) 0\<rparr>, Inr (hd fl)) \<and>
      iq_contents 0 (iq_push (cq_requested c) (hd fl) 0) = iq_contents 0 (cq_requested c) @ [hd fl]"
proof -
  note inv = cq_reach_inv [OF assms(1-5)]
  note p = cq_inv_parts [OF inv]
  have request: "cq_request c = (if length fl \<le> a - iq_admin_slots_in_use (cq_free c)
     then (c, Inl (Cq_runtime_error
            (runtime_error reason_internal ''no request slot is available for normal request'')))
     else (c\<lparr>cq_free := iq_pop (cq_free c), cq_requested := iq_push (cq_requested c) (hd fl) 0\<rparr>, Inr (hd fl)))"
    using p(4) by (simp add: cq_request_def iq_try_pop_spec [OF p(1)] fl_def)
  have r: "iq_pushed (cq_requested c) \<le> k" "iq_capacity (cq_requested c) = n + a"
    using inv by (simp_all add: cq_inv_def)
  have "iq_contents 0 (iq_push (cq_requested c) (hd fl) 0) = iq_contents 0 (cq_requested c) @ [hd fl]"
    if "\<not> length fl \<le> a - iq_admin_slots_in_use (cq_free c)"
  proof -
    have "length (iq_contents 0 (cq_requested c)) < n + a"
      using that slot_pool_size [OF p(3)] by (simp add: fl_def cq_held_def)
    then show ?thesis
      using iq_push_requested [OF p(2)] r assms(2) by (simp add: iq_credit_def)
  qed
  then show ?thesis by (simp add: request)
qed

theorem request_decision_witness:
  "length (iq_contents 1 (cq_free sample_queue)) = 1 \<and>
   cq_request sample_queue =
     (sample_queue\<lparr>cq_free := iq_pop (cq_free sample_queue),
        cq_requested := iq_push (cq_requested sample_queue) (hd (iq_contents 1 (cq_free sample_queue))) 0\<rparr>,
      Inr (hd (iq_contents 1 (cq_free sample_queue)))) \<and>
   iq_contents 0 (iq_push (cq_requested sample_queue) (hd (iq_contents 1 (cq_free sample_queue))) 0) =
     iq_contents 0 (cq_requested sample_queue) @ [hd (iq_contents 1 (cq_free sample_queue))]"
proof -
  have "iq_admin_slots_in_use (cq_free sample_queue) = 1" "length (iq_contents 1 (cq_free sample_queue)) = 1"
    by (simp_all add: sample_queue_def connection_queue_new_def cq_request_def cq_request_admin_def
        iq_try_pop_def iq_try_pop_admin_def iq_fill_def index_queue_new_def Let_def u64_add_def)
  then show ?thesis using request_decision [OF sample_queue_reach] by simp
qed

text \<open>The reserve works for the first administrator: while no administrator slot is in use, an
  administrator request is granted, however many ordinary clients hold or ask for slots.\<close>

theorem first_admin_granted:
  assumes "cq_reach n a k (c, ss)" "k < 2 ^ 63" "n + a < 2 ^ 32" "a < 256"
    and "0 < a" "iq_admin_slots_in_use (cq_free c) = 0"
  shows "\<exists>c' sid. cq_request_admin c = (c', Inr sid) \<and> is_admin sid"
proof -
  have "0 < n + a" using assms(5) by simp
  note p = cq_inv_parts [OF cq_reach_inv [OF assms(1,2) this assms(3,4)]]
  have "a \<le> length (iq_contents a (cq_free c))"
    using p(3) assms(6) unfolding slot_pool_def by (metis add.right_neutral)
  then have "0 < length (iq_contents a (cq_free c))" using assms(5) by linarith
  then show ?thesis
    using p(5) assms(6) by (simp add: cq_request_admin_def iq_try_pop_admin_spec [OF p(1)])
qed

theorem first_admin_granted_witness:
  "\<exists>c' sid. cq_request_admin (fst (cq_request (connection_queue_new 1 1))) = (c', Inr sid) \<and> is_admin sid"
proof -
  let ?c = "fst (cq_request (connection_queue_new 1 1))"
  have "cq_step (connection_queue_new 1 1, []) (?c, [])"
    by (rule cq_step.request [where r = "snd (cq_request (connection_queue_new 1 1))"]) simp
  then have reach: "cq_reach 1 1 (Suc 0) (?c, [])" by (blast intro: cq_reach.intros)
  show ?thesis
    by (rule first_admin_granted [OF reach])
      (simp_all add: connection_queue_new_def cq_request_def iq_try_pop_def iq_fill_def
        index_queue_new_def Let_def u64_add_def)
qed

text \<open>The answer reaches the client that asked: after the server accepts the slot at the front with a
  session id, \<open>wait\<close> on that slot returns this id and makes the entry reusable, and no entry of another
  slot changes.\<close>

theorem accept_answers_client:
  assumes "cq_reach n a k (c, ss)" "k < 2 ^ 63" "0 < n + a" "n + a < 2 ^ 32" "a < 256"
    and "iq_wait (cq_requested c)" "session_id \<noteq> 0" "\<not> cq_terminate c"
  shows "\<exists>c' e. cq_accept c (cq_slot c) session_id = (c', Inr ()) \<and>
    cq_wait c' (cq_slot c) timeout = Some (cq_set_entry c' (cq_slot c) e, Inr session_id) \<and> el_session_id e = 0 \<and>
    (\<forall>sid\<in>set (cq_held c ss) - {cq_slot c}. cq_entry c' sid = cq_entry c sid)"
proof -
  note inv = cq_reach_inv [OF assms(1-5)]
  note f = cq_requested_front [OF inv assms(6)]
  have held: "cq_slot c \<in> set (cq_held c ss)" by (simp add: cq_held_def f(1))
  note len = cq_entry_held [OF inv assms(4) held]
  let ?c = "c\<lparr>cq_requested := iq_pop (cq_requested c)\<rparr>"
  let ?e = "cq_v_requested c ! unat (reset_admin (cq_slot c))"
  let ?c' = "cq_set_entry ?c (cq_slot c) (el_accept ?e session_id)"
  have inj: "inj_on reset_admin (set (cq_held c ss))"
    using slot_pool_distinct [OF cq_inv_parts(3) [OF inv]] assms(4) by (simp add: distinct_map)
  have apart: "unat (reset_admin (cq_slot c)) \<noteq> unat (reset_admin sid)"
    if "sid \<in> set (cq_held c ss) - {cq_slot c}" for sid
  proof -
    have "reset_admin (cq_slot c) \<noteq> reset_admin sid"
      using inj_onD [OF inj] that held by blast
    then show ?thesis unfolding word_unat_eq_iff .
  qed
  have "\<forall>sid\<in>set (cq_held c ss) - {cq_slot c}. cq_entry ?c' sid = cq_entry c sid"
    by (intro ballI) (simp add: cq_entry_def cq_set_entry_def Let_def apart)
  moreover have "cq_accept c (cq_slot c) session_id = (?c', Inr ())"
    using len by (simp add: cq_accept_def cq_entry_def Let_def)
  moreover have "cq_wait ?c' (cq_slot c) timeout =
      Some (cq_set_entry ?c' (cq_slot c) (el_reuse (el_accept ?e session_id)), Inr session_id)"
    using len assms(7,8)
    by (simp add: cq_wait_def cq_entry_def cq_set_entry_def Let_def el_wait_def el_accept_def el_notify_def)
  ultimately show ?thesis by (intro exI conjI) (auto simp: el_reuse_def)
qed

theorem accept_answers_client_witness:
  "\<exists>c' e. cq_accept sample_queue (cq_slot sample_queue) 7 = (c', Inr ()) \<and>
     cq_wait c' (cq_slot sample_queue) 0 = Some (cq_set_entry c' (cq_slot sample_queue) e, Inr 7)"
proof -
  have "iq_wait (cq_requested sample_queue)" "\<not> cq_terminate sample_queue"
    by (simp_all add: sample_queue_def connection_queue_new_def cq_request_def cq_request_admin_def iq_push_def
        iq_try_pop_def iq_try_pop_admin_def iq_fill_def index_queue_new_def Let_def u64_add_def iq_wait_def)
  then show ?thesis
    using accept_answers_client [OF sample_queue_reach, of 7 0] by auto
qed

text \<open>The guard of \<open>request_admin\<close> does not keep the number of administrators within \<open>admin_slots\<close>, and
  the test of \<open>request\<close> relies on that: with two ordinary slots and one reserved slot, two administrator
  requests followed by two ordinary ones are all granted, and the last one gets slot 0, which the first
  administrator still holds.\<close>

theorem admin_overflow_double_allocation:
  "let (c1, r1) = cq_request_admin (connection_queue_new 2 1);
       (c2, r2) = cq_request_admin c1; (c3, r3) = cq_request c2; (c4, r4) = cq_request c3
   in r1 = Inr (set_admin 0) \<and> r2 = Inr (set_admin 1) \<and> r3 = Inr 2 \<and> r4 = Inr 0"
  by (simp add: connection_queue_new_def cq_request_def cq_request_admin_def iq_push_def iq_index_def
      iq_try_pop_def iq_try_pop_admin_def iq_fill_def index_queue_new_def Let_def u64_add_def upt_rec)

text \<open>The same guard counts an administrator twice: with one ordinary slot in use and two reserved slots,
  the second administrator request is refused although one of the two reserved slots is free.\<close>

theorem second_admin_refused:
  "let (c1, r1) = cq_request (connection_queue_new 1 2);
       (c2, r2) = cq_request_admin c1; (c3, r3) = cq_request_admin c2
   in r1 = Inr 0 \<and> r2 = Inr (set_admin 1) \<and> iq_contents 2 (cq_free c2) = [2] \<and>
      r3 = Inl (Cq_runtime_error
             (runtime_error reason_internal ''no request slot is available for admin request''))"
  by (simp add: connection_queue_new_def cq_request_def cq_request_admin_def iq_push_def iq_index_def
      iq_try_pop_def iq_try_pop_admin_def iq_fill_def index_queue_new_def Let_def u64_add_def upt_rec
      iq_contents_def)

end
