(* ===== verification/Client_Wire.thy ===== *)
theory Client_Wire
  imports Message_Wire Connection_Queue Proc_Mutex "HOL-Library.Multiset"
begin

section \<open>The client's side of a session\<close>

text \<open>
  \<^verbatim>\<open>src/tateyama/transport/client_wire.h\<close>: the slots in which responses wait for the threads they are meant for,
  the search for a free slot, the protocol by which the threads of a client share the response wire, and the
  connection to the server.  The result sets are in \<open>Resultset_Wires\<close>.  \<open>status_provider\<close> of
  \<^verbatim>\<open>wire.h\<close>, which tells whether the server is alive, is here too.
\<close>

subsection \<open>\<open>status_provider\<close>\<close>

text \<open>The message is empty when the server is alive.\<close>

definition sp_is_alive :: "file_system \<Rightarrow> path \<Rightarrow> file_system \<times> string" where
  "sp_is_alive fs mutex_file =
     (case sys_open fs mutex_file of
        (fs, None) \<Rightarrow> (fs, ''cannot open the lock file ('' @ mutex_file @ '')'')
      | (fs, Some fd) \<Rightarrow>
          (case sys_flock fs fd of
             (fs, True) \<Rightarrow>
               (sys_close (sys_unlock fs fd) fd,
                ''the lock file ('' @ mutex_file @ '') is not locked, possibly due to server process lost'')
           | (fs, False) \<Rightarrow> (sys_close fs fd, [])))"

subsection \<open>\<open>slot\<close>\<close>

definition slot_size :: nat where
  "slot_size = 16"

definition RESPONSE_BODYHEAD :: msg_type where
  "RESPONSE_BODYHEAD = 2"

record response_slot =
  sl_in_use :: bool
  sl_received :: nat
  sl_consumed :: nat
  sl_expected :: nat
  sl_body_message :: "byte list"
  sl_body_head_message :: "byte list"

definition slot_new :: response_slot where
  "slot_new = \<lparr>sl_in_use = False, sl_received = 0, sl_consumed = 0, sl_expected = 0,
               sl_body_message = [], sl_body_head_message = []\<rparr>"

definition sl_test_and_set_in_use :: "response_slot \<Rightarrow> response_slot \<times> bool" where
  "sl_test_and_set_in_use s = (s\<lparr>sl_in_use := True\<rparr>, sl_in_use s)"

definition sl_valid :: "response_slot \<Rightarrow> bool" where
  "sl_valid s \<longleftrightarrow> sl_consumed s < sl_received s"

definition sl_expect :: "msg_type \<Rightarrow> response_slot \<Rightarrow> response_slot" where
  "sl_expect ty s =
     (if sl_expected s = 0 then s\<lparr>sl_expected := (if ty = RESPONSE_BODYHEAD then 2 else 1)\<rparr> else s)"

text \<open>\<open>pre_receive\<close> returns a reference to the buffer that is then filled: here it takes the message.\<close>

definition sl_pre_receive :: "msg_type \<Rightarrow> byte list \<Rightarrow> response_slot \<Rightarrow> response_slot" where
  "sl_pre_receive ty message s =
     (let s = sl_expect ty s
      in if sl_expected s = 2 \<and> sl_received s = 0
         then s\<lparr>sl_body_head_message := message\<rparr> else s\<lparr>sl_body_message := message\<rparr>)"

definition sl_post_receive :: "response_slot \<Rightarrow> response_slot" where
  "sl_post_receive s = s\<lparr>sl_received := Suc (sl_received s)\<rparr>"

definition sl_finish_receive :: "response_slot \<Rightarrow> response_slot" where
  "sl_finish_receive s = slot_new"

definition sl_receive_and_consume :: "msg_type \<Rightarrow> response_slot \<Rightarrow> response_slot" where
  "sl_receive_and_consume ty s =
     (let s = sl_expect ty s
      in if sl_expected s = 2 \<and> sl_received s = 0
         then s\<lparr>sl_received := Suc (sl_received s), sl_consumed := Suc (sl_consumed s)\<rparr>
         else sl_finish_receive s)"

definition sl_consume :: "response_slot \<Rightarrow> response_slot \<times> byte list" where
  "sl_consume s =
     (if sl_expected s = 2 \<and> sl_consumed s = 0
      then (s\<lparr>sl_consumed := Suc (sl_consumed s)\<rparr>, sl_body_head_message s)
      else (sl_finish_receive s, sl_body_message s))"

subsection \<open>Searching a slot\<close>

fun search_slot_from :: "nat \<Rightarrow> response_slot list \<Rightarrow> (response_slot list \<times> nat) option" where
  "search_slot_from i [] = None"
| "search_slot_from i (s # ss) =
     (case sl_test_and_set_in_use s of
        (s', True) \<Rightarrow> map_option (\<lambda>(ss', k). (s' # ss', k)) (search_slot_from (Suc i) ss)
      | (s', False) \<Rightarrow> Some (s' # ss, i))"

definition search_slot :: "response_slot list \<Rightarrow> response_slot list \<times> nat result" where
  "search_slot slots =
     (case search_slot_from 0 slots of
        None \<Rightarrow> (map (\<lambda>s. s\<lparr>sl_in_use := True\<rparr>) slots, Inl (runtime_error reason_internal ''running out of slot''))
      | Some (slots', k) \<Rightarrow> (slots', Inr k))"

subsection \<open>\<open>session_wire_container::send\<close> and \<open>close\<close>\<close>

definition sc_send :: "message_wire \<Rightarrow> byte list \<Rightarrow> nat \<Rightarrow> message_wire option" where
  "sc_send w req_message slot_index =
     mw_write w req_message (mk_message_header (word_of_nat slot_index) (word_of_nat (length req_message)))"

definition sc_close :: "message_wire \<Rightarrow> message_wire" where
  "sc_close w = mw_terminate w"

subsection \<open>\<open>session_wire_container::receive\<close>\<close>

text \<open>What the threads share: the slots, the flag \<open>using_wire_\<close> and the responses on the wire, each with the index
  and the type of its header; \<open>rx_closed\<close> is \<open>closed_ || shutdown_\<close> of the response wire.  \<open>await\<close>
  returns the header at the front, or an empty header when the wire is empty and closed, and \<open>read\<close> takes the
  response off.\<close>

record receiver =
  rx_slots :: "response_slot list"
  rx_using_wire :: bool
  rx_wire :: "(nat \<times> msg_type \<times> byte list) list"
  rx_closed :: bool

definition rx_await :: "receiver \<Rightarrow> (nat \<times> msg_type \<times> bool) option" where
  "rx_await rx =
     (case rx_wire rx of
        (i, ty, message) # rest \<Rightarrow> Some (i, ty, True)
      | [] \<Rightarrow> if rx_closed rx then Some (0, 0, False) else None)"

definition rx_read :: "bool \<Rightarrow> receiver \<Rightarrow> receiver \<times> byte list" where
  "rx_read on_wire rx =
     (case rx_wire rx of
        (i, ty, message) # rest \<Rightarrow> if on_wire then (rx\<lparr>rx_wire := rest\<rparr>, message) else (rx, [])
      | [] \<Rightarrow> (rx, []))"

text \<open>Where a thread is in \<open>receive\<close>.\<close>

datatype receive_at =
    At_wait
  | At_check
  | At_exchange
  | At_await
  | At_read nat msg_type bool
  | At_release
  | At_release_mine "byte list"
  | Received "byte list"
  | Receive_failed

text \<open>What the thread meets at a step: \<open>compare_exchange_weak\<close> may fail although the flag is clear, and
  \<open>await\<close> may throw when the server was found dead; the argument tells whether the second test of
  \<open>is_alive\<close>, in the handler, finds it alive.\<close>

datatype receive_event = Goes_on | Fails_spuriously | Await_throws bool

definition upd_slot :: "nat \<Rightarrow> (response_slot \<Rightarrow> response_slot) \<Rightarrow> receiver \<Rightarrow> receiver" where
  "upd_slot k f rx = rx\<lparr>rx_slots := (rx_slots rx)[k := f (rx_slots rx ! k)]\<rparr>"

text \<open>One step of a thread that receives for slot \<open>k\<close>; \<open>None\<close> when it is blocked or has ended.\<close>

fun receive_step :: "receive_event \<Rightarrow> nat \<Rightarrow> receiver \<Rightarrow> receive_at \<Rightarrow> (receiver \<times> receive_at) option" where
  "receive_step ev k rx At_wait =
     (if sl_valid (rx_slots rx ! k) \<or> \<not> rx_using_wire rx then Some (rx, At_check) else None)"
| "receive_step ev k rx At_check =
     (if sl_valid (rx_slots rx ! k)
      then Some (upd_slot k (\<lambda>s. fst (sl_consume s)) rx, Received (snd (sl_consume (rx_slots rx ! k))))
      else Some (rx, At_exchange))"
| "receive_step ev k rx At_exchange =
     (if rx_using_wire rx \<or> ev = Fails_spuriously then Some (rx, At_wait)
      else Some (rx\<lparr>rx_using_wire := True\<rparr>, At_await))"
| "receive_step ev k rx At_await =
     (case ev of
        Await_throws alive_again \<Rightarrow>
          if alive_again then Some (rx, At_wait) else Some (rx\<lparr>rx_using_wire := False\<rparr>, Receive_failed)
      | _ \<Rightarrow> map_option (\<lambda>(i, ty, on_wire). (rx, At_read i ty on_wire)) (rx_await rx))"
| "receive_step ev k rx (At_read i ty on_wire) =
     (if i = k
      then (case rx_read on_wire rx of
              (rx, message) \<Rightarrow> Some (upd_slot k (sl_receive_and_consume ty) rx, At_release_mine message))
      else if i < length (rx_slots rx)
      then (case rx_read on_wire rx of
              (rx, message) \<Rightarrow>
                Some (upd_slot i (\<lambda>s. sl_post_receive (sl_pre_receive ty message s)) rx, At_release))
      else Some (rx, Receive_failed))"
| "receive_step ev k rx At_release = Some (rx\<lparr>rx_using_wire := False\<rparr>, At_wait)"
| "receive_step ev k rx (At_release_mine message) = Some (rx\<lparr>rx_using_wire := False\<rparr>, Received message)"
| "receive_step ev k rx (Received message) = None"
| "receive_step ev k rx Receive_failed = None"

subsection \<open>\<open>connection_container::connect\<close>\<close>

text \<open>\<open>serve\<close> is what the server and other clients do to the connection queue between the request and
  the wait.  \<open>None\<close>: the client is still blocked.  The name of the session's shared memory.\<close>

definition session_name :: "string \<Rightarrow> nat \<Rightarrow> string" where
  "session_name db_name session_id = db_name @ ''-'' @ to_string session_id"

definition cc_connect ::
    "string \<Rightarrow> (connection_queue \<Rightarrow> connection_queue) \<Rightarrow> connection_queue
      \<Rightarrow> (connection_queue \<times> (cq_exception + string)) option" where
  "cc_connect db_name serve que =
     (case cq_request_admin que of
        (que, Inl ex) \<Rightarrow> Some (que, Inl ex)
      | (que, Inr rid) \<Rightarrow>
          (case cq_wait (serve que) rid 0 of
             None \<Rightarrow> None
           | Some (que, Inl ex) \<Rightarrow> Some (que, Inl ex)
           | Some (que, Inr session_id) \<Rightarrow>
               Some (que, if session_id \<noteq> session_id_indicating_error
                          then Inr (session_name db_name session_id)
                          else Inl (Cq_runtime_error
                                      (runtime_error reason_connection_failure
                                         ''IPC connection establishment failure'')))))"

subsection \<open>Opening the shared memory\<close>

text \<open>The objects a segment of shared memory holds by name, as far as the client looks for them: \<open>find\<close> gives a
  null pointer for a name that is not there, and opening a segment that does not exist raises an interprocess exception.\<close>

record segment =
  sg_request_wire :: "message_wire option"
  sg_response_wire :: "response_wire option"
  sg_status_provider :: "path option"
  sg_connection_queue :: "connection_queue option"

record session_wire =
  sw_db_name :: string
  sw_request_wire :: message_wire
  sw_response_wire :: response_wire
  sw_status_provider :: path
  sw_slot_status :: "response_slot list"

definition session_wire_container :: "(string \<rightharpoonup> segment) \<Rightarrow> string \<Rightarrow> session_wire result" where
  "session_wire_container shm name =
     (case shm name of
        None \<Rightarrow> Inl (runtime_error reason_connection_failure ''cannot find a session with the specified name'')
      | Some sg \<Rightarrow>
          (case (sg_request_wire sg, sg_response_wire sg, sg_status_provider sg) of
             (Some req_wire, Some res_wire, Some sp) \<Rightarrow>
               Inr \<lparr>sw_db_name = name, sw_request_wire = req_wire, sw_response_wire = res_wire,
                    sw_status_provider = sp, sw_slot_status = replicate slot_size slot_new\<rparr>
           | _ \<Rightarrow> Inl (runtime_error reason_connection_failure ''cannot find the session wire'')))"

text \<open>The queue is a null pointer when the segment does not hold one.\<close>

definition connection_container :: "(string \<rightharpoonup> segment) \<Rightarrow> string \<Rightarrow> connection_queue option result" where
  "connection_container shm db_name =
     (case shm db_name of
        None \<Rightarrow> Inl (runtime_error reason_connection_failure
                         (''cannot find a database with the specified name: '' @ db_name))
      | Some sg \<Rightarrow> Inr (sg_connection_queue sg))"

subsection \<open>The threads of a client\<close>

text \<open>Any number of threads send requests with one response each and receive the responses.  A request takes a slot and
  carries the slot's index; the server answers the requests in any order; what it will answer to a request is fixed with
  the request in \<open>th_wanted\<close>.\<close>

record client_thread =
  th_slot :: nat
  th_at :: receive_at
  th_wanted :: "byte list"

record client =
  cl_rx :: receiver
  cl_threads :: "nat \<rightharpoonup> client_thread"
  cl_pending :: "(nat \<times> byte list) list"

inductive client_step :: "client \<Rightarrow> client \<Rightarrow> bool" where
  request:
    "cl_threads c t = None \<Longrightarrow> search_slot (rx_slots (cl_rx c)) = (slots, Inr k) \<Longrightarrow>
     client_step c (c\<lparr>cl_rx := (cl_rx c)\<lparr>rx_slots := slots\<rparr>,
                     cl_threads := (cl_threads c)(t \<mapsto> \<lparr>th_slot = k, th_at = At_wait, th_wanted = m\<rparr>),
                     cl_pending := (k, m) # cl_pending c\<rparr>)"
| respond:
    "(k, m) \<in> set (cl_pending c) \<Longrightarrow> ty \<noteq> RESPONSE_BODYHEAD \<Longrightarrow>
     client_step c (c\<lparr>cl_rx := (cl_rx c)\<lparr>rx_wire := rx_wire (cl_rx c) @ [(k, ty, m)]\<rparr>,
                     cl_pending := remove1 (k, m) (cl_pending c)\<rparr>)"
| receive:
    "cl_threads c t = Some th \<Longrightarrow> receive_step ev (th_slot th) (cl_rx c) (th_at th) = Some (rx, at) \<Longrightarrow>
     client_step c (c\<lparr>cl_rx := rx, cl_threads := (cl_threads c)(t \<mapsto> th\<lparr>th_at := at\<rparr>)\<rparr>)"

definition client_start :: client where
  "client_start = \<lparr>cl_rx = \<lparr>rx_slots = replicate slot_size slot_new, rx_using_wire = False, rx_wire = [], rx_closed = False\<rparr>,
                   cl_threads = Map.empty, cl_pending = []\<rparr>"

text \<open>A thread owns its slot until the response is taken out of it or read for it; a thread that failed leaves its
  slot taken.\<close>

fun owns :: "receive_at \<Rightarrow> bool" where
  "owns (At_release_mine m) = False"
| "owns (Received m) = False"
| "owns _ = True"

text \<open>The threads between \<open>compare_exchange_weak\<close> and \<open>using_wire_.store(false)\<close>.\<close>

fun holds_wire :: "receive_at \<Rightarrow> bool" where
  "holds_wire At_await = True"
| "holds_wire (At_read i ty on_wire) = True"
| "holds_wire At_release = True"
| "holds_wire (At_release_mine m) = True"
| "holds_wire _ = False"

fun got :: "receive_at \<Rightarrow> byte list option" where
  "got (At_release_mine m) = Some m"
| "got (Received m) = Some m"
| "got _ = None"

definition slot_shape :: "response_slot \<Rightarrow> bool" where
  "slot_shape s \<longleftrightarrow> sl_consumed s = 0 \<and> (sl_received s = 0 \<and> sl_expected s = 0 \<or> sl_received s = 1 \<and> sl_expected s = 1)"

text \<open>The responses on their way to slot \<open>k\<close>: not yet written, on the wire, in the slot.\<close>

definition on_way :: "client \<Rightarrow> nat \<Rightarrow> byte list multiset" where
  "on_way c k =
     mset (map snd (filter (\<lambda>p. fst p = k) (cl_pending c)))
     + mset (map (snd \<circ> snd) (filter (\<lambda>p. fst p = k) (rx_wire (cl_rx c))))
     + (if sl_valid (rx_slots (cl_rx c) ! k) then {#sl_body_message (rx_slots (cl_rx c) ! k)#} else {#})"

definition owned :: "client \<Rightarrow> nat \<Rightarrow> bool" where
  "owned c k \<longleftrightarrow> (\<exists>t th. cl_threads c t = Some th \<and> owns (th_at th) \<and> th_slot th = k)"

lemma ownedI: "cl_threads c t = Some th \<Longrightarrow> owns (th_at th) \<Longrightarrow> owned c (th_slot th)"
  unfolding owned_def by blast

definition thread_ok :: "client \<Rightarrow> client_thread \<Rightarrow> bool" where
  "thread_ok c th \<longleftrightarrow>
     th_slot th < length (rx_slots (cl_rx c))
     \<and> (owns (th_at th) \<longrightarrow> on_way c (th_slot th) = {#th_wanted th#} \<and> sl_in_use (rx_slots (cl_rx c) ! th_slot th))
     \<and> (\<forall>m. got (th_at th) = Some m \<longrightarrow> m = th_wanted th)
     \<and> (holds_wire (th_at th) \<longrightarrow> rx_using_wire (cl_rx c))
     \<and> (\<forall>i ty on_wire. th_at th = At_read i ty on_wire \<longrightarrow>
          (\<exists>m rest. rx_wire (cl_rx c) = (i, ty, m) # rest) \<and> on_wire)"

definition apart :: "client_thread \<Rightarrow> client_thread \<Rightarrow> bool" where
  "apart th th' \<longleftrightarrow>
     \<not> (owns (th_at th) \<and> owns (th_at th') \<and> th_slot th = th_slot th') \<and> \<not> (holds_wire (th_at th) \<and> holds_wire (th_at th'))"

definition client_inv :: "client \<Rightarrow> bool" where
  "client_inv c \<longleftrightarrow>
     \<not> rx_closed (cl_rx c) \<and> list_all slot_shape (rx_slots (cl_rx c))
     \<and> (\<forall>(i, ty, m) \<in> set (rx_wire (cl_rx c)). i < length (rx_slots (cl_rx c)) \<and> ty \<noteq> RESPONSE_BODYHEAD)
     \<and> (\<forall>(i, m) \<in> set (cl_pending c). i < length (rx_slots (cl_rx c)))
     \<and> (\<forall>t th. cl_threads c t = Some th \<longrightarrow> thread_ok c th)
     \<and> (\<forall>t th t' th'. cl_threads c t = Some th \<longrightarrow> cl_threads c t' = Some th' \<longrightarrow> t \<noteq> t' \<longrightarrow> apart th th')
     \<and> (\<forall>k. k < length (rx_slots (cl_rx c)) \<longrightarrow> \<not> owned c k \<longrightarrow> on_way c k = {#})"

subsection \<open>The invariant is kept\<close>

lemma search_slot_from_Some:
  "search_slot_from i ss = Some (ss', k) \<Longrightarrow>
     i \<le> k \<and> k - i < length ss \<and> \<not> sl_in_use (ss ! (k - i)) \<and> ss' = ss[k - i := (ss ! (k - i))\<lparr>sl_in_use := True\<rparr>]"
proof (induction i ss arbitrary: ss' rule: search_slot_from.induct)
  case (2 i s ss)
  show ?case
  proof (cases "sl_in_use s")
    case True
    then obtain ss1 where "search_slot_from (Suc i) ss = Some (ss1, k)" and ss': "ss' = s\<lparr>sl_in_use := True\<rparr> # ss1"
      using "2.prems" by (auto simp: sl_test_and_set_in_use_def)
    with "2.IH" True have IH: "Suc i \<le> k" "k - Suc i < length ss" "\<not> sl_in_use (ss ! (k - Suc i))"
      "ss1 = ss[k - Suc i := (ss ! (k - Suc i))\<lparr>sl_in_use := True\<rparr>]"
      by (auto simp: sl_test_and_set_in_use_def)
    moreover have "k - i = Suc (k - Suc i)" using IH by simp
    moreover have "s\<lparr>sl_in_use := True\<rparr> = s" using True by simp
    ultimately show ?thesis using ss' by simp
  next
    case False
    then show ?thesis using "2.prems" by (auto simp: sl_test_and_set_in_use_def)
  qed
qed simp

lemma search_slot_Inr:
  assumes "search_slot ss = (ss', Inr k)"
  shows "k < length ss" "\<not> sl_in_use (ss ! k)" "ss' = ss[k := (ss ! k)\<lparr>sl_in_use := True\<rparr>]"
  using assms search_slot_from_Some [of 0 ss]
  by (auto simp: search_slot_def split: option.splits)

lemma client_invD:
  assumes "client_inv c"
  shows "\<not> rx_closed (cl_rx c)" and "list_all slot_shape (rx_slots (cl_rx c))"
    and "(i, ty, m) \<in> set (rx_wire (cl_rx c)) \<Longrightarrow> i < length (rx_slots (cl_rx c)) \<and> ty \<noteq> RESPONSE_BODYHEAD"
    and "(i, m) \<in> set (cl_pending c) \<Longrightarrow> i < length (rx_slots (cl_rx c))"
    and "k < length (rx_slots (cl_rx c)) \<Longrightarrow> \<not> owned c k \<Longrightarrow> on_way c k = {#}"
  using assms unfolding client_inv_def by auto

lemma client_inv_thread:
  assumes "client_inv c" "cl_threads c t = Some th"
  shows "th_slot th < length (rx_slots (cl_rx c))"
    and "owns (th_at th) \<Longrightarrow> on_way c (th_slot th) = {#th_wanted th#}"
    and "owns (th_at th) \<Longrightarrow> sl_in_use (rx_slots (cl_rx c) ! th_slot th)"
    and "got (th_at th) = Some m \<Longrightarrow> m = th_wanted th"
    and "holds_wire (th_at th) \<Longrightarrow> rx_using_wire (cl_rx c)"
    and "th_at th = At_read i ty on_wire \<Longrightarrow> (\<exists>m rest. rx_wire (cl_rx c) = (i, ty, m) # rest) \<and> on_wire"
  using assms unfolding client_inv_def thread_ok_def by blast+

lemma client_inv_two:
  assumes "client_inv c" "cl_threads c t = Some th" "cl_threads c t' = Some th'" "t \<noteq> t'"
  shows "owns (th_at th) \<Longrightarrow> owns (th_at th') \<Longrightarrow> th_slot th \<noteq> th_slot th'"
    and "holds_wire (th_at th) \<Longrightarrow> \<not> holds_wire (th_at th')"
  using assms unfolding client_inv_def apart_def by blast+

lemma apart_sym: "apart th th' \<Longrightarrow> apart th' th"
  by (auto simp: apart_def)

lemma client_inv_apart:
  "client_inv c \<Longrightarrow> cl_threads c t = Some th \<Longrightarrow> cl_threads c t' = Some th' \<Longrightarrow> t \<noteq> t' \<Longrightarrow> apart th th'"
  unfolding client_inv_def by blast

text \<open>The frame of a step of one thread: what the step may change so that the invariant is kept.\<close>

lemma client_inv_frame:
  assumes inv: "client_inv c" and th: "cl_threads c t = Some th"
    and rx: "\<not> rx_closed rx" "length (rx_slots rx) = length (rx_slots (cl_rx c))" "list_all slot_shape (rx_slots rx)"
      "set (rx_wire rx) \<subseteq> set (rx_wire (cl_rx c))"
    and using_wire: "holds_wire at \<Longrightarrow> rx_using_wire rx" "holds_wire at \<Longrightarrow> holds_wire (th_at th) \<or> \<not> rx_using_wire (cl_rx c)"
      "holds_wire (th_at th) \<or> (rx_using_wire (cl_rx c) \<longrightarrow> rx_using_wire rx)"
    and wire: "rx_wire rx = rx_wire (cl_rx c) \<or> holds_wire (th_at th)"
    and owns: "owns at \<Longrightarrow> owns (th_at th)"
    and in_use: "\<And>i. i \<noteq> th_slot th \<or> owns at \<or> \<not> owns (th_at th) \<Longrightarrow> sl_in_use (rx_slots (cl_rx c) ! i) \<Longrightarrow> sl_in_use (rx_slots rx ! i)"
    and on_way: "\<And>i. i \<noteq> th_slot th \<or> owns at \<or> \<not> owns (th_at th) \<Longrightarrow> on_way (c\<lparr>cl_rx := rx\<rparr>) i = on_way c i"
      "owns (th_at th) \<Longrightarrow> \<not> owns at \<Longrightarrow> on_way (c\<lparr>cl_rx := rx\<rparr>) (th_slot th) = {#}"
    and got: "\<And>m. got at = Some m \<Longrightarrow> m = th_wanted th"
    and reading: "\<forall>i ty ow. at = At_read i ty ow \<longrightarrow> (\<exists>m rest. rx_wire rx = (i, ty, m) # rest) \<and> ow"
  shows "client_inv (c\<lparr>cl_rx := rx, cl_threads := (cl_threads c)(t \<mapsto> th\<lparr>th_at := at\<rparr>)\<rparr>)"
    (is "client_inv ?c")
proof -
  have way: "on_way ?c i = on_way (c\<lparr>cl_rx := rx\<rparr>) i" for i by (simp add: on_way_def)
  have wires: "\<forall>(i, ty, m) \<in> set (rx_wire rx). i < length (rx_slots rx) \<and> ty \<noteq> RESPONSE_BODYHEAD"
    "\<forall>(i, m) \<in> set (cl_pending c). i < length (rx_slots rx)"
    using client_invD(3,4) [OF inv] rx by fastforce+
  have same: "thread_ok ?c (th\<lparr>th_at := at\<rparr>)"
    using client_inv_thread(1-3) [OF inv th] owns in_use on_way(1) rx(2) way using_wire(1) got reading
    by (simp add: thread_ok_def) blast
  have other: "thread_ok ?c th' \<and> apart (th\<lparr>th_at := at\<rparr>) th'" if th': "cl_threads c t' = Some th'" "t' \<noteq> t" for t' th'
  proof -
    note T = client_inv_thread [OF inv th'(1)] and two = client_inv_two [OF inv th th'(1) th'(2) [symmetric]]
    have "owns (th_at th') \<Longrightarrow> on_way ?c (th_slot th') = {#th_wanted th'#} \<and> sl_in_use (rx_slots rx ! th_slot th')"
      using T(2,3) two(1) in_use on_way(1) way by metis
    moreover have "\<forall>i ty ow. th_at th' = At_read i ty ow \<longrightarrow> (\<exists>m rest. rx_wire rx = (i, ty, m) # rest) \<and> ow"
      using T(6) two(2) wire by fastforce
    moreover have "holds_wire (th_at th') \<Longrightarrow> rx_using_wire rx" using T(5) two(2) using_wire(3) by blast
    ultimately have "thread_ok ?c th'" using T(1,4) rx(2) unfolding thread_ok_def by simp blast
    moreover have "apart (th\<lparr>th_at := at\<rparr>) th'"
      using two T(5) owns using_wire(2) by (auto simp: apart_def)
    ultimately show ?thesis ..
  qed
  have free: "on_way ?c k = {#}" if "k < length (rx_slots rx)" "\<not> owned ?c k" for k
  proof (cases "k = th_slot th \<and> owns (th_at th)")
    case True
    have "\<not> owns at"
    proof
      assume "owns at"
      then show False using ownedI [of ?c t "th\<lparr>th_at := at\<rparr>"] True that(2) by simp
    qed
    then show ?thesis using on_way(2) True way by simp
  next
    case False
    have "\<not> owned c k"
    proof
      assume "owned c k"
      then obtain t' th' where "cl_threads c t' = Some th'" "owns (th_at th')" "th_slot th' = k"
        unfolding owned_def by blast
      moreover from this have "t' \<noteq> t" using False th by auto
      ultimately show False using ownedI [of ?c t' th'] that(2) by simp
    qed
    then show ?thesis using False on_way(1) client_invD(5) [OF inv] that(1) rx(2) way by metis
  qed
  have "\<forall>t' th'. cl_threads ?c t' = Some th' \<longrightarrow> thread_ok ?c th'"
    using same other by simp
  moreover have "\<forall>t1 th1 t2 th2. cl_threads ?c t1 = Some th1 \<longrightarrow> cl_threads ?c t2 = Some th2 \<longrightarrow> t1 \<noteq> t2 \<longrightarrow> apart th1 th2"
    using other client_inv_apart [OF inv] by (auto intro: apart_sym split: if_splits)
  ultimately show ?thesis
    unfolding client_inv_def using rx(1,3) wires free by simp
qed

lemma on_way_same:
  "rx_slots rx = rx_slots (cl_rx c) \<Longrightarrow> rx_wire rx = rx_wire (cl_rx c) \<Longrightarrow> on_way (c\<lparr>cl_rx := rx\<rparr>) i = on_way c i"
  by (simp add: on_way_def)

lemma slot_shape_nth: "list_all slot_shape ss \<Longrightarrow> k < length ss \<Longrightarrow> slot_shape (ss ! k)"
  by (simp add: list_all_length)

lemma slot_shape_new: "slot_shape slot_new"
  by (simp add: slot_shape_def slot_new_def)

lemma list_all_update: "list_all P xs \<Longrightarrow> P x \<Longrightarrow> list_all P (xs[k := x])"
  using set_update_subset_insert [of xs k x] by (auto simp: list_all_iff)

lemma consume_single:
  "slot_shape s \<Longrightarrow> sl_valid s \<Longrightarrow> sl_consume s = (slot_new, sl_body_message s)"
  by (auto simp: slot_shape_def sl_valid_def sl_consume_def sl_finish_receive_def)

lemma receive_and_consume_single:
  "slot_shape s \<Longrightarrow> ty \<noteq> RESPONSE_BODYHEAD \<Longrightarrow> sl_receive_and_consume ty s = slot_new"
  by (auto simp: slot_shape_def sl_receive_and_consume_def sl_expect_def sl_finish_receive_def Let_def)

lemma post_receive_single:
  assumes "slot_shape s" "\<not> sl_valid s" "ty \<noteq> RESPONSE_BODYHEAD"
  shows "sl_post_receive (sl_pre_receive ty m s) = s\<lparr>sl_received := 1, sl_expected := 1, sl_body_message := m\<rparr>"
  using assms by (auto simp: slot_shape_def sl_valid_def sl_post_receive_def sl_pre_receive_def sl_expect_def Let_def)

text \<open>A step that touches neither the slots nor the wire.\<close>

lemma client_inv_quiet:
  assumes inv: "client_inv c" and th: "cl_threads c t = Some th"
    and rx: "rx = (cl_rx c)\<lparr>rx_using_wire := u\<rparr>"
    and using_wire: "holds_wire at \<Longrightarrow> u" "holds_wire at \<Longrightarrow> holds_wire (th_at th) \<or> \<not> rx_using_wire (cl_rx c)"
      "holds_wire (th_at th) \<or> (rx_using_wire (cl_rx c) \<longrightarrow> u)"
    and same: "owns at = owns (th_at th)" "got at = got (th_at th)"
    and reading: "\<forall>i ty ow. at = At_read i ty ow \<longrightarrow> (\<exists>m rest. rx_wire (cl_rx c) = (i, ty, m) # rest) \<and> ow"
  shows "client_inv (c\<lparr>cl_rx := rx, cl_threads := (cl_threads c)(t \<mapsto> th\<lparr>th_at := at\<rparr>)\<rparr>)"
  using client_invD(1,2) [OF inv] client_inv_thread(4) [OF inv th] using_wire same reading
  by (intro client_inv_frame [OF inv th]) (auto simp: rx on_way_same)

lemma check_inv:
  assumes inv: "client_inv c" and th: "cl_threads c t = Some th" and at: "th_at th = At_check"
    and valid: "sl_valid (rx_slots (cl_rx c) ! th_slot th)"
  shows "client_inv (c\<lparr>cl_rx := upd_slot (th_slot th) (\<lambda>s. fst (sl_consume s)) (cl_rx c),
    cl_threads := (cl_threads c)(t \<mapsto> th\<lparr>th_at := Received (snd (sl_consume (rx_slots (cl_rx c) ! th_slot th)))\<rparr>)\<rparr>)"
    (is "client_inv (c\<lparr>cl_rx := ?rx, cl_threads := _\<rparr>)")
proof -
  let ?k = "th_slot th" and ?ss = "rx_slots (cl_rx c)"
  note I = client_invD [OF inv] and T = client_inv_thread [OF inv th]
  have consume: "sl_consume (?ss ! ?k) = (slot_new, sl_body_message (?ss ! ?k))"
    using consume_single slot_shape_nth [OF I(2) T(1)] valid by blast
  have way: "on_way c ?k = {#th_wanted th#}" using T(2) at by simp
  have body: "sl_body_message (?ss ! ?k) = th_wanted th" and gone: "on_way (c\<lparr>cl_rx := ?rx\<rparr>) ?k = {#}"
    using way valid consume T(1) by (auto simp: on_way_def upd_slot_def sl_valid_def slot_new_def single_is_union)
  have other: "on_way (c\<lparr>cl_rx := ?rx\<rparr>) i = on_way c i" if "i \<noteq> ?k" for i
    using that by (simp add: on_way_def upd_slot_def)
  show ?thesis
    by (rule client_inv_frame [OF inv th])
      (use I(1,2) T(1) at consume body gone other in \<open>auto simp: upd_slot_def slot_shape_new list_all_update\<close>)
qed

lemma read_mine_inv:
  assumes inv: "client_inv c" and th: "cl_threads c t = Some th" and at: "th_at th = At_read (th_slot th) ty True"
    and wire: "rx_wire (cl_rx c) = (th_slot th, ty, m) # rest"
  shows "client_inv (c\<lparr>cl_rx := upd_slot (th_slot th) (sl_receive_and_consume ty) ((cl_rx c)\<lparr>rx_wire := rest\<rparr>),
    cl_threads := (cl_threads c)(t \<mapsto> th\<lparr>th_at := At_release_mine m\<rparr>)\<rparr>)"
    (is "client_inv (c\<lparr>cl_rx := ?rx, cl_threads := _\<rparr>)")
proof -
  let ?k = "th_slot th" and ?ss = "rx_slots (cl_rx c)"
  note I = client_invD [OF inv] and T = client_inv_thread [OF inv th]
  have ty: "ty \<noteq> RESPONSE_BODYHEAD" using I(3) [of ?k ty m] wire by simp
  have consume: "sl_receive_and_consume ty (?ss ! ?k) = slot_new"
    using receive_and_consume_single slot_shape_nth [OF I(2) T(1)] ty by blast
  have way: "on_way c ?k = {#th_wanted th#}" using T(2) at by simp
  have mine: "m = th_wanted th" and gone: "on_way (c\<lparr>cl_rx := ?rx\<rparr>) ?k = {#}"
    using way wire consume T(1)
    by (auto simp: on_way_def upd_slot_def sl_valid_def slot_new_def single_is_union split: if_splits)
  have other: "on_way (c\<lparr>cl_rx := ?rx\<rparr>) i = on_way c i" if "i \<noteq> ?k" for i
    using that wire by (simp add: on_way_def upd_slot_def)
  show ?thesis
    by (rule client_inv_frame [OF inv th])
      (use I(1,2) T at consume mine gone other wire in \<open>auto simp: upd_slot_def slot_shape_new list_all_update\<close>)
qed

lemma read_other_inv:
  assumes inv: "client_inv c" and th: "cl_threads c t = Some th" and at: "th_at th = At_read i ty True"
    and i: "i \<noteq> th_slot th" and wire: "rx_wire (cl_rx c) = (i, ty, m) # rest"
  shows "client_inv (c\<lparr>cl_rx := upd_slot i (\<lambda>s. sl_post_receive (sl_pre_receive ty m s)) ((cl_rx c)\<lparr>rx_wire := rest\<rparr>),
    cl_threads := (cl_threads c)(t \<mapsto> th\<lparr>th_at := At_release\<rparr>)\<rparr>)"
    (is "client_inv (c\<lparr>cl_rx := ?rx, cl_threads := _\<rparr>)")
proof -
  let ?ss = "rx_slots (cl_rx c)"
  note I = client_invD [OF inv] and T = client_inv_thread [OF inv th]
  have ty: "ty \<noteq> RESPONSE_BODYHEAD" and len: "i < length ?ss" using I(3) [of i ty m] wire by simp_all
  have "on_way c i \<noteq> {#}" using wire by (simp add: on_way_def)
  then obtain t' th' where th': "cl_threads c t' = Some th'" "owns (th_at th')" "th_slot th' = i"
    using I(5) [OF len] unfolding owned_def by blast
  have invalid: "\<not> sl_valid (?ss ! i)"
    using client_inv_thread(2) [OF inv th'(1,2)] th'(3) wire by (auto simp: on_way_def single_is_union split: if_splits)
  have posted: "sl_post_receive (sl_pre_receive ty m (?ss ! i))
      = (?ss ! i)\<lparr>sl_received := 1, sl_expected := 1, sl_body_message := m\<rparr>"
    using post_receive_single slot_shape_nth [OF I(2) len] invalid ty by blast
  have shape: "slot_shape ((?ss ! i)\<lparr>sl_received := 1, sl_expected := 1, sl_body_message := m\<rparr>)"
    using slot_shape_nth [OF I(2) len] by (simp add: slot_shape_def)
  have other: "on_way (c\<lparr>cl_rx := ?rx\<rparr>) j = on_way c j" for j
    using invalid wire posted len slot_shape_nth [OF I(2) len]
    by (cases "j = i") (auto simp: on_way_def upd_slot_def sl_valid_def slot_shape_def)
  show ?thesis
    by (rule client_inv_frame [OF inv th])
      (use I(1,2) T at posted shape other wire len in \<open>auto simp: upd_slot_def list_all_update nth_list_update\<close>)
qed

lemma receive_inv:
  assumes inv: "client_inv c" and th: "cl_threads c t = Some th"
    and step: "receive_step ev (th_slot th) (cl_rx c) (th_at th) = Some (rx, at)"
  shows "client_inv (c\<lparr>cl_rx := rx, cl_threads := (cl_threads c)(t \<mapsto> th\<lparr>th_at := at\<rparr>)\<rparr>)"
proof -
  note quiet = client_inv_quiet [OF inv th] and T = client_inv_thread [OF inv th] and I = client_invD [OF inv]
  note keep = quiet [where u = "rx_using_wire (cl_rx c)"]
  show ?thesis
  proof (cases "th_at th")
    case At_wait
    then have "rx = cl_rx c" "at = At_check" using step by (simp_all split: if_splits)
    then show ?thesis using At_wait by (intro keep) simp_all
  next
    case At_check
    then show ?thesis
    proof (cases "sl_valid (rx_slots (cl_rx c) ! th_slot th)")
      case True
      then show ?thesis using step At_check check_inv [OF inv th At_check] by auto
    next
      case False
      then have "rx = cl_rx c" "at = At_exchange" using step At_check by simp_all
      then show ?thesis using At_check by (intro keep) simp_all
    qed
  next
    case At_exchange
    then consider "rx = cl_rx c" "at = At_wait"
      | "rx = (cl_rx c)\<lparr>rx_using_wire := True\<rparr>" "at = At_await" "\<not> rx_using_wire (cl_rx c)"
      using step by (auto split: if_splits)
    then show ?thesis
    proof cases
      case 1
      then show ?thesis using At_exchange by (intro keep) simp_all
    next
      case 2
      then show ?thesis using At_exchange by (intro quiet [where u = True]) simp_all
    qed
  next
    case At_await
    then consider "rx = cl_rx c" "at = At_wait" | "rx = (cl_rx c)\<lparr>rx_using_wire := False\<rparr>" "at = Receive_failed"
      | i ty m rest where "rx = cl_rx c" "at = At_read i ty True" "rx_wire (cl_rx c) = (i, ty, m) # rest"
      using step I(1) by (auto simp: rx_await_def split: receive_event.splits if_splits list.splits)
    then show ?thesis
    proof cases
      case 1
      then show ?thesis using At_await by (intro keep) simp_all
    next
      case 2
      then show ?thesis using At_await by (intro quiet [where u = False]) simp_all
    next
      case 3
      then show ?thesis using At_await T(5) by (intro keep) simp_all
    qed
  next
    case (At_read i ty ow)
    then obtain m rest where wire: "rx_wire (cl_rx c) = (i, ty, m) # rest" and ow: "ow" using T(6) by blast
    have len: "i < length (rx_slots (cl_rx c))" using I(3) [of i ty m] wire by simp
    have at: "th_at th = At_read i ty True" using At_read ow by simp
    show ?thesis
    proof (cases "i = th_slot th")
      case True
      then show ?thesis using step at wire read_mine_inv [OF inv th] by (auto simp: rx_read_def)
    next
      case False
      then show ?thesis using step at wire len read_other_inv [OF inv th at False wire] by (auto simp: rx_read_def)
    qed
  next
    case At_release
    then have "rx = (cl_rx c)\<lparr>rx_using_wire := False\<rparr>" "at = At_wait" using step by simp_all
    then show ?thesis using At_release by (intro quiet [where u = False]) simp_all
  next
    case (At_release_mine m)
    then have "rx = (cl_rx c)\<lparr>rx_using_wire := False\<rparr>" "at = Received m" using step by simp_all
    then show ?thesis using At_release_mine by (intro quiet [where u = False]) simp_all
  qed (use step in simp_all)
qed

lemma filtered_add:
  assumes "mset ps = add_mset (k, m) (mset qs)"
  shows "mset (map snd (filter (\<lambda>p. fst p = i) ps)) = mset (map snd (filter (\<lambda>p. fst p = i) qs)) + (if k = i then {#m#} else {#})"
  by (simp add: assms)

lemma respond_inv:
  assumes inv: "client_inv c" and pending: "(k, m) \<in> set (cl_pending c)" and ty: "ty \<noteq> RESPONSE_BODYHEAD"
  shows "client_inv (c\<lparr>cl_rx := (cl_rx c)\<lparr>rx_wire := rx_wire (cl_rx c) @ [(k, ty, m)]\<rparr>,
                       cl_pending := remove1 (k, m) (cl_pending c)\<rparr>)"
    (is "client_inv ?c")
proof -
  note I = client_invD [OF inv]
  have "mset (cl_pending c) = add_mset (k, m) (mset (remove1 (k, m) (cl_pending c)))" using pending by simp
  note moved = filtered_add [OF this]
  have way: "on_way ?c i = on_way c i" for i by (simp add: on_way_def moved del: mset_map mset_filter mset_remove1)
  have "owned ?c i = owned c i" for i by (simp add: owned_def)
  moreover have "thread_ok ?c th" if "cl_threads c t = Some th" for t th
    using client_inv_thread [OF inv that] way by (auto simp: thread_ok_def)
  moreover have "\<forall>(i, ty, m) \<in> set (rx_wire (cl_rx ?c)). i < length (rx_slots (cl_rx c)) \<and> ty \<noteq> RESPONSE_BODYHEAD"
    using I(3,4) pending ty by auto
  moreover have "\<forall>(i, m) \<in> set (cl_pending ?c). i < length (rx_slots (cl_rx c))"
    using I(4) set_remove1_subset [of "(k, m)" "cl_pending c"] by auto
  ultimately show ?thesis
    using I(1,2,5) client_inv_apart [OF inv] way unfolding client_inv_def by simp
qed

lemma request_inv:
  assumes inv: "client_inv c" and t: "cl_threads c t = None"
    and slot: "search_slot (rx_slots (cl_rx c)) = (slots, Inr k)"
  shows "client_inv (c\<lparr>cl_rx := (cl_rx c)\<lparr>rx_slots := slots\<rparr>,
                       cl_threads := (cl_threads c)(t \<mapsto> \<lparr>th_slot = k, th_at = At_wait, th_wanted = m\<rparr>),
                       cl_pending := (k, m) # cl_pending c\<rparr>)"
    (is "client_inv ?c")
proof -
  let ?ss = "rx_slots (cl_rx c)"
  note I = client_invD [OF inv] and slot = search_slot_Inr [OF slot]
  have free: "\<not> owned c k" using client_inv_thread(3) [OF inv] slot(2) by (auto simp: owned_def)
  have shape: "list_all slot_shape slots"
    using list_all_update [OF I(2)] slot_shape_nth [OF I(2) slot(1)] by (simp add: slot(3) slot_shape_def)
  have valid: "sl_valid (slots ! i) = sl_valid (?ss ! i)" "sl_body_message (slots ! i) = sl_body_message (?ss ! i)" for i
    using slot(1) by (cases "i = k"; simp add: slot(3) sl_valid_def)+
  have way: "on_way ?c i = (if i = k then {#m#} else on_way c i)" for i
    using I(5) [OF slot(1) free] by (auto simp: on_way_def valid)
  have new: "thread_ok ?c \<lparr>th_slot = k, th_at = At_wait, th_wanted = m\<rparr>"
    using slot(1) way [of k] by (simp add: thread_ok_def slot(3))
  have old: "thread_ok ?c th \<and> apart \<lparr>th_slot = k, th_at = At_wait, th_wanted = m\<rparr> th"
    if th: "cl_threads c t' = Some th" for t' th
  proof -
    note T = client_inv_thread [OF inv th]
    have k: "owns (th_at th) \<Longrightarrow> th_slot th \<noteq> k" using free th by (auto simp: owned_def)
    have "thread_ok ?c th"
      unfolding thread_ok_def using T k way by (auto simp: slot(3))
    then show ?thesis using k by (auto simp: apart_def)
  qed
  have pending: "\<forall>(i, m') \<in> set (cl_pending ?c). i < length slots" using I(4) slot(1,3) by auto
  have wire: "\<forall>(i, ty, m') \<in> set (rx_wire (cl_rx c)). i < length slots \<and> ty \<noteq> RESPONSE_BODYHEAD"
    using I(3) slot(3) by auto
  have empty: "on_way ?c i = {#}" if "i < length slots" "\<not> owned ?c i" for i
  proof -
    have "i \<noteq> k" using that(2) ownedI [of ?c t "\<lparr>th_slot = k, th_at = At_wait, th_wanted = m\<rparr>"] by auto
    moreover have "\<not> owned c i"
    proof
      assume "owned c i"
      then obtain t' th where th: "cl_threads c t' = Some th" "owns (th_at th)" "th_slot th = i"
        unfolding owned_def by blast
      then have "cl_threads ?c t' = Some th" using t by auto
      then show False using ownedI [of ?c t' th] th that(2) by simp
    qed
    ultimately show ?thesis using way I(5) that(1) slot(3) by simp
  qed
  have threads: "\<forall>t' th. cl_threads ?c t' = Some th \<longrightarrow> thread_ok ?c th" using new old by simp
  have "\<forall>t1 th1 t2 th2. cl_threads ?c t1 = Some th1 \<longrightarrow> cl_threads ?c t2 = Some th2 \<longrightarrow> t1 \<noteq> t2 \<longrightarrow> apart th1 th2"
    using old client_inv_apart [OF inv] by (auto intro: apart_sym split: if_splits)
  then show ?thesis unfolding client_inv_def using I(1) shape pending wire empty threads by simp
qed

lemma client_start_inv: "client_inv client_start"
  by (auto simp: client_inv_def client_start_def on_way_def slot_shape_def sl_valid_def slot_new_def list_all_iff)

lemma client_step_inv: "client_step c c' \<Longrightarrow> client_inv c \<Longrightarrow> client_inv c'"
  by (induction rule: client_step.induct) (simp_all add: request_inv respond_inv receive_inv)

lemma client_reachable_inv: "client_step\<^sup>*\<^sup>* client_start c \<Longrightarrow> client_inv c"
  by (induction rule: rtranclp_induct) (auto intro: client_start_inv client_step_inv)

subsection \<open>What the threads receive\<close>


text \<open>A schedule that can be evaluated.\<close>

datatype client_action = Do_request nat "byte list" | Do_respond nat "byte list" msg_type | Do_receive nat receive_event

fun client_do :: "client_action \<Rightarrow> client \<Rightarrow> client option" where
  "client_do (Do_request t m) c =
     (if cl_threads c t \<noteq> None then None
      else case search_slot (rx_slots (cl_rx c)) of
             (slots, Inl ex) \<Rightarrow> None
           | (slots, Inr k) \<Rightarrow>
               Some (c\<lparr>cl_rx := (cl_rx c)\<lparr>rx_slots := slots\<rparr>,
                       cl_threads := (cl_threads c)(t \<mapsto> \<lparr>th_slot = k, th_at = At_wait, th_wanted = m\<rparr>),
                       cl_pending := (k, m) # cl_pending c\<rparr>))"
| "client_do (Do_respond k m ty) c =
     (if (k, m) \<in> set (cl_pending c) \<and> ty \<noteq> RESPONSE_BODYHEAD
      then Some (c\<lparr>cl_rx := (cl_rx c)\<lparr>rx_wire := rx_wire (cl_rx c) @ [(k, ty, m)]\<rparr>,
                   cl_pending := remove1 (k, m) (cl_pending c)\<rparr>)
      else None)"
| "client_do (Do_receive t ev) c =
     (case cl_threads c t of
        None \<Rightarrow> None
      | Some th \<Rightarrow>
          map_option (\<lambda>(rx, at). c\<lparr>cl_rx := rx, cl_threads := (cl_threads c)(t \<mapsto> th\<lparr>th_at := at\<rparr>)\<rparr>)
            (receive_step ev (th_slot th) (cl_rx c) (th_at th)))"

fun client_run :: "client_action list \<Rightarrow> client \<Rightarrow> client option" where
  "client_run [] c = Some c"
| "client_run (a # as) c = (case client_do a c of None \<Rightarrow> None | Some c' \<Rightarrow> client_run as c')"

lemma client_do_step: "client_do a c = Some c' \<Longrightarrow> client_step c c'"
  by (cases a) (auto split: if_splits prod.splits sum.splits option.splits intro: client_step.intros)

lemma client_run_reachable: "client_run as c = Some c' \<Longrightarrow> client_step\<^sup>*\<^sup>* c c'"
  by (induction as arbitrary: c)
    (auto split: option.splits dest!: client_do_step intro: converse_rtranclp_into_rtranclp)

text \<open>Two requests; the first thread uses the wire and finds the response of the second.\<close>

definition crossing :: "client_action list" where
  "crossing =
     [Do_request 0 [10], Do_request 1 [11], Do_respond 1 [11] 1,
      Do_receive 0 Goes_on, Do_receive 0 Goes_on, Do_receive 0 Goes_on, Do_receive 0 Goes_on]"

definition second_wakes :: "client_action list" where
  "second_wakes = [Do_receive 0 Goes_on, Do_receive 0 Goes_on, Do_receive 1 Goes_on, Do_receive 1 Goes_on]"

text \<open>The same, but the second thread has passed its test of \<open>valid\<close> before the first takes the wire.\<close>

definition second_late :: "client_action list" where
  "second_late =
     [Do_request 0 [10], Do_request 1 [11], Do_receive 1 Goes_on, Do_receive 1 Goes_on,
      Do_respond 1 [11] 1, Do_respond 0 [10] 1,
      Do_receive 0 Goes_on, Do_receive 0 Goes_on, Do_receive 0 Goes_on, Do_receive 0 Goes_on,
      Do_receive 0 Goes_on, Do_receive 0 Goes_on,
      Do_receive 0 Goes_on, Do_receive 0 Goes_on, Do_receive 0 Goes_on, Do_receive 0 Goes_on, Do_receive 0 Goes_on,
      Do_receive 0 Goes_on, Do_receive 1 Goes_on]"

text \<open>\<open>await\<close> throws and the handler finds the server alive.\<close>

definition alive_again :: "client_action list" where
  "alive_again =
     [Do_request 0 [10], Do_receive 0 Goes_on, Do_receive 0 Goes_on, Do_receive 0 Goes_on,
      Do_receive 0 (Await_throws True), Do_respond 0 [10] 1]"

lemmas client_eval = client_start_def slot_size_def search_slot_def sl_test_and_set_in_use_def slot_new_def
  RESPONSE_BODYHEAD_def sl_valid_def rx_await_def rx_read_def upd_slot_def sl_post_receive_def sl_pre_receive_def
  sl_expect_def Let_def sl_consume_def sl_finish_receive_def sl_receive_and_consume_def numeral_eq_Suc


text \<open>\<open>receive\<close> tests \<open>valid()\<close> and takes \<open>using_wire_\<close> in two steps without a lock.  A thread whose response
  arrives in its slot between them waits on an empty wire for a response it already has: nothing is pending, no other
  thread is running, and the call does not return.\<close>

theorem receive_blocks_with_response_in_slot:
  "\<exists>c th. client_step\<^sup>*\<^sup>* client_start c \<and> cl_threads c 1 = Some th \<and> th_at th = At_await
     \<and> sl_valid (rx_slots (cl_rx c) ! th_slot th) \<and> sl_body_message (rx_slots (cl_rx c) ! th_slot th) = th_wanted th
     \<and> cl_pending c = [] \<and> rx_wire (cl_rx c) = []
     \<and> receive_step Goes_on (th_slot th) (cl_rx c) (th_at th) = None
     \<and> map_option th_at (cl_threads c 0) = Some (Received [10])"
proof -
  obtain c where c: "client_run second_late client_start = Some c"
    and th: "\<exists>th. cl_threads c 1 = Some th \<and> th_at th = At_await
     \<and> sl_valid (rx_slots (cl_rx c) ! th_slot th) \<and> sl_body_message (rx_slots (cl_rx c) ! th_slot th) = th_wanted th
     \<and> cl_pending c = [] \<and> rx_wire (cl_rx c) = []
     \<and> receive_step Goes_on (th_slot th) (cl_rx c) (th_at th) = None
     \<and> map_option th_at (cl_threads c 0) = Some (Received [10])"
    by (simp add: second_late_def client_eval)
  then show ?thesis using client_run_reachable [OF c] by blast
qed

text \<open>The handler of \<open>receive\<close> goes back to the loop without clearing \<open>using_wire_\<close>: the thread then waits for
  ever, its response on the wire.\<close>

lemma handler_keeps_wire:
  "\<exists>c th. client_step\<^sup>*\<^sup>* client_start c \<and> cl_threads c 0 = Some th
     \<and> rx_wire (cl_rx c) = [(th_slot th, 1, th_wanted th)] \<and> (\<forall>ev. receive_step ev (th_slot th) (cl_rx c) (th_at th) = None)"
proof -
  obtain c where c: "client_run alive_again client_start = Some c"
    and th: "\<exists>th. cl_threads c 0 = Some th
     \<and> rx_wire (cl_rx c) = [(th_slot th, 1, th_wanted th)] \<and> (\<forall>ev. receive_step ev (th_slot th) (cl_rx c) (th_at th) = None)"
    by (simp add: alive_again_def client_eval)
  then show ?thesis using client_run_reachable [OF c] by blast
qed

end
