(* ===== verification/Protobuf_Utils.thy ===== *)
theory Protobuf_Utils
  imports Bootstrap_Prelude
begin

section \<open>Delimited messages\<close>

text \<open>
  \<^verbatim>\<open>src/tateyama/utils/protobuf_utils.cpp\<close>: a message is written as its length, a base-128 varint, followed by its
  bytes, and read back from a stream.  The coded streams of protobuf are not part of the program: what is
  used of them, \<open>WriteVarint32\<close> and \<open>ReadVarint32\<close>, is the record \<open>coded_stream\<close>, an argument of every
  definition, and a message class is given by its functions from and to bytes.  A reader returns the bytes
  that are left.
\<close>

record coded_stream =
  write_varint32 :: "nat \<Rightarrow> byte list"
  read_varint32 :: "byte list \<Rightarrow> nat + nat \<times> byte list"

text \<open>\<open>read_varint32\<close> fails with the number of bytes it has read.  The interface the round trips rest on:\<close>

locale varint_codec =
  fixes cs :: coded_stream
  assumes read_write: "n < 2 ^ 32 \<Longrightarrow> read_varint32 cs (write_varint32 cs n @ rest) = Inr (n, rest)"

definition INT_MAX :: nat where
  "INT_MAX = 2147483647"

text \<open>The second component of the result is what \<open>*clean_eof\<close> is set to.\<close>

definition ParseDelimitedFromCodedStream ::
  "coded_stream \<Rightarrow> (byte list \<Rightarrow> 'm option) \<Rightarrow> byte list \<Rightarrow> ('m \<times> byte list) option \<times> bool" where
  "ParseDelimitedFromCodedStream cs parse input =
     (case read_varint32 cs input of
        Inl k \<Rightarrow> (None, k = 0)
      | Inr (size', rest) \<Rightarrow>
          if INT_MAX < size' \<or> length rest < size' then (None, False)
          else (case parse (take size' rest) of
                  None \<Rightarrow> (None, False)
                | Some m \<Rightarrow> (Some (m, drop size' rest), False)))"

definition ParseDelimitedFromZeroCopyStream ::
  "coded_stream \<Rightarrow> (byte list \<Rightarrow> 'm option) \<Rightarrow> byte list \<Rightarrow> ('m \<times> byte list) option \<times> bool" where
  "ParseDelimitedFromZeroCopyStream cs parse input = ParseDelimitedFromCodedStream cs parse input"

definition SerializeDelimitedToCodedStream ::
  "coded_stream \<Rightarrow> ('m \<Rightarrow> byte list) \<Rightarrow> 'm \<Rightarrow> byte list \<Rightarrow> byte list option" where
  "SerializeDelimitedToCodedStream cs serialize message output =
     (let bytes = serialize message
      in if INT_MAX < length bytes then None
         else Some (output @ write_varint32 cs (length bytes) @ bytes))"

definition SerializeDelimitedToZeroCopyStream ::
  "coded_stream \<Rightarrow> ('m \<Rightarrow> byte list) \<Rightarrow> 'm \<Rightarrow> byte list \<Rightarrow> byte list option" where
  "SerializeDelimitedToZeroCopyStream cs serialize message output =
     SerializeDelimitedToCodedStream cs serialize message output"

text \<open>\<open>good\<close> is the state of the stream after the write; it is true for a \<open>std::stringstream\<close>.\<close>

definition SerializeDelimitedToOstream ::
  "coded_stream \<Rightarrow> ('m \<Rightarrow> byte list) \<Rightarrow> bool \<Rightarrow> 'm \<Rightarrow> byte list \<Rightarrow> byte list option" where
  "SerializeDelimitedToOstream cs serialize good message output =
     (case SerializeDelimitedToZeroCopyStream cs serialize message output of
        None \<Rightarrow> None
      | Some output' \<Rightarrow> if good then Some output' else None)"

text \<open>\<open>GetDirectBufferPointer\<close> fails when nothing is left within the limit: a body of length zero is not read.\<close>

definition GetDelimitedBodyFromCodedStream ::
  "coded_stream \<Rightarrow> byte list \<Rightarrow> (byte list \<times> byte list) option \<times> bool" where
  "GetDelimitedBodyFromCodedStream cs input =
     (case read_varint32 cs input of
        Inl k \<Rightarrow> (None, k = 0)
      | Inr (size', rest) \<Rightarrow>
          if size' = 0 \<or> INT_MAX < size' \<or> length rest < size' then (None, False)
          else (Some (take size' rest, drop size' rest), False))"

definition GetDelimitedBodyFromZeroCopyStream ::
  "coded_stream \<Rightarrow> byte list \<Rightarrow> (byte list \<times> byte list) option \<times> bool" where
  "GetDelimitedBodyFromZeroCopyStream cs input = GetDelimitedBodyFromCodedStream cs input"

definition PutDelimitedBodyToCodedStream :: "coded_stream \<Rightarrow> byte list \<Rightarrow> byte list \<Rightarrow> byte list option" where
  "PutDelimitedBodyToCodedStream cs input output =
     (if INT_MAX < length input then None else Some (output @ write_varint32 cs (length input) @ input))"

definition PutDelimitedBodyToZeroCopyStream :: "coded_stream \<Rightarrow> byte list \<Rightarrow> byte list \<Rightarrow> byte list option" where
  "PutDelimitedBodyToZeroCopyStream cs input output = PutDelimitedBodyToCodedStream cs input output"

definition PutDelimitedBodyToOstream :: "coded_stream \<Rightarrow> bool \<Rightarrow> byte list \<Rightarrow> byte list \<Rightarrow> byte list option" where
  "PutDelimitedBodyToOstream cs good input output =
     (case PutDelimitedBodyToZeroCopyStream cs input output of
        None \<Rightarrow> None
      | Some output' \<Rightarrow> if good then Some output' else None)"

lemmas delimited_defs = ParseDelimitedFromCodedStream_def ParseDelimitedFromZeroCopyStream_def
  SerializeDelimitedToCodedStream_def SerializeDelimitedToZeroCopyStream_def SerializeDelimitedToOstream_def
  GetDelimitedBodyFromCodedStream_def GetDelimitedBodyFromZeroCopyStream_def
  PutDelimitedBodyToCodedStream_def PutDelimitedBodyToZeroCopyStream_def PutDelimitedBodyToOstream_def

context varint_codec
begin

lemma parse_serialized:
  assumes "SerializeDelimitedToOstream cs serialize good m output = Some output'"
    and "parse (serialize m) = Some m"
  shows "\<exists>bytes. output' = output @ bytes \<and>
    (\<forall>rest. ParseDelimitedFromZeroCopyStream cs parse (bytes @ rest) = (Some (m, rest), False))"
proof -
  have len: "length (serialize m) \<le> INT_MAX"
    and out: "output' = output @ write_varint32 cs (length (serialize m)) @ serialize m"
    using assms(1) by (auto simp: delimited_defs Let_def split: if_split_asm)
  have "length (serialize m) < 2 ^ 32" using len by (simp add: INT_MAX_def)
  note rd = read_write [OF this]
  show ?thesis
    using out len assms(2)
    by (intro exI [of _ "write_varint32 cs (length (serialize m)) @ serialize m"])
       (simp add: delimited_defs rd)
qed

lemma body_put:
  assumes "PutDelimitedBodyToOstream cs good body output = Some output'"
  shows "\<exists>bytes. output' = output @ bytes \<and>
    (\<forall>rest. GetDelimitedBodyFromZeroCopyStream cs (bytes @ rest) =
       (if body = [] then None else Some (body, rest), False))"
proof -
  have len: "length body \<le> INT_MAX" and out: "output' = output @ write_varint32 cs (length body) @ body"
    using assms(1) by (auto simp: delimited_defs split: if_split_asm)
  have "length body < 2 ^ 32" using len by (simp add: INT_MAX_def)
  note rd = read_write [OF this]
  show ?thesis
    using out len
    by (intro exI [of _ "write_varint32 cs (length body) @ body"]) (simp add: delimited_defs rd)
qed

end

subsection \<open>The documented encoding\<close>

text \<open>Base-128 varints: seven bits in a byte, the least significant group first, the top bit set in every byte
  but the last; a reader takes ten bytes at most and keeps 32 bits.\<close>

fun varint_bytes :: "nat \<Rightarrow> byte list" where
  "varint_bytes n = (if n < 128 then [word_of_nat n] else word_of_nat (n mod 128 + 128) # varint_bytes (n div 128))"

declare varint_bytes.simps [simp del]

fun varint_value :: "nat \<Rightarrow> nat \<Rightarrow> byte list \<Rightarrow> nat + nat \<times> byte list" where
  "varint_value 0 k bs = Inl k"
| "varint_value (Suc fuel) k [] = Inl k"
| "varint_value (Suc fuel) k (b # bs) =
     (if unat b < 128 then Inr (unat b, bs)
      else (case varint_value fuel (Suc k) bs of
              Inl j \<Rightarrow> Inl j
            | Inr (v, rest) \<Rightarrow> Inr (unat b - 128 + 128 * v, rest)))"

definition standard_varint :: coded_stream where
  "standard_varint =
     \<lparr>write_varint32 = varint_bytes,
      read_varint32 = (\<lambda>bs. case varint_value 10 0 bs of Inl k \<Rightarrow> Inl k | Inr (v, rest) \<Rightarrow> Inr (v mod 2 ^ 32, rest))\<rparr>"

lemma varint_value_bytes:
  "n < 128 ^ Suc fuel \<Longrightarrow> varint_value (Suc fuel) k (varint_bytes n @ rest) = Inr (n, rest)"
proof (induction fuel arbitrary: n k)
  case 0
  then show ?case by (subst varint_bytes.simps) (simp add: unsigned_of_nat take_bit_nat_eq_self)
next
  case (Suc fuel)
  show ?case
  proof (cases "n < 128")
    case True
    then show ?thesis by (subst varint_bytes.simps) (simp add: unsigned_of_nat take_bit_nat_eq_self)
  next
    case False
    have "n div 128 < 128 ^ Suc fuel" using Suc.prems by (simp add: div_less_iff_less_mult)
    note ih = Suc.IH [OF this]
    obtain b :: byte where b: "b = word_of_nat (n mod 128 + 128)" by blast
    have ub: "unat b = n mod 128 + 128"
      unfolding b by (simp only: unsigned_of_nat) (simp add: take_bit_nat_eq_self)
    have "varint_bytes n = b # varint_bytes (n div 128)"
      using False unfolding b by (subst varint_bytes.simps) (simp only: if_False)
    moreover have "n mod 128 + 128 * (n div 128) = n" by simp
    ultimately show ?thesis using ih by (simp add: ub)
  qed
qed

interpretation std_varint: varint_codec standard_varint
proof
  fix n :: nat and rest
  assume n: "n < 2 ^ 32"
  have ten: "(10::nat) = Suc 9" by simp
  have "n < 128 ^ Suc 9" using n by (rule order.strict_trans2) simp
  from varint_value_bytes [OF this] have "varint_value 10 0 (varint_bytes n @ rest) = Inr (n, rest)"
    by (simp only: ten)
  then show "read_varint32 standard_varint (write_varint32 standard_varint n @ rest) = Inr (n, rest)"
    using n by (simp add: standard_varint_def)
qed

section \<open>Properties\<close>

text \<open>C31: a framed message is read back as it was written: after a delimited header and a delimited body have been
  written to a stream, reading a header and then a body returns the two and leaves what followed them,
  unless the body is empty, which the reader refuses.\<close>

theorem frame_roundtrip:
  assumes "varint_codec cs" "parse (serialize h) = Some h"
    and "SerializeDelimitedToOstream cs serialize good h output = Some output1"
    and "PutDelimitedBodyToOstream cs good body output1 = Some output2"
  shows "\<exists>bytes. output2 = output @ bytes \<and>
    (\<exists>rest'. ParseDelimitedFromZeroCopyStream cs parse (bytes @ rest) = (Some (h, rest'), False) \<and>
       fst (GetDelimitedBodyFromZeroCopyStream cs rest') = (if body = [] then None else Some (body, rest)))"
proof -
  obtain b1 where b1: "output1 = output @ b1"
    "\<And>rest. ParseDelimitedFromZeroCopyStream cs parse (b1 @ rest) = (Some (h, rest), False)"
    using varint_codec.parse_serialized [OF assms(1,3), of parse] assms(2) by blast
  obtain b2 where b2: "output2 = output1 @ b2"
    "\<And>rest. GetDelimitedBodyFromZeroCopyStream cs (b2 @ rest) = (if body = [] then None else Some (body, rest), False)"
    using varint_codec.body_put [OF assms(1,4)] by blast
  show ?thesis
    by (intro exI [of _ "b1 @ b2"] conjI exI [of _ "b2 @ rest"]) (simp_all add: b1 b2)
qed

theorem frame_roundtrip_witness:
  "\<exists>rest'. ParseDelimitedFromZeroCopyStream standard_varint Some [2, 1, 2, 1, 3, 9] = (Some ([1, 2], rest'), False) \<and>
     fst (GetDelimitedBodyFromZeroCopyStream standard_varint rest') = Some ([3], [9])"
proof -
  have bytes: "varint_bytes (Suc (Suc 0)) = [2]" "varint_bytes (Suc 0) = [1]"
    by (subst varint_bytes.simps, simp)+
  have "SerializeDelimitedToOstream standard_varint (\<lambda>m. m) True [1, 2] [] = Some [2, 1, 2]"
    "PutDelimitedBodyToOstream standard_varint True [3] [2, 1, 2] = Some [2, 1, 2, 1, 3]"
    by (simp_all add: delimited_defs standard_varint_def bytes INT_MAX_def)
  from frame_roundtrip [of standard_varint Some "\<lambda>m. m" "[1, 2]", OF std_varint.varint_codec_axioms refl this, of "[9]"]
  show ?thesis by auto
qed

end
