(* ===== verification/Authentication.thy ===== *)
theory Authentication
  imports Complex_Main Configuration
begin

section \<open>Credentials and the authentication of a user\<close>

text \<open>
  \<^verbatim>\<open>src/tateyama/authentication\<close>: \<open>credential_handler\<close> chooses the credential a command presents, \<open>client\<close>
  talks to the authentication service over HTTP, and \<open>authenticator::authenticate\<close> decides whether the user may run
  a command that needs no server.  HTTP, JSON, JWT and RSA are libraries: the replies of the service, the decoding of a
  token and the encryption are fields of the environments below.
\<close>

subsection \<open>\<open>credential_handler\<close>\<close>

datatype credential_type =
    ct_not_defined | ct_no_auth | ct_user_password | ct_auth_token | ct_file | ct_disabled

datatype json_value = J_int int | J_string string

datatype credential = No_credential | Encrypted_credential string | Remember_me_credential string

record credential_handler =
  ch_type :: credential_type
  ch_json_text :: string
  ch_auth_token :: string
  ch_encrypted_credential :: string
  ch_expiration :: int
  ch_expiration_date_string :: string

definition credential_handler_new :: credential_handler where
  "credential_handler_new =
     \<lparr>ch_type = ct_not_defined, ch_json_text = [], ch_auth_token = [], ch_encrypted_credential = [],
      ch_expiration = 300, ch_expiration_date_string = []\<rparr>"

text \<open>The command line, the environment variables, the files, the keyboard and the clock, as the handler sees them;
  \<open>ae_encrypt key text\<close> is the text encrypted with the key and encoded in base 64, and \<open>ae_prompt\<close> what
  is typed at a prompt.\<close>

record auth_env =
  FLAGS_user :: string
  FLAGS_auth_token :: string
  FLAGS_credentials :: string
  FLAGS__auth :: bool
  ae_flags_conf :: string
  ae_conf :: conf_env
  ae_get_bool :: "string \<Rightarrow> bool outcome"
  ae_env_token :: "string option"
  ae_home :: "path option"
  ae_read_file :: "path \<Rightarrow> string option"
  ae_prompt :: "string \<Rightarrow> bool \<Rightarrow> string outcome"
  ae_now :: nat
  ae_json :: "(string \<rightharpoonup> json_value) \<Rightarrow> string"
  ae_encrypt :: "string \<Rightarrow> string \<Rightarrow> string outcome"

definition set_disabled :: "credential_handler \<Rightarrow> credential_handler" where
  "set_disabled ch = ch\<lparr>ch_type := ct_disabled\<rparr>"

definition set_no_auth :: "credential_handler \<Rightarrow> credential_handler" where
  "set_no_auth ch = ch\<lparr>ch_type := ct_no_auth\<rparr>"

definition set_auth_token :: "string \<Rightarrow> credential_handler \<Rightarrow> credential_handler" where
  "set_auth_token token ch = ch\<lparr>ch_type := ct_auth_token, ch_auth_token := token\<rparr>"

definition set_encrypted_credential :: "string \<Rightarrow> credential_handler \<Rightarrow> credential_handler" where
  "set_encrypted_credential ec ch = ch\<lparr>ch_type := ct_file, ch_encrypted_credential := ec\<rparr>"

text \<open>\<open>std::getline\<close>: the text in front of the first newline.\<close>

definition first_line :: "string \<Rightarrow> string" where
  "first_line text' = takeWhile (\<lambda>ch. ch \<noteq> CHR 0x0A) text'"

definition set_file_credential :: "auth_env \<Rightarrow> path \<Rightarrow> credential_handler \<Rightarrow> credential_handler" where
  "set_file_credential ae path ch =
     (let ch = ch\<lparr>ch_type := ct_file\<rparr>
      in (case ae_read_file ae path of
            None \<Rightarrow> ch
          | Some text' \<Rightarrow>
              (let ec = first_line text' in if ec \<noteq> [] then set_encrypted_credential ec ch else ch)))"

definition set_expiration :: "int \<Rightarrow> credential_handler \<Rightarrow> credential_handler" where
  "set_expiration expiration ch = ch\<lparr>ch_expiration := expiration * 24 * 60\<rparr>"

definition default_credential_path :: "auth_env \<Rightarrow> path option" where
  "default_credential_path ae =
     map_option (\<lambda>name. path_append (path_append name ''.tsurugidb'') ''credentials.key'') (ae_home ae)"

text \<open>\<open>std::gmtime\<close> and \<open>std::put_time\<close> with \<^verbatim>\<open>%Y-%m-%dT%H:%M:%S\<close>, for times after 1970.\<close>

definition leap_year :: "nat \<Rightarrow> bool" where
  "leap_year y \<longleftrightarrow> y mod 4 = 0 \<and> (y mod 100 \<noteq> 0 \<or> y mod 400 = 0)"

definition days_of_year :: "nat \<Rightarrow> nat" where
  "days_of_year y = (if leap_year y then 366 else 365)"

function year_and_day :: "nat \<Rightarrow> nat \<Rightarrow> nat \<times> nat" where
  "year_and_day y d = (if d < days_of_year y then (y, d) else year_and_day (Suc y) (d - days_of_year y))"
  by auto

termination
  by (relation "measure snd") (auto simp: days_of_year_def split: if_splits)

declare year_and_day.simps [simp del]

definition month_lengths :: "nat \<Rightarrow> nat list" where
  "month_lengths y = [31, if leap_year y then 29 else 28, 31, 30, 31, 30, 31, 31, 30, 31, 30, 31]"

fun month_and_day :: "nat \<Rightarrow> nat list \<Rightarrow> nat \<Rightarrow> nat \<times> nat" where
  "month_and_day m [] d = (m, d)"
| "month_and_day m (l # ls) d = (if d < l then (m, d) else month_and_day (Suc m) ls (d - l))"

definition two_digits :: "nat \<Rightarrow> string" where
  "two_digits n = (if n < 10 then ''0'' else []) @ to_string n"

definition put_time :: "nat \<Rightarrow> string" where
  "put_time seconds =
     (let (y, yd) = year_and_day 1970 (seconds div 86400);
          (m, d) = month_and_day 1 (month_lengths y) yd;
          s = seconds mod 86400
      in to_string y @ ''-'' @ two_digits m @ ''-'' @ two_digits (Suc d) @ ''T''
         @ two_digits (s div 3600) @ '':'' @ two_digits (s div 60 mod 60) @ '':'' @ two_digits (s mod 60))"

text \<open>\<open>t\<close> is in milliseconds.  The precision set on the stream has no effect on an integer.\<close>

definition expiration :: "auth_env \<Rightarrow> credential_handler \<Rightarrow> credential_handler \<times> string" where
  "expiration ae ch =
     (let t = nat (int (ae_now ae) + ch_expiration ch * 60000);
          r = put_time (t div 1000) @ ''.'' @ to_string (t - t div 1000 * 1000) @ ''Z''
      in (ch\<lparr>ch_expiration_date_string := r\<rparr>, r))"

definition FORMAT_VERSION :: int where
  "FORMAT_VERSION = 1"

definition get_json_text :: "auth_env \<Rightarrow> string \<Rightarrow> string \<Rightarrow> credential_handler \<Rightarrow> credential_handler \<times> string" where
  "get_json_text ae user password ch =
     (let j = [''format_version'' \<mapsto> J_int FORMAT_VERSION, ''user'' \<mapsto> J_string user, ''password'' \<mapsto> J_string password]
      in if 0 < ch_expiration ch
         then (case expiration ae ch of
                 (ch, date) \<Rightarrow>
                   (ch, ae_json ae (j(''expiration_date'' \<mapsto> J_string date, ''password'' \<mapsto> J_string password))))
         else (ch, ae_json ae j))"

definition set_user_password :: "auth_env \<Rightarrow> string \<Rightarrow> string \<Rightarrow> credential_handler \<Rightarrow> credential_handler" where
  "set_user_password ae user password ch =
     (case get_json_text ae user password (ch\<lparr>ch_type := ct_user_password\<rparr>) of
        (ch, text') \<Rightarrow> ch\<lparr>ch_json_text := text'\<rparr>)"

definition check_not_more_than_one :: "auth_env \<Rightarrow> bool" where
  "check_not_more_than_one ae =
     (if FLAGS_user ae \<noteq> [] \<and> (FLAGS_auth_token ae \<noteq> [] \<or> FLAGS_credentials ae \<noteq> [] \<or> \<not> FLAGS__auth ae) then False
      else if FLAGS_auth_token ae \<noteq> [] \<and> (FLAGS_credentials ae \<noteq> [] \<or> \<not> FLAGS__auth ae) then False
      else if FLAGS_credentials ae \<noteq> [] \<and> \<not> FLAGS__auth ae then False
      else True)"

text \<open>\<open>section->get<bool>("enabled")\<close>\<close>

definition get_enabled :: "auth_env \<Rightarrow> section' \<Rightarrow> bool option outcome" where
  "get_enabled ae sec =
     (case sec ''enabled'' of
        None \<Rightarrow> Inr None
      | Some v \<Rightarrow> (case ae_get_bool ae v of Inl e \<Rightarrow> Inl e | Inr b \<Rightarrow> Inr (Some b)))"

definition authentication_section :: "auth_env \<Rightarrow> section' outcome" where
  "authentication_section ae =
     (case snd (get_configuration (ae_conf ae) (create_bootstrap_configuration (ae_conf ae) (ae_flags_conf ae))) of
        Inl e \<Rightarrow> Inl e
      | Inr None \<Rightarrow> Inl Null_pointer
      | Inr (Some whole) \<Rightarrow>
          (case wh_sections whole ''authentication'' of None \<Rightarrow> Inl Null_pointer | Some sec \<Rightarrow> Inr sec))"

definition auth_options :: "auth_env \<Rightarrow> credential_handler \<Rightarrow> credential_handler outcome" where
  "auth_options ae ch =
     (case authentication_section ae of
        Inl e \<Rightarrow> Inl e
      | Inr sec \<Rightarrow>
          (case get_enabled ae sec of
             Inl e \<Rightarrow> Inl e
           | Inr enabled_opt \<Rightarrow>
               if enabled_opt \<noteq> Some True then Inr (set_disabled ch)
               else if \<not> check_not_more_than_one ae
               then Inl (Tgctl_error (runtime_error reason_authentication_failure
                                        ''more than one credential options are specified''))
               else if \<not> FLAGS__auth ae then Inr (set_no_auth ch)
               else if FLAGS_user ae \<noteq> []
               then (case ae_prompt ae ''password: '' False of
                       Inl e \<Rightarrow> Inl e
                     | Inr password \<Rightarrow> Inr (set_user_password ae (FLAGS_user ae) password ch))
               else if FLAGS_auth_token ae \<noteq> [] then Inr (set_auth_token (FLAGS_auth_token ae) ch)
               else if FLAGS_credentials ae \<noteq> [] then Inr (set_file_credential ae (FLAGS_credentials ae) ch)
               else (case ae_env_token ae of
                       Some token \<Rightarrow> Inr (set_auth_token token ch)
                     | None \<Rightarrow>
                         (case default_credential_path ae of
                            Some path \<Rightarrow> Inr (set_file_credential ae path ch)
                          | None \<Rightarrow> Inr ch))))"

text \<open>\<open>key_func\<close> is an action of the caller, whose state it may change; the credential is that of a fresh
  \<open>ClientInformation\<close>.\<close>

definition add_credential ::
    "auth_env \<Rightarrow> credential_handler \<Rightarrow> ('s \<Rightarrow> 's \<times> string option outcome) \<Rightarrow> 's \<Rightarrow> 's \<times> credential outcome" where
  "add_credential ae ch key_func s =
     (case ch_type ch of
        ct_disabled \<Rightarrow> (s, Inr No_credential)
      | ct_no_auth \<Rightarrow> (s, Inr No_credential)
      | ct_user_password \<Rightarrow>
          (case key_func s of
             (s, Inl e) \<Rightarrow> (s, Inl e)
           | (s, Inr (Some key)) \<Rightarrow>
               (case ae_encrypt ae key (ch_json_text ch) of
                  Inl e \<Rightarrow> (s, Inl e)
                | Inr ec \<Rightarrow> (s, Inr (Encrypted_credential ec)))
           | (s, Inr None) \<Rightarrow>
               (s, Inl (Tgctl_error (runtime_error reason_authentication_failure ''error in get encryption key''))))
      | ct_auth_token \<Rightarrow> (s, Inr (Remember_me_credential (ch_auth_token ch)))
      | ct_file \<Rightarrow> (s, Inr (Encrypted_credential (ch_encrypted_credential ch)))
      | ct_not_defined \<Rightarrow>
          (s, Inl (Tgctl_error (runtime_error reason_authentication_failure ''no credential specified''))))"

subsection \<open>\<open>client\<close>: the authentication service\<close>

text \<open>What \<open>client_->Get\<close> gives: an exception \<open>std::invalid_argument\<close>, no response, or a response with its status
  and its body, which \<open>nlohmann::json::parse\<close> reads as an object or refuses with an exception of its own.\<close>

type_synonym json_object = "string \<rightharpoonup> json_value"

datatype http_reply =
    Http_invalid_argument string
  | Http_no_response
  | Http_response nat "string + json_object"

record auth_client =
  ac_host :: string
  ac_port :: int
  ac_path :: string
  ac_timeout :: int

record auth_service =
  as_get :: "auth_client \<Rightarrow> string \<Rightarrow> (string \<times> string) list \<Rightarrow> http_reply"
  as_field_what :: "string \<Rightarrow> string"
  as_jwt_decode :: "string \<Rightarrow> string \<Rightarrow> (string option \<times> int option) option"

definition OK_200 :: nat where
  "OK_200 = 200"

definition ServiceUnavailable_503 :: nat where
  "ServiceUnavailable_503 = 503"

text \<open>\<open>j.find(name).value()\<close> converted to a string throws when the field is missing or is not a string;
  \<open>j.value("message", "")\<close> throws only in the second case.\<close>

definition js_find :: "auth_service \<Rightarrow> json_object \<Rightarrow> string \<Rightarrow> string + string" where
  "js_find as j name = (case j name of Some (J_string s) \<Rightarrow> Inr s | _ \<Rightarrow> Inl (as_field_what as name))"

definition js_message :: "auth_service \<Rightarrow> json_object \<Rightarrow> string + string" where
  "js_message as j =
     (case j ''message'' of None \<Rightarrow> Inr [] | Some (J_string s) \<Rightarrow> Inr s | Some (J_int n) \<Rightarrow> Inl (as_field_what as ''message''))"

definition malfunction :: string where
  "malfunction = ''the authentication service malfunction''"

text \<open>The handling of a reply, common to the three requests: \<open>on_ok\<close> reads the object of a reply with status 200;
  its errors are \<open>Inl (Inl jex)\<close> for an exception of the JSON library and \<open>Inl (Inr message)\<close> for an
  \<open>authentication_exception\<close>.\<close>

definition invalid_reply :: "nat \<Rightarrow> string \<Rightarrow> string" where
  "invalid_reply status jex =
     (if status = ServiceUnavailable_503 then ''authentication service is unavailable''
      else ''invalid reply from the authentication service, '' @ jex)"

definition client_reply ::
    "auth_service \<Rightarrow> (json_object \<Rightarrow> (string + string) + 'a) \<Rightarrow> string \<Rightarrow> http_reply \<Rightarrow> 'a outcome" where
  "client_reply as on_ok cannot reply =
     (case reply of
        Http_invalid_argument ex \<Rightarrow> Inl (Std_error (cannot @ '', reason is le '' @ ex))
      | Http_no_response \<Rightarrow> Inl (Std_error (cannot @ '' due to timeout or service unavailable''))
      | Http_response status (Inl jex) \<Rightarrow> Inl (Std_error (invalid_reply status jex))
      | Http_response status (Inr j) \<Rightarrow>
          if status = OK_200
          then (case on_ok j of
                  Inr x \<Rightarrow> Inr x
                | Inl (Inl jex) \<Rightarrow> Inl (Std_error (invalid_reply status jex))
                | Inl (Inr message) \<Rightarrow> Inl (Std_error message))
          else (case js_message as j of
                  Inl jex \<Rightarrow> Inl (Std_error (invalid_reply status jex))
                | Inr message \<Rightarrow> Inl (Std_error (if message \<noteq> [] then message else malfunction))))"

definition read_key :: "auth_service \<Rightarrow> json_object \<Rightarrow> (string + string) + string \<times> string" where
  "read_key as j =
     (case js_find as j ''key_type'' of
        Inl jex \<Rightarrow> Inl (Inl jex)
      | Inr type' \<Rightarrow>
          (case js_find as j ''key_data'' of
             Inl jex \<Rightarrow> Inl (Inl jex)
           | Inr data \<Rightarrow>
               if type' \<noteq> [] \<and> data \<noteq> [] \<and> type' = ''RSA'' then Inr (type', data) else Inl (Inr malfunction)))"

definition read_token :: "auth_service \<Rightarrow> json_object \<Rightarrow> (string + string) + string" where
  "read_token as j =
     (case js_find as j ''token'' of
        Inl jex \<Rightarrow> Inl (Inl jex)
      | Inr token \<Rightarrow> if token \<noteq> [] then Inr token else Inl (Inr malfunction))"

definition get_encryption_key :: "auth_service \<Rightarrow> auth_client \<Rightarrow> (string \<times> string) outcome" where
  "get_encryption_key as cl =
     client_reply as (read_key as) ''cannot obtain encryption key from the authentication service''
       (as_get as cl (ac_path cl @ ''/encryption-key'') [])"

definition verify_token :: "auth_service \<Rightarrow> auth_client \<Rightarrow> string \<Rightarrow> string outcome" where
  "verify_token as cl token_given =
     client_reply as (read_token as) ''cannot verify token by the authentication service''
       (as_get as cl (ac_path cl @ ''/verify'') [(''Authorization'', ''Bearer '' @ token_given)])"

definition verify_encrypted :: "auth_service \<Rightarrow> auth_client \<Rightarrow> string \<Rightarrow> string outcome" where
  "verify_encrypted as cl encrypted_credential =
     client_reply as (read_token as) ''cannot verify encrypted credential by the authentication service''
       (as_get as cl (ac_path cl @ ''/issue-encrypted'') [(''X-Encrypted-Credentials'', encrypted_credential)])"

subsection \<open>\<open>token_handler\<close>\<close>

text \<open>A token that \<open>jwt_decode\<close> accepts with the key has a name and an expiration time, each of which may be missing.\<close>

definition tsurugi_auth_name :: "(string option \<times> int option) option \<Rightarrow> string option" where
  "tsurugi_auth_name jwtp = Option.bind jwtp fst"

definition expiration_time :: "(string option \<times> int option) option \<Rightarrow> int option" where
  "expiration_time jwtp = Option.bind jwtp snd"

subsection \<open>\<open>url_parser\<close>\<close>

text \<open>The match of \<^verbatim>\<open>(http|https)://([^/ :]+):?([^/ ]*)(/?[^ #?]*)\x3f?([^ #]*)#?([^ ]*)\<close>.  Every group
  takes as much as it can; the last one takes the rest of a text without blanks, so the first attempt is the match.\<close>

record url =
  url_domain :: string
  url_port :: string
  url_path :: string

definition url_unset :: url where
  "url_unset = \<lparr>url_domain = [], url_port = [], url_path = []\<rparr>"

definition strip_prefix :: "string \<Rightarrow> string \<Rightarrow> string option" where
  "strip_prefix p s = (if take (length p) s = p then Some (drop (length p) s) else None)"

definition url_after_protocol :: "string \<Rightarrow> string option" where
  "url_after_protocol s =
     (case strip_prefix ''http://'' s of Some r \<Rightarrow> Some r | None \<Rightarrow> strip_prefix ''https://'' s)"

definition url_parser :: "string \<Rightarrow> url" where
  "url_parser s =
     (case url_after_protocol s of
        None \<Rightarrow> url_unset
      | Some r \<Rightarrow>
          (let in_domain = (\<lambda>ch. ch \<noteq> CHR ''/'' \<and> ch \<noteq> CHR '' '' \<and> ch \<noteq> CHR '':'');
               in_port = (\<lambda>ch. ch \<noteq> CHR ''/'' \<and> ch \<noteq> CHR '' '');
               in_path = (\<lambda>ch. ch \<noteq> CHR '' '' \<and> ch \<noteq> CHR ''#'' \<and> ch \<noteq> CHR ''?'');
               domain = takeWhile in_domain r;
               r1 = dropWhile in_domain r;
               r2 = (if r1 \<noteq> [] \<and> hd r1 = CHR '':'' then tl r1 else r1);
               port = takeWhile in_port r2;
               r3 = dropWhile in_port r2
           in if domain = [] \<or> CHR '' '' \<in> set r then url_unset
              else \<lparr>url_domain = domain, url_port = port, url_path = takeWhile in_path r3\<rparr>))"

subsection \<open>\<open>authenticator\<close>\<close>

definition MAXIMUM_USERNAME_LENGTH :: nat where
  "MAXIMUM_USERNAME_LENGTH = 1024"

definition name_char :: "char \<Rightarrow> bool" where
  "name_char ch \<longleftrightarrow> (let n = (of_char ch :: nat) in 32 \<le> n \<and> n \<le> 126 \<or> 128 \<le> n)"

definition check_username :: "string option \<Rightarrow> string option outcome" where
  "check_username name_opt =
     (case name_opt of
        None \<Rightarrow> Inr None
      | Some name \<Rightarrow>
          if name \<noteq> [] \<and> is_space (hd name) then Inl (Std_error ''invalid user name (begin with whitespace)'')
          else if name \<noteq> [] \<and> is_space (last name) then Inl (Std_error ''invalid user name (end with whitespace)'')
          else if MAXIMUM_USERNAME_LENGTH < length name then Inl (Std_error ''invalid user name (too long)'')
          else if list_all name_char name then Inr name_opt
          else Inl (Std_error ''invalid user name (includes invalid charactor)''))"

text \<open>\<open>lround\<close>\<close>

definition lround :: "rat \<Rightarrow> int" where
  "lround r = (if 0 \<le> r then \<lfloor>r + 1 / 2\<rfloor> else - \<lfloor>- r + 1 / 2\<rfloor>)"

definition illegal_name :: "string option \<Rightarrow> string" where
  "illegal_name name_opt =
     (case name_opt of Some name \<Rightarrow> ''illegal user name: '' @ name @ nl | None \<Rightarrow> ''illegal user name'' @ nl)"

text \<open>The body of the two cases that check the name in the token: \<open>True\<close> is the return, \<open>False\<close> the \<open>break\<close>.\<close>

definition check_token_name :: "(string option \<times> int option) option \<Rightarrow> console \<Rightarrow> console \<times> bool outcome" where
  "check_token_name jwtp c =
     (case check_username (tsurugi_auth_name jwtp) of
        Inl e \<Rightarrow> (c, Inl e)
      | Inr (Some name) \<Rightarrow> (c, Inr True)
      | Inr None \<Rightarrow> (cerr (illegal_name (tsurugi_auth_name jwtp)) c, Inr False))"

definition verify_credential ::
    "auth_env \<Rightarrow> auth_service \<Rightarrow> auth_client \<Rightarrow> string \<Rightarrow> credential \<Rightarrow> console \<Rightarrow> console \<times> bool outcome" where
  "verify_credential ae as cl encryption_key cred c =
     (case cred of
        Encrypted_credential ec \<Rightarrow>
          (case verify_encrypted as cl ec of
             Inl e \<Rightarrow> (c, Inl e)
           | Inr token \<Rightarrow>
               if encryption_key \<noteq> [] then check_token_name (as_jwt_decode as token encryption_key) c else (c, Inr False))
      | Remember_me_credential token \<Rightarrow>
          (case verify_token as cl token of
             Inl e \<Rightarrow> (c, Inl e)
           | Inr token' \<Rightarrow>
               (let jwtp = as_jwt_decode as token encryption_key
                in if encryption_key \<noteq> []
                      \<and> (case expiration_time jwtp of None \<Rightarrow> False | Some t \<Rightarrow> int (ae_now ae div 1000) < t)
                   then check_token_name jwtp c else (c, Inr False)))
      | No_credential \<Rightarrow> (c, Inr False))"

text \<open>The part of \<open>authenticate\<close> inside its \<open>try\<close>.\<close>

definition authenticate_with ::
    "auth_env \<Rightarrow> auth_service \<Rightarrow> auth_client \<Rightarrow> credential_handler \<Rightarrow> console \<Rightarrow> console \<times> bool outcome" where
  "authenticate_with ae as cl ch c =
     (case get_encryption_key as cl of
        Inl e \<Rightarrow> (c, Inl e)
      | Inr (key_type, key_data) \<Rightarrow>
          (let encryption_key = (if key_type = ''RSA'' then key_data else [])
           in (case auth_options ae ch of
                 Inl e \<Rightarrow> (c, Inl e)
               | Inr ch \<Rightarrow>
                   (case add_credential ae ch
                           (\<lambda>s. (s, Inr (if encryption_key \<noteq> [] then Some encryption_key else None))) () of
                      (u, Inl e) \<Rightarrow> (c, Inl e)
                    | (u, Inr cred) \<Rightarrow> verify_credential ae as cl encryption_key cred c))))"

definition authenticate ::
    "auth_env \<Rightarrow> auth_service \<Rightarrow> (string \<Rightarrow> rat outcome) \<Rightarrow> section' \<Rightarrow> console \<Rightarrow> console \<times> unit outcome" where
  "authenticate ae as get_double sec c =
     (case get_enabled ae sec of
        Inl e \<Rightarrow> (c, Inl e)
      | Inr (Some False) \<Rightarrow> (c, Inr ())
      | Inr _ \<Rightarrow>
          (case map_option get_double (sec ''request_timeout'') of
             Some (Inl e) \<Rightarrow> (c, Inl e)
           | Some (Inr request_timeout) \<Rightarrow>
               (case sec ''url'' of
                  None \<Rightarrow> (c, Inl (Tgctl_error (runtime_error reason_server ''error in config file'')))
                | Some url_text \<Rightarrow>
                    (let u = url_parser url_text
                     in (case (if url_port u = [] then Stoi_value 80 else stoi (url_port u)) of
                           Stoi_invalid_argument \<Rightarrow> (c, Inl (Std_error ''stoi''))
                         | Stoi_out_of_range \<Rightarrow> (c, Inl (Std_error ''stoi''))
                         | Stoi_value port \<Rightarrow>
                             (let cl = \<lparr>ac_host = url_domain u, ac_port = port, ac_path = url_path u,
                                        ac_timeout = lround (request_timeout * 1000)\<rparr>
                              in (case authenticate_with ae as cl credential_handler_new c of
                                    (c, Inl Null_pointer) \<Rightarrow> (c, Inl Null_pointer)
                                  | (c, Inl e) \<Rightarrow>
                                      (c, Inl (Tgctl_error (runtime_error reason_authentication_failure (exn_what e))))
                                  | (c, Inr True) \<Rightarrow> (c, Inr ())
                                  | (c, Inr False) \<Rightarrow>
                                      (c, Inl (Tgctl_error (runtime_error reason_authentication_failure
                                                              ''authentication failed'')))))) ))
           | None \<Rightarrow> (c, Inl (Tgctl_error (runtime_error reason_server ''error in config file'')))))"

section \<open>Properties\<close>

lemma check_not_more_than_one_count:
  "check_not_more_than_one ae \<longleftrightarrow>
     length (filter id [FLAGS_user ae \<noteq> [], FLAGS_auth_token ae \<noteq> [], FLAGS_credentials ae \<noteq> [], \<not> FLAGS__auth ae]) \<le> 1"
  by (simp add: check_not_more_than_one_def)

definition valid_username :: "string \<Rightarrow> bool" where
  "valid_username name \<longleftrightarrow>
     length name \<le> 1024 \<and> list_all name_char name \<and> (name \<noteq> [] \<longrightarrow> \<not> is_space (hd name) \<and> \<not> is_space (last name))"

lemma check_username_Some:
  "check_username name_opt = Inr (Some name) \<Longrightarrow> name_opt = Some name \<and> valid_username name"
  by (auto simp: check_username_def valid_username_def MAXIMUM_USERNAME_LENGTH_def split: option.splits if_splits)

lemma check_token_name_True:
  "check_token_name jwtp c = (c', Inr True) \<Longrightarrow> \<exists>name t. jwtp = Some (Some name, t) \<and> valid_username name"
  using check_username_Some
  by (fastforce simp: check_token_name_def tsurugi_auth_name_def Option.bind_eq_Some_conv split: sum.splits option.splits)

lemma get_encryption_key_RSA:
  "get_encryption_key as cl = Inr (kt, kd) \<Longrightarrow> kt = ''RSA'' \<and> kd \<noteq> []"
  by (auto simp: get_encryption_key_def client_reply_def read_key_def
      split: http_reply.splits sum.splits if_splits)

definition token_accepted :: "auth_env \<Rightarrow> auth_service \<Rightarrow> auth_client \<Rightarrow> string \<Rightarrow> int option \<Rightarrow> bool" where
  "token_accepted ae as cl token t \<longleftrightarrow>
     (\<exists>ec. verify_encrypted as cl ec = Inr token)
     \<or> (\<exists>token' e. verify_token as cl token = Inr token' \<and> t = Some e \<and> int (ae_now ae div 1000) < e)"

lemma verify_credential_True:
  assumes "verify_credential ae as cl key cred c = (c', Inr True)"
  shows "\<exists>token name t. as_jwt_decode as token key = Some (Some name, t) \<and> valid_username name \<and> token_accepted ae as cl token t"
proof (cases cred)
  case (Encrypted_credential ec)
  then obtain token where "verify_encrypted as cl ec = Inr token" "check_token_name (as_jwt_decode as token key) c = (c', Inr True)"
    using assms by (auto simp: verify_credential_def split: sum.splits if_splits)
  then show ?thesis using check_token_name_True unfolding token_accepted_def by meson
next
  case (Remember_me_credential token)
  then obtain token' e where "verify_token as cl token = Inr token'"
    and name: "check_token_name (as_jwt_decode as token key) c = (c', Inr True)"
    and "expiration_time (as_jwt_decode as token key) = Some e" "int (ae_now ae div 1000) < e"
    using assms by (auto simp: verify_credential_def Let_def split: sum.splits if_splits option.splits)
  moreover from check_token_name_True [OF name] obtain n t
    where "as_jwt_decode as token key = Some (Some n, t)" "valid_username n" by blast
  ultimately have "token_accepted ae as cl token t" "as_jwt_decode as token key = Some (Some n, t)" "valid_username n"
    unfolding token_accepted_def by (auto simp: expiration_time_def)
  then show ?thesis by blast
qed (use assms in \<open>simp add: verify_credential_def\<close>)

lemma authenticate_with_True:
  assumes "authenticate_with ae as cl ch c = (c', Inr True)"
  shows "\<exists>key token name t. get_encryption_key as cl = Inr (''RSA'', key)
    \<and> as_jwt_decode as token key = Some (Some name, t) \<and> valid_username name \<and> token_accepted ae as cl token t"
proof -
  obtain kt kd where key: "get_encryption_key as cl = Inr (kt, kd)"
    using assms by (auto simp: authenticate_with_def split: sum.splits)
  note rsa = get_encryption_key_RSA [OF key]
  then obtain cred where "verify_credential ae as cl kd cred c = (c', Inr True)"
    using assms key by (auto simp: authenticate_with_def Let_def split: sum.splits prod.splits)
  from verify_credential_True [OF this] show ?thesis using key rsa by blast
qed

text \<open>C16: \<open>authenticate\<close> lets a command go on only when authentication is switched off in the configuration, or when
  the authentication service handed out an RSA key and vouched for a token that decodes with that key to a user name of
  at most 1024 admissible characters without blanks at its ends; a token the user brought must also not have expired.\<close>

theorem authenticate_sound:
  assumes "authenticate ae as get_double sec c = (c', Inr ())"
  shows "get_enabled ae sec = Inr (Some False) \<or>
    (\<exists>cl key token name t. get_encryption_key as cl = Inr (''RSA'', key)
       \<and> as_jwt_decode as token key = Some (Some name, t) \<and> valid_username name \<and> token_accepted ae as cl token t)"
proof (cases "get_enabled ae sec = Inr (Some False)")
  case False
  then obtain cl c1 where "authenticate_with ae as cl credential_handler_new c = (c1, Inr True)"
    using assms unfolding authenticate_def Let_def
    by (auto split: sum.splits option.splits prod.splits bool.splits if_split_asm exn.splits stoi_result.splits)
  then show ?thesis using authenticate_with_True by blast
qed simp

text \<open>An administrator with a token, and a service that accepts it.\<close>

definition sample_auth_section :: section' where
  "sample_auth_section =
     [''enabled'' \<mapsto> ''true'', ''url'' \<mapsto> ''http://auth:80/api'', ''request_timeout'' \<mapsto> ''0'']"

definition sample_auth_conf :: conf_env where
  "sample_auth_conf = sample_conf_env\<lparr>ce_create := (\<lambda>p d.
     Some (sample_whole\<lparr>wh_sections := (wh_sections sample_whole)(''authentication'' \<mapsto> sample_auth_section)\<rparr>))\<rparr>"

definition sample_auth_env :: auth_env where
  "sample_auth_env =
     \<lparr>FLAGS_user = [], FLAGS_auth_token = ''tok'', FLAGS_credentials = [], FLAGS__auth = True, ae_flags_conf = ''/etc/a.ini'',
      ae_conf = sample_auth_conf, ae_get_bool = (\<lambda>v. Inr (v = ''true'')), ae_env_token = None, ae_home = None,
      ae_read_file = (\<lambda>p. None), ae_prompt = (\<lambda>m d. Inr ''secret''), ae_now = 5000, ae_json = (\<lambda>j. []),
      ae_encrypt = (\<lambda>key text'. Inr text')\<rparr>"

definition sample_service :: auth_service where
  "sample_service =
     \<lparr>as_get = (\<lambda>cl path headers.
        Http_response 200 (Inr [''key_type'' \<mapsto> J_string ''RSA'', ''key_data'' \<mapsto> J_string ''key'', ''token'' \<mapsto> J_string ''tok''])),
      as_field_what = (\<lambda>n. n), as_jwt_decode = (\<lambda>token key. Some (Some ''admin'', Some 6))\<rparr>"

lemma sample_authentication_section: "authentication_section sample_auth_env = Inr sample_auth_section"
proof -
  have id: "instance_id None ''Node-1'' = Inr ''node-1''" by code_simp
  show ?thesis
    by (simp add: authentication_section_def sample_auth_env_def create_bootstrap_configuration_def
        bootstrap_configuration_new_def select_conf_file_def sample_auth_conf_def sample_conf_env_def sample_whole_def
        get_configuration_def instance_id_setup_def id Let_def)
qed

lemma sample_authenticate:
  "authenticate sample_auth_env sample_service (\<lambda>v. Inr 0) sample_auth_section fresh_console = (fresh_console, Inr ())"
proof -
  have url: "url_parser ''http://auth:80/api'' = \<lparr>url_domain = ''auth'', url_port = ''80'', url_path = ''/api''\<rparr>"
    "stoi ''80'' = Stoi_value 80" by code_simp+
  have name: "check_username (Some ''admin'') = Inr (Some ''admin'')" by code_simp
  have key: "get_encryption_key sample_service cl = Inr (''RSA'', ''key'')" for cl
    by (simp add: get_encryption_key_def client_reply_def sample_service_def OK_200_def read_key_def js_find_def)
  have token: "verify_token sample_service cl ''tok'' = Inr ''tok''" for cl
    by (simp add: verify_token_def client_reply_def sample_service_def OK_200_def read_token_def js_find_def)
  have enabled: "get_enabled sample_auth_env sample_auth_section = Inr (Some True)"
    by (simp add: get_enabled_def sample_auth_env_def sample_auth_section_def)
  have options: "auth_options sample_auth_env ch = Inr (set_auth_token ''tok'' ch)" for ch
    unfolding auth_options_def sample_authentication_section
    by (simp add: enabled) (simp add: check_not_more_than_one_def sample_auth_env_def)
  have "authenticate_with sample_auth_env sample_service cl ch fresh_console = (fresh_console, Inr True)" for cl ch
    by (simp add: authenticate_with_def key options add_credential_def set_auth_token_def verify_credential_def token)
      (simp add: sample_service_def sample_auth_env_def expiration_time_def check_token_name_def tsurugi_auth_name_def name)
  then show ?thesis
    by (simp add: authenticate_def enabled) (simp add: sample_auth_section_def url)
qed

theorem authenticate_sound_witness:
  "\<exists>cl key token name t. get_encryption_key sample_service cl = Inr (''RSA'', key)
     \<and> as_jwt_decode sample_service token key = Some (Some name, t) \<and> valid_username name
     \<and> token_accepted sample_auth_env sample_service cl token t"
proof -
  have "get_enabled sample_auth_env sample_auth_section \<noteq> Inr (Some False)"
    by (simp add: get_enabled_def sample_auth_env_def sample_auth_section_def)
  then show ?thesis using authenticate_sound [OF sample_authenticate] by blast
qed

text \<open>The milliseconds of an expiration date are written without leading zeros, although they follow a decimal point: five
  milliseconds after the epoch is written like half a second after it.\<close>

lemma expiration_millis_not_padded:
  assumes "ae_now ae = 5"
  shows "snd (expiration ae (credential_handler_new\<lparr>ch_expiration := 0\<rparr>)) = ''1970-01-01T00:00:00.5Z''"
proof -
  have digits: "to_string 1970 = ''1970''" "to_string 0 = ''0''" "to_string 5 = ''5''" "to_string (Suc 0) = ''1''"
    by (simp_all add: to_string.simps digit_char_def char_of_def bit_0)
  have "put_time 0 = ''1970-01-01T00:00:00''"
    by (simp add: put_time_def year_and_day.simps [of 1970 0] days_of_year_def leap_year_def month_lengths_def
        two_digits_def digits)
  then show ?thesis using assms by (simp add: expiration_def Let_def digits)
qed

end
