(* ===== verification/Transport.thy ===== *)
theory Transport
  imports Client_Wire Protobuf_Utils Authentication
begin

section \<open>A session with the server\<close>

text \<open>
  \<^verbatim>\<open>src/tateyama/transport/transport.h\<close> and \<^verbatim>\<open>timer.h\<close>: opening a session (connection, handshake, credentials),
  sending a request of each service and reading its response, keeping the session alive and closing it.

  The message classes of protobuf are generated: their functions from and to bytes, and the numbers of the services, are
  the record \<open>protobuf\<close>.  The server is the function \<open>answer\<close>: what \<open>receive\<close> gives for the last request of the
  session, from all requests written so far with the index of their slot; it throws when the server is lost.  The
  state of a session is the record \<open>transport\<close>, with the console.
\<close>

subsection \<open>Messages\<close>

record fw_header =
  fh_version_major :: nat
  fh_version_minor :: nat
  fh_service_id :: nat
  fh_session_id :: nat

datatype payload_type = pt_unknown | pt_server_diagnostics | pt_service_result

record diagnostics =
  dg_code :: nat
  dg_message :: string

definition PERMISSION_ERROR :: nat where
  "PERMISSION_ERROR = 12"

definition UNSUPPORTED_OPERATION :: nat where
  "UNSUPPORTED_OPERATION = 2"

text \<open>A request class: setting its version, and its bytes.\<close>

record 'q request_class =
  rq_set_version :: "nat \<Rightarrow> nat \<Rightarrow> 'q \<Rightarrow> 'q"
  rq_serialize :: "'q \<Rightarrow> byte list"

text \<open>Requests to the endpoint and to the core service.\<close>

datatype blob_transfer_type = DOES_NOT_USE | PRIVILEGED | RELAY

datatype endpoint_command =
    Handshake (hs_credential: credential) (hs_application_name: string) (hs_connection_information: string)
      (hs_blob_transfer_media: "blob_transfer_type list")
  | EncryptionKey

record endpoint_request =
  er_version :: "nat \<times> nat"
  er_command :: endpoint_command

datatype core_command = UpdateExpirationTime

record core_request =
  cr_version :: "nat \<times> nat"
  cr_command :: core_command

text \<open>\<open>result_case()\<close> of the responses; an error has a code and a message, both at their defaults when no result is
  set.\<close>

datatype 'a result_case = kSuccess 'a | kError nat string | RESULT_NOT_SET

definition error_message :: "'a result_case \<Rightarrow> string" where
  "error_message r = (case r of kError code' message \<Rightarrow> message | _ \<Rightarrow> [])"

definition error_code :: "'a result_case \<Rightarrow> nat" where
  "error_code r = (case r of kError code' message \<Rightarrow> code' | _ \<Rightarrow> 0)"

record protobuf =
  pb_stream :: coded_stream
  pb_header :: "fw_header \<Rightarrow> byte list"
  pb_response_header :: "byte list \<Rightarrow> payload_type option"
  pb_record :: "byte list \<Rightarrow> diagnostics option"
  pb_endpoint :: "endpoint_request \<Rightarrow> byte list"
  pb_core :: "core_request \<Rightarrow> byte list"
  pb_handshake_response :: "byte list \<Rightarrow> nat result_case option"
  pb_encryption_key_response :: "byte list \<Rightarrow> string result_case option"
  pb_update_expiration_response :: "byte list \<Rightarrow> unit result_case option"
  service_id_endpoint_broker :: nat
  service_id_routing :: nat

definition HEADER_MESSAGE_VERSION :: "nat \<times> nat" where
  "HEADER_MESSAGE_VERSION = (0, 1)"

definition CORE_MESSAGE_VERSION :: "nat \<times> nat" where
  "CORE_MESSAGE_VERSION = (0, 0)"

definition DATASTORE_MESSAGE_VERSION :: "nat \<times> nat" where
  "DATASTORE_MESSAGE_VERSION = (0, 0)"

definition ENDPOINT_MESSAGE_VERSION :: "nat \<times> nat" where
  "ENDPOINT_MESSAGE_VERSION = (0, 0)"

definition SESSION_MESSAGE_VERSION :: "nat \<times> nat" where
  "SESSION_MESSAGE_VERSION = (0, 0)"

definition METRICS_MESSAGE_VERSION :: "nat \<times> nat" where
  "METRICS_MESSAGE_VERSION = (0, 0)"

definition ALTIMETER_MESSAGE_VERSION :: "nat \<times> nat" where
  "ALTIMETER_MESSAGE_VERSION = (0, 0)"

definition REQUEST_MESSAGE_VERSION :: "nat \<times> nat" where
  "REQUEST_MESSAGE_VERSION = (0, 0)"

definition SQL_MESSAGE_VERSION :: "nat \<times> nat" where
  "SQL_MESSAGE_VERSION = (1, 6)"

definition EXPIRATION_SECONDS :: nat where
  "EXPIRATION_SECONDS = 60"

subsection \<open>Sending a request\<close>

record transport = console +
  tr_header :: fw_header
  tr_session_id :: nat
  tr_closed :: bool
  tr_encrypted_credential :: string
  tr_slots :: "response_slot list"
  tr_requests :: "(nat \<times> byte list) list"

type_synonym answer = "(nat \<times> byte list) list \<Rightarrow> byte list outcome"

text \<open>\<open>search_slot\<close>, \<open>send\<close> and \<open>receive\<close>: the slot is free again when the response has been received, and stays
  taken when \<open>receive\<close> throws.\<close>

definition exchange :: "answer \<Rightarrow> byte list \<Rightarrow> transport \<Rightarrow> transport \<times> byte list outcome" where
  "exchange answer message t =
     (case search_slot (tr_slots t) of
        (slots, Inl e) \<Rightarrow> (t\<lparr>tr_slots := slots\<rparr>, Inl (Tgctl_error e))
      | (slots, Inr slot_index) \<Rightarrow>
          (let t = t\<lparr>tr_slots := slots, tr_requests := tr_requests t @ [(slot_index, message)]\<rparr>
           in (case answer (tr_requests t) of
                 Inl e \<Rightarrow> (t, Inl e)
               | Inr res_message \<Rightarrow>
                   (t\<lparr>tr_slots := slots[slot_index := sl_finish_receive (slots ! slot_index)]\<rparr>, Inr res_message))))"

definition request_message :: "protobuf \<Rightarrow> fw_header \<Rightarrow> 'q request_class \<Rightarrow> 'q \<Rightarrow> byte list option" where
  "request_message pb header rq request =
     (case SerializeDelimitedToOstream (pb_stream pb) (pb_header pb) True header [] of
        None \<Rightarrow> None
      | Some sst \<Rightarrow> SerializeDelimitedToOstream (pb_stream pb) (rq_serialize rq) True request sst)"

definition read_response :: "protobuf \<Rightarrow> byte list \<Rightarrow> (payload_type \<times> byte list) option" where
  "read_response pb res_message =
     (case fst (ParseDelimitedFromZeroCopyStream (pb_stream pb) (pb_response_header pb) res_message) of
        None \<Rightarrow> None
      | Some (header, ins) \<Rightarrow>
          (case fst (GetDelimitedBodyFromZeroCopyStream (pb_stream pb) ins) of
             None \<Rightarrow> None
           | Some (body, rest) \<Rightarrow> Some (header, body)))"

definition throw_tgctl_runtime_error :: "diagnostics \<Rightarrow> exn" where
  "throw_tgctl_runtime_error record' =
     (if dg_code record' = PERMISSION_ERROR then Tgctl_error (runtime_error reason_permission (dg_message record'))
      else Tgctl_error (runtime_error reason_unknown (dg_message record')))"

text \<open>From the response to the result of \<open>send\<close>: a service result is parsed, anything else is read as a diagnostic
  record and thrown.\<close>

definition service_response :: "protobuf \<Rightarrow> (byte list \<Rightarrow> 'r option) \<Rightarrow> byte list \<Rightarrow> 'r option outcome" where
  "service_response pb parse res_message =
     (case read_response pb res_message of
        None \<Rightarrow> Inr None
      | Some (pt_service_result, body) \<Rightarrow> Inr (parse body)
      | Some (_, body) \<Rightarrow>
          (case pb_record pb body of
             None \<Rightarrow> Inr None
           | Some record' \<Rightarrow> Inl (throw_tgctl_runtime_error record')))"

definition send_service ::
    "protobuf \<Rightarrow> answer \<Rightarrow> fw_header \<Rightarrow> nat \<times> nat \<Rightarrow> 'q request_class \<Rightarrow> (byte list \<Rightarrow> 'r option) \<Rightarrow> 'q
      \<Rightarrow> transport \<Rightarrow> transport \<times> 'r option outcome" where
  "send_service pb answer header version rq parse request t =
     (case request_message pb header rq (rq_set_version rq (fst version) (snd version) request) of
        None \<Rightarrow> (t, Inr None)
      | Some sst \<Rightarrow>
          (case exchange answer sst t of
             (t, Inl e) \<Rightarrow> (t, Inl e)
           | (t, Inr res_message) \<Rightarrow> (t, service_response pb parse res_message)))"

text \<open>The overload for the datastore does not look at the type of the payload.\<close>

definition send_datastore ::
    "protobuf \<Rightarrow> answer \<Rightarrow> 'q request_class \<Rightarrow> (byte list \<Rightarrow> 'r option) \<Rightarrow> 'q \<Rightarrow> transport
      \<Rightarrow> transport \<times> 'r option outcome" where
  "send_datastore pb answer rq parse request t =
     (let (major, minor) = DATASTORE_MESSAGE_VERSION
      in (case request_message pb (tr_header t) rq (rq_set_version rq major minor request) of
            None \<Rightarrow> (t, Inr None)
          | Some sst \<Rightarrow>
              (case exchange answer sst t of
                 (t, Inl e) \<Rightarrow> (t, Inl e)
               | (t, Inr res_message) \<Rightarrow>
                   (t, Inr (case read_response pb res_message of
                              None \<Rightarrow> None
                            | Some (header, body) \<Rightarrow> parse body)))))"

definition send_session ::
    "protobuf \<Rightarrow> answer \<Rightarrow> 'q request_class \<Rightarrow> (byte list \<Rightarrow> 'r option) \<Rightarrow> 'q \<Rightarrow> transport
      \<Rightarrow> transport \<times> 'r option outcome" where
  "send_session pb answer rq parse request t =
     send_service pb answer (tr_header t) SESSION_MESSAGE_VERSION rq parse request t"

definition framework_header :: "nat \<Rightarrow> fw_header" where
  "framework_header service_id =
     \<lparr>fh_version_major = fst HEADER_MESSAGE_VERSION, fh_version_minor = snd HEADER_MESSAGE_VERSION,
      fh_service_id = service_id, fh_session_id = 0\<rparr>"

definition endpoint_class :: "protobuf \<Rightarrow> endpoint_request request_class" where
  "endpoint_class pb = \<lparr>rq_set_version = (\<lambda>major minor r. r\<lparr>er_version := (major, minor)\<rparr>), rq_serialize = pb_endpoint pb\<rparr>"

definition send_endpoint ::
    "protobuf \<Rightarrow> answer \<Rightarrow> (byte list \<Rightarrow> 'r option) \<Rightarrow> endpoint_request \<Rightarrow> transport \<Rightarrow> transport \<times> 'r option outcome" where
  "send_endpoint pb answer parse request t =
     send_service pb answer (framework_header (service_id_endpoint_broker pb)) ENDPOINT_MESSAGE_VERSION
       (endpoint_class pb) parse request t"

definition core_class :: "protobuf \<Rightarrow> core_request request_class" where
  "core_class pb = \<lparr>rq_set_version = (\<lambda>major minor r. r\<lparr>cr_version := (major, minor)\<rparr>), rq_serialize = pb_core pb\<rparr>"

definition send_core ::
    "protobuf \<Rightarrow> answer \<Rightarrow> (byte list \<Rightarrow> 'r option) \<Rightarrow> core_request \<Rightarrow> transport \<Rightarrow> transport \<times> 'r option outcome" where
  "send_core pb answer parse request t =
     send_service pb answer (framework_header (service_id_routing pb)) CORE_MESSAGE_VERSION
       (core_class pb) parse request t"

definition send_metrics ::
    "protobuf \<Rightarrow> answer \<Rightarrow> 'q request_class \<Rightarrow> (byte list \<Rightarrow> 'r option) \<Rightarrow> 'q \<Rightarrow> transport
      \<Rightarrow> transport \<times> 'r option outcome" where
  "send_metrics pb answer rq parse request t =
     send_service pb answer (tr_header t) METRICS_MESSAGE_VERSION rq parse request t"

definition send_altimeter ::
    "protobuf \<Rightarrow> answer \<Rightarrow> 'q request_class \<Rightarrow> (byte list \<Rightarrow> 'r option) \<Rightarrow> 'q \<Rightarrow> transport
      \<Rightarrow> transport \<times> 'r option outcome" where
  "send_altimeter pb answer rq parse request t =
     send_service pb answer (tr_header t) ALTIMETER_MESSAGE_VERSION rq parse request t"

definition send_request ::
    "protobuf \<Rightarrow> answer \<Rightarrow> 'q request_class \<Rightarrow> (byte list \<Rightarrow> 'r option) \<Rightarrow> 'q \<Rightarrow> transport
      \<Rightarrow> transport \<times> 'r option outcome" where
  "send_request pb answer rq parse request t =
     send_service pb answer (tr_header t) REQUEST_MESSAGE_VERSION rq parse request t"

definition send_sql ::
    "protobuf \<Rightarrow> answer \<Rightarrow> 'q request_class \<Rightarrow> (byte list \<Rightarrow> 'r option) \<Rightarrow> 'q \<Rightarrow> transport
      \<Rightarrow> transport \<times> 'r option outcome" where
  "send_sql pb answer rq parse request t =
     send_service pb answer (tr_header t) SQL_MESSAGE_VERSION rq parse request t"

subsection \<open>Opening and closing a session\<close>

definition tr_close :: "transport \<Rightarrow> transport" where
  "tr_close t = t\<lparr>tr_closed := True\<rparr>"

definition connection_failure :: "string \<Rightarrow> exn" where
  "connection_failure message = Tgctl_error (runtime_error reason_connection_failure message)"

definition database_name :: "auth_env \<Rightarrow> bool \<Rightarrow> 'a console_scheme \<Rightarrow> 'a console_scheme \<times> string outcome" where
  "database_name ae output_error c =
     (let bst_conf = create_bootstrap_configuration (ae_conf ae) (ae_flags_conf ae)
      in if bc_valid bst_conf
         then (case snd (get_configuration (ae_conf ae) bst_conf) of
                 Inl e \<Rightarrow> (c, Inl e)
               | Inr None \<Rightarrow> (c, Inl (Tgctl_error (runtime_error reason_internal ''error in create_configuration'')))
               | Inr (Some conf) \<Rightarrow>
                   (case wh_sections conf ''ipc_endpoint'' of
                      None \<Rightarrow> (c, Inl (connection_failure ''cannot find ipc_endpoint section in the configuration''))
                    | Some endpoint_config \<Rightarrow>
                        (case endpoint_config ''database_name'' of
                           None \<Rightarrow>
                             (c, Inl (connection_failure
                                        ''cannot find database_name at the section in the configuration''))
                         | Some name \<Rightarrow> (c, Inr name))))
         else (if output_error
               then cerr (''cannot find any valid configuration file, database name has been set to brank'' @ nl) c
               else c, Inr []))"

definition tr_digest :: "auth_env \<Rightarrow> string" where
  "tr_digest ae =
     (let bst_conf = create_bootstrap_configuration (ae_conf ae) (ae_flags_conf ae)
      in if bc_valid bst_conf then bc_digest (ae_conf ae) bst_conf else [])"

definition encryption_key :: "protobuf \<Rightarrow> answer \<Rightarrow> transport \<Rightarrow> transport \<times> string result_case option outcome" where
  "encryption_key pb answer t =
     send_endpoint pb answer (pb_encryption_key_response pb) \<lparr>er_version = (0, 0), er_command = EncryptionKey\<rparr> t"

definition update_expiration_time ::
    "protobuf \<Rightarrow> answer \<Rightarrow> transport \<Rightarrow> transport \<times> unit result_case option outcome" where
  "update_expiration_time pb answer t =
     send_core pb answer (pb_update_expiration_response pb) \<lparr>cr_version = (0, 0), cr_command = UpdateExpirationTime\<rparr> t"

text \<open>The lambda \<open>handshake\<close> passes to \<open>add_credential\<close>.\<close>

definition key_func :: "protobuf \<Rightarrow> answer \<Rightarrow> transport \<Rightarrow> transport \<times> string option outcome" where
  "key_func pb answer t =
     (case encryption_key pb answer t of
        (t, Inl e) \<Rightarrow> (t, Inl e)
      | (t, Inr None) \<Rightarrow> (t, Inr None)
      | (t, Inr (Some (kSuccess key))) \<Rightarrow> (t, Inr (Some key))
      | (t, Inr (Some r)) \<Rightarrow>
          (if error_code r = UNSUPPORTED_OPERATION then cerr (''authentication of tsurugidb is off'' @ nl) t else t,
           Inr None))"

definition handshake ::
    "protobuf \<Rightarrow> answer \<Rightarrow> auth_env \<Rightarrow> nat \<Rightarrow> transport \<Rightarrow> transport \<times> nat result_case option outcome" where
  "handshake pb answer ae pid t =
     (case auth_options ae credential_handler_new of
        Inl e \<Rightarrow> (t, Inl e)
      | Inr ch \<Rightarrow>
          (case add_credential ae ch (key_func pb answer) t of
             (t, Inl e) \<Rightarrow> (t, Inl e)
           | (t, Inr cred) \<Rightarrow>
               (let t = (case cred of Encrypted_credential ec \<Rightarrow> t\<lparr>tr_encrypted_credential := ec\<rparr> | _ \<Rightarrow> t)
                in send_endpoint pb answer (pb_handshake_response pb)
                     \<lparr>er_version = (0, 0), er_command = Handshake cred ''tgctl'' (to_string pid) [DOES_NOT_USE]\<rparr> t)))"

text \<open>The initializer of \<open>wire_\<close>: from the name of the database to the wires of a new session.  \<open>None\<close>: still
  waiting for the server.\<close>

definition cq_exn :: "cq_exception \<Rightarrow> exn" where
  "cq_exn ex = (case ex of Cq_runtime_error e \<Rightarrow> Tgctl_error e | Cq_out_of_range \<Rightarrow> Std_error ''out_of_range'')"

definition open_wire ::
    "auth_env \<Rightarrow> (string \<rightharpoonup> segment) \<Rightarrow> (connection_queue \<Rightarrow> connection_queue) \<Rightarrow> 'a console_scheme
      \<Rightarrow> ('a console_scheme \<times> session_wire outcome) option" where
  "open_wire ae shm serve c =
     (case database_name ae True c of
        (c, Inl e) \<Rightarrow> Some (c, Inl e)
      | (c, Inr db_name) \<Rightarrow>
          (case connection_container shm db_name of
             Inl e \<Rightarrow> Some (c, Inl (Tgctl_error e))
           | Inr None \<Rightarrow> Some (c, Inl Null_pointer)
           | Inr (Some que) \<Rightarrow>
               (case cc_connect db_name serve que of
                  None \<Rightarrow> None
                | Some (que, Inl ex) \<Rightarrow> Some (c, Inl (cq_exn ex))
                | Some (que, Inr name) \<Rightarrow>
                    (case session_wire_container shm name of
                       Inl e \<Rightarrow> Some (c, Inl (Tgctl_error e))
                     | Inr sw \<Rightarrow> Some (c, Inr sw)))))"

text \<open>The body of the constructor.  It closes the wire for a \<open>tgctl::runtime_error\<close> only.\<close>

definition transport_new ::
    "protobuf \<Rightarrow> answer \<Rightarrow> auth_env \<Rightarrow> nat \<Rightarrow> nat \<Rightarrow> console \<Rightarrow> session_wire \<Rightarrow> transport \<times> unit outcome" where
  "transport_new pb answer ae pid type' c sw =
     (let t = \<lparr>con_out = con_out c, con_err = con_err c, con_monitor = con_monitor c,
                 tr_header = framework_header type', tr_session_id = 0, tr_closed = False, tr_encrypted_credential = [],
                 tr_slots = sw_slot_status sw, tr_requests = []\<rparr>
      in (case handshake pb answer ae pid t of
            (t, Inl (Tgctl_error ex)) \<Rightarrow> (tr_close t, Inl (Tgctl_error ex))
          | (t, Inl e) \<Rightarrow> (t, Inl e)
          | (t, Inr None) \<Rightarrow> (tr_close t, Inl (connection_failure ''handshake error''))
          | (t, Inr (Some (kSuccess session_id))) \<Rightarrow>
              (t\<lparr>tr_session_id := session_id, tr_header := (tr_header t)\<lparr>fh_session_id := session_id\<rparr>\<rparr>, Inr ())
          | (t, Inr (Some r)) \<Rightarrow>
              (tr_close t, Inl (connection_failure
                                  (if error_message r = [] then ''handshake error'' else error_message r)))))"

text \<open>The whole constructor.  \<open>session_env\<close> is what lies outside the client: the message classes, the server, the shared
  memory, what the server does to the connection queue, and the process id.\<close>

record session_env =
  se_protobuf :: protobuf
  se_answer :: answer
  se_shm :: "string \<rightharpoonup> segment"
  se_serve :: "connection_queue \<Rightarrow> connection_queue"
  se_pid :: nat

definition transport_open ::
    "session_env \<Rightarrow> auth_env \<Rightarrow> nat \<Rightarrow> console \<Rightarrow> (console \<times> transport outcome) option" where
  "transport_open se ae type' c =
     (case open_wire ae (se_shm se) (se_serve se) c of
        None \<Rightarrow> None
      | Some (c, Inl e) \<Rightarrow> Some (c, Inl e)
      | Some (c, Inr sw) \<Rightarrow>
          (case transport_new (se_protobuf se) (se_answer se) ae (se_pid se) type' c sw of
             (t, Inl e) \<Rightarrow> Some (console.truncate t, Inl e)
           | (t, Inr u) \<Rightarrow> Some (console.truncate t, Inr t)))"

text \<open>The streams are shared by the command and its session.\<close>

definition put_console :: "'b console_scheme \<Rightarrow> 'a console_scheme \<Rightarrow> 'a console_scheme" where
  "put_console c s = s\<lparr>con_out := con_out c, con_err := con_err c, con_monitor := con_monitor c\<rparr>"

definition transport_destroy :: "transport \<Rightarrow> transport" where
  "transport_destroy t = (if tr_closed t then t else tr_close t)"

subsection \<open>The timer that keeps the session alive\<close>

text \<open>What a \<open>read\<close> of the timer gives: too few bytes, or an expiration, with the stop flag as it is then.\<close>

datatype timer_event = Timer_read_short | Timer_expired (stop_flag: bool)

datatype timer_result = Timer_waiting | Timer_ended | Timer_terminates exn

text \<open>The function the thread runs.  An exception that leaves it ends the process.\<close>

fun timer_run :: "('s \<Rightarrow> 's \<times> bool outcome) \<Rightarrow> timer_event list \<Rightarrow> 's \<Rightarrow> 's \<times> timer_result" where
  "timer_run work [] s = (s, Timer_waiting)"
| "timer_run work (Timer_read_short # es) s = (s, Timer_ended)"
| "timer_run work (Timer_expired stopped # es) s =
     (if stopped then (s, Timer_ended)
      else (case work s of
              (s, Inl e) \<Rightarrow> (s, Timer_terminates e)
            | (s, Inr False) \<Rightarrow> (s, Timer_ended)
            | (s, Inr True) \<Rightarrow> timer_run work es s))"

definition keep_alive :: "protobuf \<Rightarrow> answer \<Rightarrow> transport \<Rightarrow> transport \<times> bool outcome" where
  "keep_alive pb answer t =
     (case update_expiration_time pb answer t of
        (t, Inl e) \<Rightarrow> (t, Inl e)
      | (t, Inr (Some (kSuccess u))) \<Rightarrow> (t, Inr True)
      | (t, Inr _) \<Rightarrow> (t, Inr False))"

section \<open>Lemmas\<close>

text \<open>What a request leaves as it is: the session and the monitor file.  It changes the slots, the requests written and
  what is on the console.\<close>

definition session_of :: "transport \<Rightarrow> fw_header \<times> nat \<times> bool \<times> monitor_record list option" where
  "session_of t = (tr_header t, tr_session_id t, tr_closed t, con_monitor t)"

lemma exchange_session: "exchange answer m t = (t', r) \<Longrightarrow> session_of t' = session_of t"
  by (auto simp: exchange_def session_of_def Let_def split: prod.splits sum.splits)

lemma send_service_session:
  "send_service pb answer h v rq parse q t = (t', r) \<Longrightarrow> session_of t' = session_of t"
  using exchange_session
  by (fastforce simp: send_service_def split: option.splits prod.splits sum.splits)

lemma key_func_session:
  assumes "key_func pb answer t = (t', r)"
  shows "session_of t' = session_of t"
proof -
  obtain t1 r1 where sent: "encryption_key pb answer t = (t1, r1)" by force
  then have "session_of t1 = session_of t"
    using send_service_session by (fastforce simp: encryption_key_def send_endpoint_def)
  moreover have "session_of t' = session_of t1"
    using assms sent
    by (auto simp: key_func_def session_of_def cerr_def split: sum.splits option.splits result_case.splits if_splits)
  ultimately show ?thesis by simp
qed

lemma add_credential_session:
  assumes "add_credential ae ch (key_func pb answer) t = (t', r)"
  shows "session_of t' = session_of t"
  using assms key_func_session
  by (fastforce simp: add_credential_def split: credential_type.splits prod.splits sum.splits option.splits)

lemma handshake_session:
  assumes "handshake pb answer ae pid t = (t', r)"
  shows "session_of t' = session_of t"
proof (cases "auth_options ae credential_handler_new")
  case (Inr ch)
  obtain t1 r1 where cred: "add_credential ae ch (key_func pb answer) t = (t1, r1)" by force
  note s1 = add_credential_session [OF cred]
  show ?thesis
  proof (cases r1)
    case (Inl e)
    then show ?thesis using assms Inr cred s1 by (simp add: handshake_def)
  next
    case (Inr cred')
    define t2 where "t2 = (case cred' of Encrypted_credential ec \<Rightarrow> t1\<lparr>tr_encrypted_credential := ec\<rparr> | _ \<Rightarrow> t1)"
    have "session_of t2 = session_of t1" by (simp add: t2_def session_of_def split: credential.splits)
    moreover have "session_of t' = session_of t2"
      using assms \<open>auth_options ae credential_handler_new = Inr ch\<close> cred Inr
      by (intro send_service_session) (simp add: handshake_def send_endpoint_def Let_def flip: t2_def)
    ultimately show ?thesis using s1 by simp
  qed
qed (use assms in \<open>simp add: handshake_def\<close>)

lemma send_datastore_session:
  "send_datastore pb answer rq parse q t = (t', r) \<Longrightarrow> session_of t' = session_of t"
  using exchange_session
  by (fastforce simp: send_datastore_def split: option.splits prod.splits sum.splits)

lemma database_name_monitor: "con_monitor (fst (database_name ae b c)) = con_monitor c"
  by (auto simp: database_name_def Let_def split: sum.splits option.splits)

lemma open_wire_monitor:
  assumes "open_wire ae shm serve c = Some (c', r)"
  shows "con_monitor c' = con_monitor c"
proof -
  obtain c1 r1 where n: "database_name ae True c = (c1, r1)" by force
  have "c' = c1" using assms n by (auto simp: open_wire_def split: sum.splits option.splits prod.splits)
  then show ?thesis using database_name_monitor [of ae True c] n by simp
qed

lemma transport_new_monitor:
  assumes "transport_new pb answer ae pid type' c sw = (t, r)"
  shows "con_monitor t = con_monitor c"
proof -
  define t0 where "t0 = \<lparr>con_out = con_out c, con_err = con_err c, con_monitor = con_monitor c,
     tr_header = framework_header type', tr_session_id = 0, tr_closed = False, tr_encrypted_credential = [],
     tr_slots = sw_slot_status sw, tr_requests = []\<rparr>"
  obtain t1 r1 where hs: "handshake pb answer ae pid t0 = (t1, r1)" by force
  have "con_monitor t1 = con_monitor c" using handshake_session [OF hs] by (simp add: session_of_def t0_def)
  moreover have "con_monitor t = con_monitor t1"
    using assms unfolding transport_new_def Let_def t0_def [symmetric] hs
    by (auto simp: tr_close_def split: sum.splits exn.splits option.splits result_case.splits)
  ultimately show ?thesis by simp
qed

lemma transport_open_monitor:
  assumes "transport_open se ae type' c = Some (c', r)"
  shows "con_monitor c' = con_monitor c \<and> (\<forall>t. r = Inr t \<longrightarrow> con_monitor t = con_monitor c)"
proof -
  obtain c1 q where w: "open_wire ae (se_shm se) (se_serve se) c = Some (c1, q)"
    using assms by (auto simp: transport_open_def split: option.splits)
  note m = open_wire_monitor [OF w]
  show ?thesis
  proof (cases q)
    case (Inl e)
    then show ?thesis using assms w m by (auto simp: transport_open_def)
  next
    case (Inr sw)
    obtain t u where t: "transport_new (se_protobuf se) (se_answer se) ae (se_pid se) type' c1 sw = (t, u)" by force
    then show ?thesis
      using assms w Inr m transport_new_monitor [OF t]
      by (auto simp: transport_open_def console.truncate_def split: sum.splits)
  qed
qed

text \<open>A server that reads requests and writes responses in the same framing, and answers with \<open>handler\<close>.\<close>

definition rpc_server ::
    "coded_stream \<Rightarrow> (byte list \<Rightarrow> fw_header option) \<Rightarrow> (byte list \<Rightarrow> 'q option) \<Rightarrow> (payload_type \<Rightarrow> byte list)
      \<Rightarrow> (fw_header \<Rightarrow> 'q \<Rightarrow> payload_type \<times> byte list) \<Rightarrow> answer" where
  "rpc_server cs parse_header parse_request write_header handler requests =
     (let lost = Inl (Tgctl_error (runtime_error reason_connection_timeout []))
      in case fst (ParseDelimitedFromZeroCopyStream cs parse_header (snd (last requests))) of
           None \<Rightarrow> lost
         | Some (header, ins) \<Rightarrow>
             (case fst (ParseDelimitedFromZeroCopyStream cs parse_request ins) of
                None \<Rightarrow> lost
              | Some (request, rest) \<Rightarrow>
                  (let (ty, body) = handler header request
                   in case SerializeDelimitedToOstream cs write_header True ty [] of
                        None \<Rightarrow> lost
                      | Some sst \<Rightarrow>
                          (case PutDelimitedBodyToOstream cs True body sst of None \<Rightarrow> lost | Some res \<Rightarrow> Inr res))))"

text \<open>The client and the server agree on the messages of the call.\<close>

definition same_messages ::
    "protobuf \<Rightarrow> 'q request_class \<Rightarrow> (byte list \<Rightarrow> fw_header option) \<Rightarrow> (byte list \<Rightarrow> 'q option)
      \<Rightarrow> (payload_type \<Rightarrow> byte list) \<Rightarrow> fw_header \<Rightarrow> 'q \<Rightarrow> payload_type \<Rightarrow> bool" where
  "same_messages pb rq parse_header parse_request write_header h q ty \<longleftrightarrow>
     varint_codec (pb_stream pb)
     \<and> parse_header (pb_header pb h) = Some h \<and> parse_request (rq_serialize rq q) = Some q
     \<and> pb_response_header pb (write_header ty) = Some ty"

lemma frame_read:
  assumes "varint_codec cs" "SerializeDelimitedToOstream cs serialize good m output = Some output'" "parse (serialize m) = Some m"
  obtains bytes where "output' = output @ bytes"
    "\<And>rest. ParseDelimitedFromZeroCopyStream cs parse (bytes @ rest) = (Some (m, rest), False)"
  using varint_codec.parse_serialized [OF assms(1,2), of parse] assms(3) by blast

text \<open>What the server makes of a message.\<close>

lemma rpc_server_answer:
  assumes agree: "same_messages pb rq parse_header parse_request write_header h q ty"
    and message: "request_message pb h rq q = Some m"
    and framed: "SerializeDelimitedToOstream (pb_stream pb) write_header True (fst (handler h q)) [] = Some sst"
      "PutDelimitedBodyToOstream (pb_stream pb) True (snd (handler h q)) sst = Some res"
  shows "rpc_server (pb_stream pb) parse_header parse_request write_header handler (reqs @ [(k, m)]) = Inr res"
proof -
  let ?cs = "pb_stream pb"
  have codec: "varint_codec ?cs" and parse: "parse_header (pb_header pb h) = Some h" "parse_request (rq_serialize rq q) = Some q"
    using agree by (auto simp: same_messages_def)
  obtain m1 where m1: "SerializeDelimitedToOstream ?cs (pb_header pb) True h [] = Some m1"
    and m: "SerializeDelimitedToOstream ?cs (rq_serialize rq) True q m1 = Some m"
    using message by (auto simp: request_message_def split: option.splits)
  obtain b1 where b1: "m1 = [] @ b1"
    "\<And>rest. ParseDelimitedFromZeroCopyStream ?cs parse_header (b1 @ rest) = (Some (h, rest), False)"
    using frame_read [OF codec m1, of parse_header] parse(1) by blast
  obtain b2 where b2: "m = m1 @ b2"
    "\<And>rest. ParseDelimitedFromZeroCopyStream ?cs parse_request (b2 @ rest) = (Some (q, rest), False)"
    using frame_read [OF codec m, of parse_request] parse(2) by blast
  have "ParseDelimitedFromZeroCopyStream ?cs parse_request b2 = (Some (q, []), False)" using b2(2) [of "[]"] by simp
  then show ?thesis using b1 b2(1) framed by (simp add: rpc_server_def split_beta)
qed

lemma read_response_framed:
  assumes agree: "same_messages pb rq parse_header parse_request write_header h q ty" and "body \<noteq> []"
    and framed: "SerializeDelimitedToOstream (pb_stream pb) write_header True ty [] = Some sst"
      "PutDelimitedBodyToOstream (pb_stream pb) True body sst = Some res"
  shows "read_response pb res = Some (ty, body)"
proof -
  let ?cs = "pb_stream pb"
  have codec: "varint_codec ?cs" and parse: "pb_response_header pb (write_header ty) = Some ty"
    using agree by (auto simp: same_messages_def)
  obtain b1 where b1: "sst = [] @ b1"
    "\<And>rest. ParseDelimitedFromZeroCopyStream ?cs (pb_response_header pb) (b1 @ rest) = (Some (ty, rest), False)"
    using frame_read [OF codec framed(1), of "pb_response_header pb"] parse by blast
  obtain b2 where b2: "res = sst @ b2"
    "\<And>rest. GetDelimitedBodyFromZeroCopyStream ?cs (b2 @ rest) = (if body = [] then None else Some (body, rest), False)"
    using varint_codec.body_put [OF codec framed(2)] by blast
  have "GetDelimitedBodyFromZeroCopyStream ?cs b2 = (Some (body, []), False)" using b2(2) [of "[]"] \<open>body \<noteq> []\<close> by simp
  then show ?thesis using b1 b2(1) by (simp add: read_response_def)
qed

text \<open>A slot is free: the request goes out with its index, and the slot is free again after the response.\<close>

lemma search_slot_from_free:
  "\<exists>s \<in> set ss. \<not> sl_in_use s \<Longrightarrow> \<exists>ss' k. search_slot_from i ss = Some (ss', k)"
  by (induction i ss rule: search_slot_from.induct) (fastforce simp: sl_test_and_set_in_use_def split: bool.splits)+

lemma exchange_answered:
  assumes free: "\<exists>s \<in> set (tr_slots t). \<not> sl_in_use s" and "\<And>k. answer (tr_requests t @ [(k, m)]) = Inr res"
  shows "\<exists>k. exchange answer m t =
    (t\<lparr>tr_slots := (tr_slots t)[k := slot_new], tr_requests := tr_requests t @ [(k, m)]\<rparr>, Inr res)
    \<and> k < length (tr_slots t) \<and> \<not> sl_in_use (tr_slots t ! k)"
proof -
  obtain ss' k where search: "search_slot (tr_slots t) = (ss', Inr k)"
    using search_slot_from_free [OF free, of 0] by (auto simp: search_slot_def)
  note slot = search_slot_Inr [OF search]
  show ?thesis
    by (intro exI [of _ k]) (simp add: exchange_def search assms(2) slot sl_finish_receive_def)
qed

lemma send_service_rpc:
  assumes agree: "same_messages pb rq parse_header parse_request write_header h (rq_set_version rq (fst v) (snd v) q) ty"
    and free: "\<exists>s \<in> set (tr_slots t). \<not> sl_in_use s"
    and message: "request_message pb h rq (rq_set_version rq (fst v) (snd v) q) = Some m"
    and framed: "SerializeDelimitedToOstream (pb_stream pb) write_header True ty [] = Some sst"
      "PutDelimitedBodyToOstream (pb_stream pb) True body sst = Some res"
    and handler: "handler h (rq_set_version rq (fst v) (snd v) q) = (ty, body)" and body: "body \<noteq> []"
  shows "snd (send_service pb (rpc_server (pb_stream pb) parse_header parse_request write_header handler) h v rq parse q t) =
    (if ty = pt_service_result then Inr (parse body)
     else case pb_record pb body of None \<Rightarrow> Inr None | Some d \<Rightarrow> Inl (throw_tgctl_runtime_error d))"
proof -
  let ?srv = "rpc_server (pb_stream pb) parse_header parse_request write_header handler"
  have "?srv (tr_requests t @ [(k, m)]) = Inr res" for k
    using rpc_server_answer [OF agree message] framed handler by simp
  from exchange_answered [of t ?srv, OF free this]
  obtain t' where "exchange ?srv m t = (t', Inr res)" by blast
  moreover have "read_response pb res = Some (ty, body)" using read_response_framed [OF agree body framed] .
  ultimately show ?thesis by (simp add: send_service_def message service_response_def split: payload_type.splits)
qed

section \<open>Properties\<close>



text \<open>The function the timer runs does not catch: a diagnostic answer to the request that extends the session, or the loss of
  the server, leaves the thread as an exception and ends the process.\<close>

lemma timer_terminates_on_error:
  assumes "snd (update_expiration_time pb answer t) = Inl e"
  shows "snd (timer_run (keep_alive pb answer) (Timer_expired False # es) t) = Timer_terminates e"
  using assms by (auto simp: keep_alive_def split: prod.splits)

text \<open>A session of a client whose request is the number 7; the server answers with a permission error.\<close>

definition sample_protobuf :: protobuf where
  "sample_protobuf =
     \<lparr>pb_stream = standard_varint, pb_header = (\<lambda>h. [word_of_nat (fh_session_id h)]),
      pb_response_header = (\<lambda>b. Some (if b = [2] then pt_service_result else pt_server_diagnostics)),
      pb_record = (\<lambda>b. Some \<lparr>dg_code = 12, dg_message = ''denied''\<rparr>),
      pb_endpoint = (\<lambda>q. [1]), pb_core = (\<lambda>q. [2]), pb_handshake_response = (\<lambda>b. Some (kSuccess 5)),
      pb_encryption_key_response = (\<lambda>b. None), pb_update_expiration_response = (\<lambda>b. None),
      service_id_endpoint_broker = 1, service_id_routing = 0\<rparr>"

definition sample_class :: "byte request_class" where
  "sample_class = \<lparr>rq_set_version = (\<lambda>major minor q. q), rq_serialize = (\<lambda>q. [q])\<rparr>"

definition sample_transport :: transport where
  "sample_transport =
     \<lparr>con_out = [], con_err = [], con_monitor = None, tr_header = (framework_header 9)\<lparr>fh_session_id := 5\<rparr>,
      tr_session_id = 5, tr_closed = False, tr_encrypted_credential = [],
      tr_slots = replicate slot_size slot_new, tr_requests = []\<rparr>"

lemma varint_bytes_one: "varint_bytes (Suc 0) = [1]"
  by (subst varint_bytes.simps) simp

lemma read_varint_one: "read_varint32 standard_varint (1 # bs) = Inr (Suc 0, bs)"
  using std_varint.read_write [of "Suc 0" bs] varint_bytes_one by (simp add: standard_varint_def)


lemma sample_handshake:
  "\<exists>t. transport_new sample_protobuf (\<lambda>reqs. Inr [1, 2, 1, 3]) sample_auth_env 7 9 fresh_console
       \<lparr>sw_db_name = [], sw_request_wire = w, sw_response_wire = w', sw_status_provider = [],
        sw_slot_status = replicate slot_size slot_new\<rparr> = (t, Inr ())"
proof -
  have enabled: "get_enabled sample_auth_env sample_auth_section = Inr (Some True)"
    by (simp add: get_enabled_def sample_auth_env_def sample_auth_section_def)
  have options: "auth_options sample_auth_env ch = Inr (set_auth_token ''tok'' ch)" for ch
    unfolding auth_options_def sample_authentication_section
    by (simp add: enabled) (simp add: check_not_more_than_one_def sample_auth_env_def)
  have read: "read_response sample_protobuf [1, 2, 1, 3] = Some (pt_service_result, [3])"
    by (simp add: read_response_def sample_protobuf_def delimited_defs read_varint_one INT_MAX_def)
  have sent: "\<exists>m. request_message sample_protobuf h (endpoint_class sample_protobuf) q = Some m" for h q
    by (simp add: request_message_def sample_protobuf_def endpoint_class_def delimited_defs standard_varint_def
        INT_MAX_def varint_bytes_one)
  have "\<exists>t'. send_endpoint sample_protobuf (\<lambda>reqs. Inr [1, 2, 1, 3]) (pb_handshake_response sample_protobuf) q t
      = (t', Inr (Some (kSuccess 5)))" if "tr_slots t = replicate slot_size slot_new" for q t
  proof -
    have "\<exists>s \<in> set (tr_slots t). \<not> sl_in_use s" using that by (simp add: slot_size_def slot_new_def)
    from exchange_answered [OF this, of "\<lambda>reqs. Inr [1, 2, 1, 3]"]
    have "\<exists>t'. exchange (\<lambda>reqs. Inr [1, 2, 1, 3]) m t = (t', Inr [1, 2, 1, 3])" for m by blast
    moreover obtain m where "request_message sample_protobuf (framework_header (service_id_endpoint_broker sample_protobuf))
        (endpoint_class sample_protobuf) (rq_set_version (endpoint_class sample_protobuf)
          (fst ENDPOINT_MESSAGE_VERSION) (snd ENDPOINT_MESSAGE_VERSION) q) = Some m"
      using sent by blast
    moreover have "pb_handshake_response sample_protobuf [3] = Some (kSuccess 5)" by (simp add: sample_protobuf_def)
    ultimately obtain t' where "exchange (\<lambda>reqs. Inr [1, 2, 1, 3]) m t = (t', Inr [1, 2, 1, 3])"
      "request_message sample_protobuf (framework_header (service_id_endpoint_broker sample_protobuf))
        (endpoint_class sample_protobuf) (rq_set_version (endpoint_class sample_protobuf)
          (fst ENDPOINT_MESSAGE_VERSION) (snd ENDPOINT_MESSAGE_VERSION) q) = Some m"
      "pb_handshake_response sample_protobuf [3] = Some (kSuccess 5)" by blast
    then show ?thesis by (simp add: send_endpoint_def send_service_def service_response_def read)
  qed
  then have "\<exists>t'. handshake sample_protobuf (\<lambda>reqs. Inr [1, 2, 1, 3]) sample_auth_env 7 t = (t', Inr (Some (kSuccess 5)))"
    if "tr_slots t = replicate slot_size slot_new" for t
    using that by (simp add: handshake_def options add_credential_def set_auth_token_def Let_def)
  from this [of "\<lparr>con_out = con_out fresh_console, con_err = con_err fresh_console, con_monitor = con_monitor fresh_console,
       tr_header = framework_header 9, tr_session_id = 0, tr_closed = False, tr_encrypted_credential = [],
       tr_slots = replicate slot_size slot_new, tr_requests = []\<rparr>"]
  show ?thesis by (auto simp: transport_new_def)
qed


end
