(* ===== verification/Credentials.thy ===== *)
theory Credentials
  imports Transport
begin

section \<open>\<^verbatim>\<open>tgctl credentials\<close>\<close>

text \<open>
  \<open>authenticator::credentials\<close> of \<^verbatim>\<open>src/tateyama/authentication/authenticator.cpp\<close>: opening a session with the user's
  password and writing the encrypted credential the session used to a file.  The files are a map from paths to contents.
  A result \<open>None\<close>: the command still waits for the server.
\<close>

record cred_env =
  FLAGS_expiration :: int
  FLAGS_overwrite :: bool
  FLAGS__overwrite :: bool
  cd_auth :: auth_env
  cd_writable :: "path \<Rightarrow> bool"
  cd_is_directory :: "path \<Rightarrow> bool"
  cd_is_regular_file :: "path \<Rightarrow> bool"
  cd_permissions :: "path \<Rightarrow> unit outcome"

record cred_state = console +
  cd_files :: "path \<rightharpoonup> string"
  cd_handler :: credential_handler

definition MAX_EXPIRATION :: int where
  "MAX_EXPIRATION = 365"

definition cred_fail :: "string \<Rightarrow> cred_state \<Rightarrow> cred_state \<times> return_code outcome" where
  "cred_fail message s = (cerr (message @ nl) s, Inr rc_err)"

definition quoted :: "path \<Rightarrow> string" where
  "quoted p = [CHR 0x27] @ p @ [CHR 0x27]"

text \<open>The part inside the \<open>try\<close>, after the session has been opened: \<open>ec\<close> is never set, so \<open>permissions\<close> either
  returns or throws.\<close>

definition write_credentials :: "cred_env \<Rightarrow> path \<Rightarrow> transport \<Rightarrow> cred_state \<Rightarrow> cred_state \<times> return_code outcome" where
  "write_credentials cd path t s =
     (if tr_encrypted_credential t = [] then cred_fail ''cannot obtain encrypted credential'' s
      else if \<not> cd_writable cd path then cred_fail (''cannot open '' @ quoted path) s
      else
        (let d = ch_expiration_date_string (cd_handler s);
             s = s\<lparr>cd_files := (cd_files s)(path \<mapsto> tr_encrypted_credential t @ nl @ (if d = [] then [] else d @ nl))\<rparr>
         in (case cd_permissions cd path of
               Inl e \<Rightarrow> (s, Inl e)
             | Inr u \<Rightarrow> (s, Inr rc_ok))))"

text \<open>The handler of \<open>std::runtime_error\<close>; a null pointer is not an exception.\<close>

definition catch_runtime_error :: "cred_state \<times> return_code outcome \<Rightarrow> cred_state \<times> return_code outcome" where
  "catch_runtime_error r =
     (case r of
        (s, Inl Null_pointer) \<Rightarrow> (s, Inl Null_pointer)
      | (s, Inl e) \<Rightarrow> cred_fail (''cannot establish session with the user and the password: '' @ exn_what e) s
      | _ \<Rightarrow> r)"

text \<open>The message of the first check that fails.\<close>

definition credentials_refused :: "cred_env \<Rightarrow> path \<Rightarrow> cred_state \<Rightarrow> string option" where
  "credentials_refused cd path s =
     (if FLAGS_expiration cd < 0 \<or> MAX_EXPIRATION < FLAGS_expiration cd
      then Some ''--expiration should be greater then or equal to 0 and less than or equal to 365''
      else if FLAGS_credentials (cd_auth cd) \<noteq> []
      then Some ''--credentials option is invalid for credentials subcommand''
      else if FLAGS_auth_token (cd_auth cd) \<noteq> []
      then Some ''--auth_token option is invalid for credentials subcommand''
      else if \<not> FLAGS__overwrite cd \<and> FLAGS_overwrite cd
      then Some ''both --overwrite and --no-overwrite are specified''
      else if \<not> (FLAGS_overwrite cd \<and> FLAGS__overwrite cd) \<and> cd_files s path \<noteq> None
      then Some (''file '' @ quoted path @ '' already exists'')
      else None)"

definition open_session :: "session_env \<Rightarrow> cred_env \<Rightarrow> string \<Rightarrow> cred_state \<Rightarrow> (console \<times> transport outcome) option" where
  "open_session se cd user s =
     transport_open se ((cd_auth cd)\<lparr>FLAGS_user := user\<rparr>) (service_id_routing (se_protobuf se)) (console.truncate s)"

definition credentials_session ::
    "session_env \<Rightarrow> cred_env \<Rightarrow> path \<Rightarrow> string \<Rightarrow> cred_state \<Rightarrow> (cred_state \<times> return_code outcome) option" where
  "credentials_session se cd path user s =
     (let s' = s\<lparr>cd_handler := set_expiration (FLAGS_expiration cd) (cd_handler s)\<rparr>
      in map_option catch_runtime_error
           (case open_session se cd user s of
              None \<Rightarrow> None
            | Some (c, Inl e) \<Rightarrow> Some (put_console c s', Inl e)
            | Some (c, Inr t) \<Rightarrow> Some (write_credentials cd path t (put_console c s'))))"

definition credentials_path ::
    "session_env \<Rightarrow> cred_env \<Rightarrow> path \<Rightarrow> cred_state \<Rightarrow> (cred_state \<times> return_code outcome) option" where
  "credentials_path se cd path s =
     (case credentials_refused cd path s of
        Some message \<Rightarrow> Some (cred_fail message s)
      | None \<Rightarrow>
          (case (if FLAGS_user (cd_auth cd) = [] then ae_prompt (cd_auth cd) ''user: '' True
                 else Inr (FLAGS_user (cd_auth cd))) of
             Inl e \<Rightarrow> Some (s, Inl e)
           | Inr user \<Rightarrow> credentials_session se cd path user s))"

text \<open>\<open>cp.parent_path()\<close> of the default path is the directory under \<open>HOME\<close>.\<close>

definition credentials_default ::
    "session_env \<Rightarrow> cred_env \<Rightarrow> (path \<Rightarrow> bool) \<Rightarrow> cred_state \<Rightarrow> (cred_state \<times> return_code outcome) option" where
  "credentials_default se cd dir_exists s =
     (case ae_home (cd_auth cd) of
        None \<Rightarrow> Some (cred_fail ''the environment variable HOME is not defined'' s)
      | Some name \<Rightarrow>
          (let parent = path_append name ''.tsurugidb''
           in if dir_exists parent \<and> \<not> cd_is_directory cd parent
              then Some (cred_fail (quoted parent @ '' is not a directory'') s)
              else credentials_path se cd (path_append parent ''credentials.key'') s))"

definition credentials_file ::
    "session_env \<Rightarrow> cred_env \<Rightarrow> string \<Rightarrow> cred_state \<Rightarrow> (cred_state \<times> return_code outcome) option" where
  "credentials_file se cd file_name s =
     (if cd_files s file_name \<noteq> None \<and> \<not> cd_is_regular_file cd file_name
      then Some (cred_fail (quoted file_name @ '' is not a regular file'') s)
      else credentials_path se cd file_name s)"

section \<open>Lemmas\<close>

lemmas cred_state_simps = cred_fail_def cerr_def put_console_def

lemma write_credentials_files:
  assumes "write_credentials cd path t s = (s', r)"
  shows "r = Inr rc_ok \<Longrightarrow> tr_encrypted_credential t \<noteq> [] \<and>
      cd_files s' = (cd_files s)(path \<mapsto> tr_encrypted_credential t @ nl
        @ (if ch_expiration_date_string (cd_handler s) = [] then [] else ch_expiration_date_string (cd_handler s) @ nl))"
    and "\<And>p. p \<noteq> path \<Longrightarrow> cd_files s' p = cd_files s p"
  using assms by (auto simp: write_credentials_def cred_state_simps Let_def split: if_splits sum.splits)

lemma catch_runtime_error_ok:
  "catch_runtime_error x = (s', Inr rc_ok) \<Longrightarrow> x = (s', Inr rc_ok)"
  by (auto simp: catch_runtime_error_def cred_fail_def split: prod.splits sum.splits exn.splits)

lemma catch_runtime_error_files: "cd_files (fst (catch_runtime_error x)) = cd_files (fst x)"
  by (auto simp: catch_runtime_error_def cred_state_simps split: prod.splits sum.splits exn.splits)

section \<open>Properties\<close>

text \<open>The cases of a run that gets past the checks of the options.\<close>

lemma credentials_session_files:
  assumes "credentials_session se cd path user s = Some (s', r)"
  shows "cd_files s' = cd_files s \<and> r \<noteq> Inr rc_ok \<or>
    (\<exists>c t s1. open_session se cd user s = Some (c, Inr t) \<and> cd_files s1 = cd_files s
       \<and> (s', r) = catch_runtime_error (write_credentials cd path t s1))"
proof -
  let ?s = "s\<lparr>cd_handler := set_expiration (FLAGS_expiration cd) (cd_handler s)\<rparr>"
  have files: "cd_files (put_console c ?s) = cd_files s" for c :: console by (simp add: put_console_def)
  obtain c q where opened: "open_session se cd user s = Some (c, q)"
    using assms by (cases "open_session se cd user s") (auto simp: credentials_session_def Let_def)
  show ?thesis
  proof (cases q)
    case (Inl e)
    then have r: "catch_runtime_error (put_console c ?s, Inl e) = (s', r)"
      using assms opened by (simp add: credentials_session_def Let_def)
    then have "cd_files s' = cd_files s"
      using files [of c] catch_runtime_error_files [of "(put_console c ?s, Inl e)"] by simp
    moreover have "r \<noteq> Inr rc_ok" using catch_runtime_error_ok [of "(put_console c ?s, Inl e)" s'] r by auto
    ultimately show ?thesis by blast
  next
    case (Inr t)
    then have "(s', r) = catch_runtime_error (write_credentials cd path t (put_console c ?s))"
      using assms opened by (simp add: credentials_session_def Let_def)
    then show ?thesis using opened Inr files by blast
  qed
qed

lemma credentials_path_files:
  assumes "credentials_path se cd path s = Some (s', r)"
  shows "cd_files s' = cd_files s \<and> r \<noteq> Inr rc_ok \<or>
    (cd_files s path = None \<or> FLAGS_overwrite cd \<and> FLAGS__overwrite cd)
      \<and> (\<exists>user c t s1. open_session se cd user s = Some (c, Inr t) \<and> cd_files s1 = cd_files s
           \<and> (s', r) = catch_runtime_error (write_credentials cd path t s1))"
proof (cases "credentials_refused cd path s")
  case None
  then have "cd_files s path = None \<or> FLAGS_overwrite cd \<and> FLAGS__overwrite cd"
    by (auto simp: credentials_refused_def split: if_splits)
  then show ?thesis
    using assms None credentials_session_files unfolding credentials_path_def by (fastforce split: sum.splits)
next
  case (Some message)
  then show ?thesis using assms by (auto simp: credentials_path_def cred_state_simps)
qed

section \<open>Properties\<close>

text \<open>C30: \<^verbatim>\<open>tgctl credentials\<close> changes no file but the one it was asked for, and not even that one when it exists and
  \<^verbatim>\<open>--overwrite\<close> is not given; when the command succeeds, a session was opened and the first line of the file is the
  encrypted credential it was opened with.\<close>

theorem credentials_writes_credential:
  assumes run: "credentials_path se cd path s = Some (s', r)"
  shows "(\<forall>p. p \<noteq> path \<longrightarrow> cd_files s' p = cd_files s p)
    \<and> (cd_files s path \<noteq> None \<longrightarrow> \<not> (FLAGS_overwrite cd \<and> FLAGS__overwrite cd) \<longrightarrow> cd_files s' = cd_files s)
    \<and> (r = Inr rc_ok \<longrightarrow>
         (\<exists>user c t rest. open_session se cd user s = Some (c, Inr t) \<and> tr_encrypted_credential t \<noteq> []
            \<and> cd_files s' path = Some (tr_encrypted_credential t @ nl @ rest)))"
  using credentials_path_files [OF run]
proof
  assume write_case: "(cd_files s path = None \<or> FLAGS_overwrite cd \<and> FLAGS__overwrite cd)
      \<and> (\<exists>user c t s1. open_session se cd user s = Some (c, Inr t) \<and> cd_files s1 = cd_files s
           \<and> (s', r) = catch_runtime_error (write_credentials cd path t s1))"
  then obtain user c t s1 where opened: "open_session se cd user s = Some (c, Inr t)" and s1: "cd_files s1 = cd_files s"
    and r: "(s', r) = catch_runtime_error (write_credentials cd path t s1)" by blast
  obtain s2 r2 where w: "write_credentials cd path t s1 = (s2, r2)" by force
  note W = write_credentials_files [OF w]
  have "cd_files s' = cd_files s2" using catch_runtime_error_files [of "(s2, r2)"] r w by (metis fst_conv)
  moreover have "s' = s2 \<and> r2 = Inr rc_ok" if "r = Inr rc_ok"
    using catch_runtime_error_ok [of "(s2, r2)" s'] r w that by auto
  ultimately show ?thesis using W s1 opened write_case by auto
qed simp

text \<open>The option \<^verbatim>\<open>--expiration\<close> of \<^verbatim>\<open>tgctl credentials\<close> has no effect beyond the check of its range: it is set on
  the handler of the command, while the credential is made by the handler of the session, which keeps its default.\<close>

theorem credentials_ignores_expiration:
  assumes "0 \<le> FLAGS_expiration cd" "FLAGS_expiration cd \<le> 365" "0 \<le> e" "e \<le> 365"
  shows "map_option (\<lambda>(s, r). (cd_files s, r)) (credentials_path se (cd\<lparr>FLAGS_expiration := e\<rparr>) path s)
    = map_option (\<lambda>(s, r). (cd_files s, r)) (credentials_path se cd path s)"
proof -
  have same: "(case catch_runtime_error x of (s, r) \<Rightarrow> (cd_files s, r)) = (case catch_runtime_error y of (s, r) \<Rightarrow> (cd_files s, r))"
    if "cd_files (fst x) = cd_files (fst y)" "snd x = snd y" for x y
    using that by (auto simp: catch_runtime_error_def cred_state_simps split: prod.splits sum.splits exn.splits)
  have written: "cd_files (fst (write_credentials (cd\<lparr>FLAGS_expiration := e\<rparr>) path t (put_console c (s\<lparr>cd_handler := set_expiration e (cd_handler s)\<rparr>))))
      = cd_files (fst (write_credentials cd path t (put_console c (s\<lparr>cd_handler := set_expiration e' (cd_handler s)\<rparr>))))"
    "snd (write_credentials (cd\<lparr>FLAGS_expiration := e\<rparr>) path t (put_console c (s\<lparr>cd_handler := set_expiration e (cd_handler s)\<rparr>)))
      = snd (write_credentials cd path t (put_console c (s\<lparr>cd_handler := set_expiration e' (cd_handler s)\<rparr>)))" for t e' and c :: console
    by (auto simp: write_credentials_def cred_state_simps set_expiration_def Let_def split: sum.splits)
  have "credentials_refused (cd\<lparr>FLAGS_expiration := e\<rparr>) path s = credentials_refused cd path s"
    using assms by (simp add: credentials_refused_def MAX_EXPIRATION_def)
  moreover have "open_session se (cd\<lparr>FLAGS_expiration := e\<rparr>) user s = open_session se cd user s" for user
    by (simp add: open_session_def)
  moreover have "cd_files (put_console c (s\<lparr>cd_handler := h\<rparr>)) = cd_files s" for h and c :: console
    by (simp add: put_console_def)
  ultimately show ?thesis
    unfolding credentials_path_def credentials_session_def Let_def
    by (auto simp: option.map_comp comp_def split: sum.splits option.splits intro!: same written)
qed

text \<open>A file that exists and no \<^verbatim>\<open>--overwrite\<close>.\<close>

definition sample_cred_env :: cred_env where
  "sample_cred_env =
     \<lparr>FLAGS_expiration = 90, FLAGS_overwrite = False, FLAGS__overwrite = True,
      cd_auth = sample_auth_env\<lparr>FLAGS_auth_token := [], FLAGS_user := ''admin''\<rparr>, cd_writable = (\<lambda>p. True),
      cd_is_directory = (\<lambda>p. False), cd_is_regular_file = (\<lambda>p. True), cd_permissions = (\<lambda>p. Inr ())\<rparr>"

definition sample_cred_state :: cred_state where
  "sample_cred_state =
     \<lparr>con_out = [], con_err = [], con_monitor = None, cd_files = [''a.key'' \<mapsto> ''old''], cd_handler = credential_handler_new\<rparr>"

definition sample_session_env :: session_env where
  "sample_session_env =
     \<lparr>se_protobuf = sample_protobuf, se_answer = (\<lambda>reqs. Inr [1, 2, 1, 3]), se_shm = Map.empty, se_serve = (\<lambda>q. q), se_pid = 7\<rparr>"

theorem credentials_writes_credential_witness:
  "\<exists>s'. credentials_path sample_session_env sample_cred_env ''a.key'' sample_cred_state = Some (s', Inr rc_err)
     \<and> cd_files s' = cd_files sample_cred_state"
proof -
  obtain s' where run: "credentials_path sample_session_env sample_cred_env ''a.key'' sample_cred_state = Some (s', Inr rc_err)"
    by (simp add: credentials_path_def credentials_refused_def sample_cred_env_def sample_cred_state_def MAX_EXPIRATION_def
        sample_auth_env_def cred_fail_def)
  moreover have "cd_files sample_cred_state ''a.key'' \<noteq> None" "\<not> (FLAGS_overwrite sample_cred_env \<and> FLAGS__overwrite sample_cred_env)"
    by (simp_all add: sample_cred_state_def sample_cred_env_def)
  ultimately show ?thesis using credentials_writes_credential [OF run] by blast
qed

theorem credentials_ignores_expiration_witness:
  "map_option (\<lambda>(s, r). (cd_files s, r)) (credentials_path sample_session_env (sample_cred_env\<lparr>FLAGS_expiration := 1\<rparr>) ''b.key'' sample_cred_state)
    = map_option (\<lambda>(s, r). (cd_files s, r)) (credentials_path sample_session_env sample_cred_env ''b.key'' sample_cred_state)"
  by (rule credentials_ignores_expiration) (simp_all add: sample_cred_env_def)

end
