(* ===== verification/Service_Command.thy ===== *)
theory Service_Command
  imports Transport
begin

section \<open>Commands that call a service of the server\<close>

text \<open>
  What the commands of \<^verbatim>\<open>src/tateyama/session\<close>, \<^verbatim>\<open>request\<close>, \<^verbatim>\<open>metrics\<close> and \<^verbatim>\<open>datastore\<close> have in common: opening the monitor
  file, opening a session, sending a request, using the response, and ending the monitor file with the reason.  The commands
  themselves are in the theories that import this one.  A result \<open>None\<close>: the command still waits for the server.
\<close>

record cmd_env =
  cm_session :: session_env
  cm_auth :: auth_env
  cm_monitor :: string
  cm_quiet :: bool

type_synonym command_result = "(console \<times> return_code outcome) option"

definition with_transport ::
    "cmd_env \<Rightarrow> nat \<Rightarrow> (transport \<Rightarrow> transport \<times> 'r outcome) \<Rightarrow> console \<Rightarrow> (console \<times> 'r outcome) option" where
  "with_transport ce service_id body c =
     (case transport_open (cm_session ce) (cm_auth ce) service_id c of
        None \<Rightarrow> None
      | Some (c, Inl e) \<Rightarrow> Some (c, Inl e)
      | Some (c, Inr t) \<Rightarrow> (case body t of (t, r) \<Rightarrow> Some (console.truncate t, r)))"

text \<open>The two kinds of handler for a \<open>tgctl::runtime_error\<close>; other exceptions pass.  The second one asks for the name of
  the database, which may throw again.\<close>

definition report_error :: "exn \<Rightarrow> console \<Rightarrow> console \<times> return_code outcome" where
  "report_error e c =
     (case e of
        Tgctl_error ex \<Rightarrow> (finish (code ex) (cerr (error_line (code ex) (what ex)) c), Inr rc_err)
      | _ \<Rightarrow> (c, Inl e))"

definition report_no_connection :: "auth_env \<Rightarrow> exn \<Rightarrow> console \<Rightarrow> console \<times> return_code outcome" where
  "report_no_connection ae e c =
     (case e of
        Tgctl_error ex \<Rightarrow>
          (case database_name ae False c of
             (c, Inl e') \<Rightarrow> (c, Inl e')
           | (c, Inr name) \<Rightarrow>
               (finish (code ex)
                  (cerr (''could not connect to database with name '' @ [CHR 0x27] @ name @ [CHR 0x27] @ nl) c),
                Inr rc_err))
      | _ \<Rightarrow> (c, Inl e))"

text \<open>The use of a response ends in success or with the reason of a failure.\<close>

type_synonym 'r consumer = "'r \<Rightarrow> console \<Rightarrow> console \<times> (reason + unit) outcome"

definition conclude ::
    "(exn \<Rightarrow> console \<Rightarrow> console \<times> return_code outcome) \<Rightarrow> console \<times> (reason + unit) outcome
      \<Rightarrow> console \<times> return_code outcome" where
  "conclude handler res =
     (case res of
        (c, Inl e) \<Rightarrow> handler e c
      | (c, Inr (Inl reason)) \<Rightarrow> (finish reason c, Inr rc_err)
      | (c, Inr (Inr u)) \<Rightarrow> (finish reason_absent c, Inr rc_ok))"

definition service_command ::
    "cmd_env \<Rightarrow> nat \<Rightarrow> (exn \<Rightarrow> console \<Rightarrow> console \<times> return_code outcome) \<Rightarrow> (transport \<Rightarrow> transport \<times> 'r outcome)
      \<Rightarrow> 'r consumer \<Rightarrow> console \<Rightarrow> command_result" where
  "service_command ce service_id handler call consume c =
     map_option
       (\<lambda>(c, r). conclude handler (case r of Inl e \<Rightarrow> (c, Inl e) | Inr x \<Rightarrow> consume x c))
       (with_transport ce service_id call (open_monitor (cm_monitor ce \<noteq> []) c))"

text \<open>The \<open>switch\<close> on \<open>result_case()\<close> of most commands.\<close>

definition on_result_case :: "string \<Rightarrow> ('a \<Rightarrow> console \<Rightarrow> console \<times> unit outcome) \<Rightarrow> 'a result_case option consumer" where
  "on_result_case name use response_opt c =
     (case response_opt of
        None \<Rightarrow> (c, Inr (Inl reason_payload_broken))
      | Some (kSuccess x) \<Rightarrow> (case use x c of (c, Inl e) \<Rightarrow> (c, Inl e) | (c, Inr u) \<Rightarrow> (c, Inr (Inr u)))
      | Some (kError code' message) \<Rightarrow> (cerr (name @ '' error: '' @ message @ nl) c, Inr (Inl reason_server))
      | Some RESULT_NOT_SET \<Rightarrow> (cerr (name @ '' result_case() error: '' @ nl) c, Inr (Inl reason_payload_broken)))"

text \<open>\<open>std::setw\<close> with \<open>std::left\<close> and \<open>std::right\<close>.\<close>

definition setw_left :: "nat \<Rightarrow> string \<Rightarrow> string" where
  "setw_left n s = s @ replicate (n - length s) (CHR '' '')"

definition setw_right :: "nat \<Rightarrow> string \<Rightarrow> string" where
  "setw_right n s = replicate (n - length s) (CHR '' '') @ s"

section \<open>The monitor file of a service command\<close>

definition logs_data :: "('r \<Rightarrow> console \<Rightarrow> console \<times> 'x) \<Rightarrow> bool" where
  "logs_data f \<longleftrightarrow> (\<forall>x c. open_log c \<longrightarrow> open_log (fst (f x c)))"

lemma logs_dataD: "logs_data f \<Longrightarrow> open_log c \<Longrightarrow> f x c = (c', r) \<Longrightarrow> open_log c'"
  unfolding logs_data_def by (metis fst_conv)

definition keeps_monitor :: "(transport \<Rightarrow> transport \<times> 'r outcome) \<Rightarrow> bool" where
  "keeps_monitor call \<longleftrightarrow> (\<forall>t t' r. call t = (t', r) \<longrightarrow> con_monitor t' = con_monitor t)"

lemma with_transport_monitor:
  assumes "with_transport ce sid call c = Some (c', r)" "keeps_monitor call"
  shows "con_monitor c' = con_monitor c"
proof -
  obtain c1 q where o: "transport_open (cm_session ce) (cm_auth ce) sid c = Some (c1, q)"
    using assms(1) by (auto simp: with_transport_def split: option.splits)
  note m = transport_open_monitor [OF o]
  show ?thesis
  proof (cases q)
    case (Inl e)
    then show ?thesis using assms(1) o m by (simp add: with_transport_def)
  next
    case (Inr t)
    obtain t' r' where t': "call t = (t', r')" by force
    have "con_monitor t' = con_monitor t" using assms(2) t' unfolding keeps_monitor_def by blast
    then show ?thesis using assms(1) o Inr t' m by (auto simp: with_transport_def console.truncate_def)
  qed
qed

lemma send_keeps_monitor:
  "keeps_monitor (send_session pb answer rq parse q)" "keeps_monitor (send_metrics pb answer rq parse q)"
  "keeps_monitor (send_request pb answer rq parse q)" "keeps_monitor (send_sql pb answer rq parse q)"
  "keeps_monitor (send_datastore pb answer rq parse q)"
  unfolding keeps_monitor_def send_session_def send_metrics_def send_request_def send_sql_def
  by (auto dest!: send_service_session send_datastore_session simp: session_of_def)

text \<open>What a handler of exceptions owes to the commands that use it: a return code comes with a complete log.  What a command
  makes of it is proved once for all handlers.\<close>

locale exception_handler =
  fixes handler :: "exn \<Rightarrow> console \<Rightarrow> console \<times> return_code outcome"
  assumes ends_log: "open_log c \<Longrightarrow> handler e c = (c', Inr rc) \<Longrightarrow> rc = rc_err \<and> (\<exists>reason. finished_log reason c')"
begin

lemma conclude_logs:
  assumes "open_log c" "conclude handler (c, res) = (c', Inr rc)"
  shows "\<exists>reason. finished_log reason c' \<and> (rc = rc_ok \<longrightarrow> reason = reason_absent)"
proof (cases res)
  case (Inl e)
  then have "handler e c = (c', Inr rc)" using assms(2) by (simp add: conclude_def)
  from ends_log [OF assms(1) this] show ?thesis by auto
next
  case (Inr q)
  define reason where "reason = (case q of Inl reason \<Rightarrow> reason | Inr u \<Rightarrow> reason_absent)"
  have "c' = finish reason c" "rc = rc_ok \<Longrightarrow> reason = reason_absent"
    using Inr assms(2) by (cases q; simp add: conclude_def reason_def)+
  then show ?thesis using open_log_finish [OF assms(1), of reason] by auto
qed

lemma concluded_ok:
  assumes "open_log c" "conclude handler (c, res) = (c', Inr rc_ok)"
  shows "res = Inr (Inr ()) \<and> c' = finish reason_absent c"
proof (cases res)
  case (Inl e)
  then have "handler e c = (c', Inr rc_ok)" using assms(2) by (simp add: conclude_def)
  from ends_log [OF assms(1) this] show ?thesis by simp
next
  case (Inr q)
  then show ?thesis using assms(2) by (cases q) (simp_all add: conclude_def)
qed

lemma service_command_logs:
  assumes "keeps_monitor call" "logs_data consume"
    and "service_command ce sid handler call consume c = Some (c', Inr rc)"
  shows "\<exists>reason. finished_log reason c' \<and> (rc = rc_ok \<longrightarrow> reason = reason_absent)"
proof -
  let ?c = "open_monitor (cm_monitor ce \<noteq> []) c"
  obtain c1 r1 where w: "with_transport ce sid call ?c = Some (c1, r1)"
    using assms(3) by (auto simp: service_command_def)
  have log: "open_log c1"
    using with_transport_monitor [OF w assms(1)] open_log_cong [of c1 ?c] by simp
  define res where "res = (case r1 of Inl e \<Rightarrow> (c1, Inl e) | Inr x \<Rightarrow> consume x c1)"
  obtain c2 r2 where res: "res = (c2, r2)" by force
  have log2: "open_log c2"
    using res log logs_dataD [OF assms(2) log] by (auto simp: res_def split: sum.splits)
  have "conclude handler res = (c', Inr rc)"
    using assms(3) unfolding service_command_def w res_def by simp
  then show ?thesis using conclude_logs [OF log2] res by simp
qed

end

interpretation reported: exception_handler report_error
  by unfold_locales (auto simp: report_error_def intro!: exI open_log_finish split: exn.splits)

lemma report_no_connection_finishes:
  assumes "open_log c" "report_no_connection ae e c = (c', Inr rc)"
  shows "rc = rc_err \<and> (\<exists>reason. finished_log reason c')"
proof -
  obtain c1 q where n: "database_name ae False c = (c1, q)" by force
  have "open_log c1" using database_name_monitor [of ae False c] n open_log_cong [of c c1] assms(1) by simp
  then have "finished_log r (finish r (cerr m c1))" for r m by (intro open_log_finish) simp
  then show ?thesis
    using assms(2) n by (auto simp: report_no_connection_def simp del: append.simps split: exn.splits sum.splits)
qed

interpretation unconnected: exception_handler "report_no_connection ae" for ae
  by unfold_locales (rule report_no_connection_finishes)

lemma on_result_case_logs:
  assumes "logs_data use"
  shows "logs_data (on_result_case name use)"
  unfolding logs_data_def
proof (intro allI impI)
  fix x :: "'a result_case option" and c :: console
  assume c: "open_log c"
  have "open_log c'" if "use y c = (c', r)" for y c' r using logs_dataD [OF assms c that] .
  then show "open_log (fst (on_result_case name use x c))"
    using c by (auto simp: on_result_case_def split: option.splits result_case.splits prod.splits sum.splits)
qed

section \<open>A client without a server\<close>

text \<open>There is no configuration file and no server: the witnesses of the commands run here.\<close>

definition offline_auth_env :: auth_env where
  "offline_auth_env = sample_auth_env\<lparr>ae_conf := (ae_conf sample_auth_env)\<lparr>ce_exists := (\<lambda>p. False)\<rparr>\<rparr>"

definition offline_cmd_env :: cmd_env where
  "offline_cmd_env =
     \<lparr>cm_session = \<lparr>se_protobuf = sample_protobuf, se_answer = (\<lambda>reqs. Inr []), se_shm = Map.empty, se_serve = (\<lambda>q. q), se_pid = 7\<rparr>,
      cm_auth = offline_auth_env, cm_monitor = ''m.log'', cm_quiet = False\<rparr>"

lemma offline_database_name: "\<exists>c'. database_name offline_auth_env b c = (c', Inr [])"
proof -
  have "\<not> bc_valid (create_bootstrap_configuration (ae_conf offline_auth_env) (ae_flags_conf offline_auth_env))"
    by (simp add: offline_auth_env_def sample_auth_env_def create_bootstrap_configuration_def bootstrap_configuration_new_def
        select_conf_file_def invalid_bootstrap_configuration_def)
  then show ?thesis by (simp add: database_name_def)
qed

lemma offline_with_transport:
  "\<exists>c' ex. with_transport offline_cmd_env service_id call c = Some (c', Inl (Tgctl_error ex))"
proof -
  obtain c' where "database_name offline_auth_env True c = (c', Inr [])" using offline_database_name by blast
  then show ?thesis
    by (simp add: with_transport_def transport_open_def open_wire_def offline_cmd_env_def connection_container_def)
qed

lemma offline_report: "\<exists>c'. report_no_connection offline_auth_env (Tgctl_error ex) c = (c', Inr rc_err)"
  using offline_database_name [of False c] by (auto simp: report_no_connection_def)

section \<open>A client with a server\<close>

text \<open>A server that accepts the connection and answers every request with the same service result.\<close>

definition online_auth_env :: auth_env where
  "online_auth_env = sample_auth_env\<lparr>ae_conf := (ae_conf sample_auth_env)\<lparr>ce_create := (\<lambda>p d.
     Some (sample_whole\<lparr>wh_sections := (wh_sections sample_whole)(''authentication'' \<mapsto> Map.empty,
        ''ipc_endpoint'' \<mapsto> [''database_name'' \<mapsto> ''db''])\<rparr>))\<rparr>\<rparr>"

definition online_segment :: segment where
  "online_segment =
     \<lparr>sg_request_wire = Some sample_message_wire, sg_response_wire = Some sample_response_wire, sg_status_provider = Some [],
      sg_connection_queue = Some (connection_queue_new 1 1)\<rparr>"

definition online_cmd_env :: cmd_env where
  "online_cmd_env =
     \<lparr>cm_session = \<lparr>se_protobuf = sample_protobuf, se_answer = (\<lambda>reqs. Inr [1, 2, 1, 3]), se_shm = (\<lambda>name. Some online_segment),
        se_serve = (\<lambda>q. fst (cq_accept q (cq_slot q) 9)), se_pid = 7\<rparr>,
      cm_auth = online_auth_env, cm_monitor = ''m.log'', cm_quiet = False\<rparr>"

lemma online_configuration:
  "\<exists>whole. bc_valid (create_bootstrap_configuration (ae_conf online_auth_env) (ae_flags_conf online_auth_env))
    \<and> snd (get_configuration (ae_conf online_auth_env)
         (create_bootstrap_configuration (ae_conf online_auth_env) (ae_flags_conf online_auth_env))) = Inr (Some whole)
    \<and> wh_sections whole ''authentication'' = Some Map.empty \<and> wh_sections whole ''ipc_endpoint'' = Some [''database_name'' \<mapsto> ''db'']"
proof -
  have id: "instance_id None ''Node-1'' = Inr ''node-1''" by code_simp
  show ?thesis
    by (simp add: online_auth_env_def sample_auth_env_def create_bootstrap_configuration_def
        bootstrap_configuration_new_def select_conf_file_def sample_auth_conf_def sample_conf_env_def sample_whole_def
        get_configuration_def instance_id_setup_def id Let_def)
qed

lemma online_connect:
  "\<exists>que. cc_connect ''db'' (\<lambda>q. fst (cq_accept q (cq_slot q) 9)) (connection_queue_new 1 1) = Some (que, Inr (session_name ''db'' 9))"
  by (simp add: cc_connect_def connection_queue_new_def cq_request_admin_def iq_try_pop_admin_def iq_fill_def index_queue_new_def
      iq_index_def iq_push_def cq_slot_def iq_front_def cq_accept_def cq_entry_def cq_set_entry_def cq_wait_def iq_pop_def
      set_admin_def reset_admin_def u64_add_def el_wait_def el_accept_def el_notify_def element_new_def
      session_id_indicating_error_def Let_def)

lemma replicate_update: "(replicate n x)[k := x] = replicate n x"
  by (induction n arbitrary: k) (auto split: nat.splits)

text \<open>Any request of this client is answered, and its slot is free again.\<close>

lemma online_response: "read_response sample_protobuf [1, 2, 1, 3] = Some (pt_service_result, [3])"
  by (simp add: read_response_def sample_protobuf_def delimited_defs read_varint_one INT_MAX_def)

lemma online_exchange:
  assumes "tr_slots t = replicate slot_size slot_new"
  shows "\<exists>k. exchange (\<lambda>reqs. Inr [1, 2, 1, 3]) m t = (t\<lparr>tr_requests := tr_requests t @ [(k, m)]\<rparr>, Inr [1, 2, 1, 3])"
proof -
  have "\<exists>s \<in> set (tr_slots t). \<not> sl_in_use s" using assms by (simp add: slot_size_def slot_new_def)
  then obtain k where "exchange (\<lambda>reqs. Inr [1, 2, 1, 3]) m t =
      (t\<lparr>tr_slots := (tr_slots t)[k := slot_new], tr_requests := tr_requests t @ [(k, m)]\<rparr>, Inr [1, 2, 1, 3])"
    using exchange_answered [of t "\<lambda>reqs. Inr [1, 2, 1, 3]" m] by blast
  moreover have "(tr_slots t)[k := slot_new] = tr_slots t" by (simp add: assms replicate_update)
  ultimately show ?thesis by (intro exI [of _ k]) simp
qed

lemma online_message:
  assumes "length (rq_serialize rq q) = 1"
  shows "\<exists>m. request_message sample_protobuf h rq q = Some m"
  using assms by (simp add: request_message_def sample_protobuf_def delimited_defs standard_varint_def INT_MAX_def)

lemma online_send_service:
  assumes "tr_slots t = replicate slot_size slot_new" "\<And>q. length (rq_serialize rq q) = 1"
  shows "\<exists>k m. send_service sample_protobuf (\<lambda>reqs. Inr [1, 2, 1, 3]) h v rq parse q t
    = (t\<lparr>tr_requests := tr_requests t @ [(k, m)]\<rparr>, Inr (parse [3]))"
proof -
  obtain m where m: "request_message sample_protobuf h rq (rq_set_version rq (fst v) (snd v) q) = Some m"
    using online_message [of rq "rq_set_version rq (fst v) (snd v) q" h] assms(2) by auto
  obtain k where "exchange (\<lambda>reqs. Inr [1, 2, 1, 3]) m t = (t\<lparr>tr_requests := tr_requests t @ [(k, m)]\<rparr>, Inr [1, 2, 1, 3])"
    using online_exchange [OF assms(1), of m] by blast
  then show ?thesis by (intro exI [of _ k] exI [of _ m]) (simp add: send_service_def m service_response_def online_response)
qed

lemma online_handshake:
  assumes "tr_slots t = replicate slot_size slot_new"
  shows "\<exists>k m. handshake sample_protobuf (\<lambda>reqs. Inr [1, 2, 1, 3]) online_auth_env 7 t =
    (t\<lparr>tr_requests := tr_requests t @ [(k, m)]\<rparr>, Inr (Some (kSuccess 5)))"
proof -
  have "authentication_section online_auth_env = Inr Map.empty"
    using online_configuration by (auto simp: authentication_section_def)
  then have options: "auth_options online_auth_env ch = Inr (set_disabled ch)" for ch
    by (simp add: auth_options_def get_enabled_def)
  have "length (rq_serialize (endpoint_class sample_protobuf) q) = 1" for q
    by (simp add: endpoint_class_def sample_protobuf_def)
  moreover have "pb_handshake_response sample_protobuf [3] = Some (kSuccess 5)" by (simp add: sample_protobuf_def)
  ultimately show ?thesis
    using online_send_service [OF assms, of "endpoint_class sample_protobuf" _ _ "pb_handshake_response sample_protobuf"]
    by (simp add: handshake_def options add_credential_def set_disabled_def Let_def send_endpoint_def)
qed

lemma online_open:
  "\<exists>c1 t. transport_open (cm_session online_cmd_env) (cm_auth online_cmd_env) service_id c = Some (c1, Inr t)
    \<and> tr_slots t = replicate slot_size slot_new \<and> con_monitor t = con_monitor c"
proof -
  have "database_name online_auth_env True c = (c, Inr ''db'')"
    using online_configuration by (auto simp: database_name_def Let_def)
  moreover obtain que where "cc_connect ''db'' (\<lambda>q. fst (cq_accept q (cq_slot q) 9)) (connection_queue_new 1 1)
      = Some (que, Inr (session_name ''db'' 9))" using online_connect by blast
  ultimately obtain sw where w: "open_wire online_auth_env (\<lambda>name. Some online_segment) (\<lambda>q. fst (cq_accept q (cq_slot q) 9)) c = Some (c, Inr sw)"
    and sw: "sw_slot_status sw = replicate slot_size slot_new"
    by (auto simp: open_wire_def connection_container_def session_wire_container_def online_segment_def)
  define t0 where "t0 = \<lparr>con_out = con_out c, con_err = con_err c, con_monitor = con_monitor c,
     tr_header = framework_header service_id, tr_session_id = 0, tr_closed = False, tr_encrypted_credential = [],
     tr_slots = sw_slot_status sw, tr_requests = []\<rparr>"
  obtain k m where "handshake sample_protobuf (\<lambda>reqs. Inr [1, 2, 1, 3]) online_auth_env 7 t0 =
      (t0\<lparr>tr_requests := tr_requests t0 @ [(k, m)]\<rparr>, Inr (Some (kSuccess 5)))"
    using online_handshake [of t0] sw by (auto simp: t0_def)
  then show ?thesis
    by (simp add: transport_open_def online_cmd_env_def w transport_new_def Let_def flip: t0_def) (simp add: t0_def sw)
qed

end
