(* ===== verification/Session_Commands.thy ===== *)
theory Session_Commands
  imports Service_Command "HOL-Library.Multiset"
begin

section \<open>\<^verbatim>\<open>tgctl session\<close>\<close>

text \<open>
  \<^verbatim>\<open>src/tateyama/session/session.cpp\<close>: listing the sessions of the server, showing one, shutting one down and setting a
  variable of one.  The classes of the messages are the fields of \<open>session_pb\<close>.
\<close>

record session_info =
  si_session_id :: string
  si_label :: string
  si_application :: string
  si_user :: string
  si_start_at :: nat
  si_connection_type :: string
  si_connection_info :: string

datatype session_shutdown_type = SESSION_SHUTDOWN_TYPE_NOT_SET | SESSION_GRACEFUL | SESSION_FORCEFUL

datatype session_command =
    SessionList
  | SessionGet string
  | SessionShutdown string session_shutdown_type
  | SessionSetVariable string string "string option"

record session_request =
  sr_version :: "nat \<times> nat"
  sr_command :: session_command

record session_pb =
  sb_serialize :: "session_request \<Rightarrow> byte list"
  sb_list :: "byte list \<Rightarrow> session_info list result_case option"
  sb_get :: "byte list \<Rightarrow> session_info result_case option"
  sb_shutdown :: "byte list \<Rightarrow> unit result_case option"
  sb_set_variable :: "byte list \<Rightarrow> unit result_case option"
  service_id_session :: nat

record session_flags =
  FLAGS_verbose :: bool
  FLAGS_id :: bool
  FLAGS_session_graceful :: bool
  FLAGS_session_forceful :: bool

definition session_class :: "session_pb \<Rightarrow> session_request request_class" where
  "session_class sb =
     \<lparr>rq_set_version = (\<lambda>major minor r. r\<lparr>sr_version := (major, minor)\<rparr>), rq_serialize = sb_serialize sb\<rparr>"

definition send_session_command ::
    "cmd_env \<Rightarrow> session_pb \<Rightarrow> (byte list \<Rightarrow> 'r option) \<Rightarrow> session_command \<Rightarrow> transport \<Rightarrow> transport \<times> 'r option outcome" where
  "send_session_command ce sb parse command =
     send_session (se_protobuf (cm_session ce)) (se_answer (cm_session ce)) (session_class sb) parse
       \<lparr>sr_version = (0, 0), sr_command = command\<rparr>"

definition to_timepoint_string :: "nat \<Rightarrow> string" where
  "to_timepoint_string msu = put_time (msu div 1000) @ ''Z''"

definition session_info_record :: "session_info \<Rightarrow> monitor_record" where
  "session_info_record e =
     M_session_info (si_session_id e) (si_label e) (si_application e) (si_user e)
       (to_timepoint_string (si_start_at e)) (si_connection_type e) (si_connection_info e)"

subsection \<open>The list\<close>

text \<open>\<open>stol(e_session_id.substr(1))\<close>, converted to \<open>std::size_t\<close>.  \<open>substr\<close> throws for an empty text.\<close>

definition stol :: "string \<Rightarrow> int outcome" where
  "stol s =
     (let t = dropWhile is_space s;
          negative = (t \<noteq> [] \<and> hd t = CHR ''-'');
          u = (if t \<noteq> [] \<and> (hd t = CHR ''-'' \<or> hd t = CHR ''+'') then tl t else t);
          ds = takeWhile is_digit u;
          v = (if negative then - int (digits_value ds) else int (digits_value ds))
      in if ds = [] \<or> v < - (2 ^ 63) \<or> 2 ^ 63 - 1 < v then Inl (Std_error ''stol'') else Inr v)"

definition session_number :: "string \<Rightarrow> nat outcome" where
  "session_number session_id =
     (if session_id = [] then Inl (Std_error ''basic_string::substr'')
      else (case stol (tl session_id) of Inl e \<Rightarrow> Inl e | Inr v \<Rightarrow> Inr (nat (v mod 2 ^ 64))))"

text \<open>\<open>std::map::emplace\<close> on a map from numbers to lines, kept in the order of its keys.\<close>

definition emplace :: "nat \<Rightarrow> string \<Rightarrow> (nat \<times> string) list \<Rightarrow> (nat \<times> string) list" where
  "emplace k v m = (if k \<in> fst ` set m then m else insort_key fst (k, v) m)"

type_synonym widths = "nat \<times> nat \<times> nat \<times> nat \<times> nat \<times> nat \<times> nat"

definition column_widths :: "session_info list \<Rightarrow> widths" where
  "column_widths es =
     (let w = (\<lambda>start f. fold (\<lambda>e m. max m (length (f e))) es start)
      in (w 2 si_session_id + 2, w 5 si_label + 2, w 11 si_application + 2, w 4 si_user + 2,
          w 5 (\<lambda>e. to_timepoint_string (si_start_at e)) + 2, w 4 si_connection_type + 2, w 6 si_connection_info))"

definition verbose_line :: "widths \<Rightarrow> string \<Rightarrow> string \<Rightarrow> string \<Rightarrow> string \<Rightarrow> string \<Rightarrow> string \<Rightarrow> string \<Rightarrow> string" where
  "verbose_line = (\<lambda>(id_max, label_max, application_max, user_max, start_max, type_max, remote_max)
       session_id label application user start type' remote.
     setw_left id_max session_id @ setw_left label_max label @ setw_left application_max application
     @ setw_left user_max user @ setw_left start_max start @ setw_left type_max type' @ setw_left remote_max remote)"

definition entry_line :: "session_flags \<Rightarrow> string multiset \<Rightarrow> widths \<Rightarrow> session_info \<Rightarrow> string" where
  "entry_line fl labels ws e =
     (if FLAGS_verbose fl
      then verbose_line ws (si_session_id e) (si_label e) (si_application e) (si_user e)
             (to_timepoint_string (si_start_at e)) (si_connection_type e) (si_connection_info e)
      else (if si_label e = [] \<or> CHR '' '' \<in> set (si_label e) \<or> CHR 0x09 \<in> set (si_label e) \<or> FLAGS_id fl
               \<or> 1 < count labels (si_label e)
            then si_session_id e else si_label e) @ '' '')"

definition label_multiset :: "session_info list \<Rightarrow> string multiset" where
  "label_multiset es = mset (filter (\<lambda>l. l \<noteq> []) (map si_label es))"

fun list_entries ::
    "session_flags \<Rightarrow> string multiset \<Rightarrow> widths \<Rightarrow> session_info list \<Rightarrow> (nat \<times> string) list \<Rightarrow> console
      \<Rightarrow> console \<times> (nat \<times> string) list outcome" where
  "list_entries fl labels ws [] lines c = (c, Inr lines)"
| "list_entries fl labels ws (e # es) lines c =
     (case session_number (si_session_id e) of
        Inl ex \<Rightarrow> (c, Inl ex)
      | Inr n \<Rightarrow>
          list_entries fl labels ws es (emplace n (entry_line fl labels ws e) lines)
            (monitor_put (session_info_record e) c))"

definition show_list :: "session_flags \<Rightarrow> session_info list \<Rightarrow> console \<Rightarrow> console \<times> unit outcome" where
  "show_list fl es c =
     (let ws = column_widths es;
          c = (if FLAGS_verbose fl
               then cout (verbose_line ws ''id'' ''label'' ''application'' ''user'' ''start'' ''type'' ''remote'' @ nl) c
               else c)
      in (case list_entries fl (label_multiset es) ws es [] c of
            (c, Inl ex) \<Rightarrow> (c, Inl ex)
          | (c, Inr lines) \<Rightarrow> (cout (concat (map (\<lambda>(k, line). line @ nl) lines)) c, Inr ())))"

definition session_list :: "cmd_env \<Rightarrow> session_pb \<Rightarrow> session_flags \<Rightarrow> console \<Rightarrow> command_result" where
  "session_list ce sb fl c =
     service_command ce (service_id_session sb) report_error (send_session_command ce sb (sb_list sb) SessionList)
       (on_result_case ''SessionList'' (show_list fl)) c"

subsection \<open>The other commands\<close>

definition show_entry :: "session_info \<Rightarrow> console \<Rightarrow> console \<times> unit outcome" where
  "show_entry e c =
     (let row = (\<lambda>name value'. setw_left 13 name @ value' @ nl)
      in (monitor_put (session_info_record e)
            (cout (row ''id'' (si_session_id e) @ row ''application'' (si_application e) @ row ''label'' (si_label e)
                   @ row ''user'' (si_user e) @ row ''start'' (to_timepoint_string (si_start_at e))
                   @ row ''type'' (si_connection_type e) @ row ''remote'' (si_connection_info e)) c),
          Inr ()))"

definition session_show :: "cmd_env \<Rightarrow> session_pb \<Rightarrow> string \<Rightarrow> console \<Rightarrow> command_result" where
  "session_show ce sb session_ref c =
     service_command ce (service_id_session sb) report_error
       (send_session_command ce sb (sb_get sb) (SessionGet session_ref))
       (on_result_case ''SessionShow'' show_entry) c"

definition no_output :: "'a \<Rightarrow> console \<Rightarrow> console \<times> unit outcome" where
  "no_output x c = (c, Inr ())"

definition session_shutdown :: "cmd_env \<Rightarrow> session_pb \<Rightarrow> session_flags \<Rightarrow> string \<Rightarrow> console \<Rightarrow> command_result" where
  "session_shutdown ce sb fl session_ref c =
     (if FLAGS_session_graceful fl \<and> FLAGS_session_forceful fl
      then Some (finish reason_absent
                   (cerr (''both forceful and graceful options specified'' @ nl) (open_monitor (cm_monitor ce \<noteq> []) c)),
                 Inr rc_err)
      else service_command ce (service_id_session sb) report_error
             (send_session_command ce sb (sb_shutdown sb)
                (SessionShutdown session_ref
                   (if FLAGS_session_graceful fl then SESSION_GRACEFUL
                    else if FLAGS_session_forceful fl then SESSION_FORCEFUL
                    else SESSION_SHUTDOWN_TYPE_NOT_SET)))
             (on_result_case ''SessionShutdown'' no_output) c)"

definition session_swtch ::
    "cmd_env \<Rightarrow> session_pb \<Rightarrow> string \<Rightarrow> string \<Rightarrow> string \<Rightarrow> bool \<Rightarrow> console \<Rightarrow> command_result" where
  "session_swtch ce sb session_ref set_key set_value set' c =
     service_command ce (service_id_session sb) report_error
       (send_session_command ce sb (sb_set_variable sb)
          (SessionSetVariable session_ref set_key (if set' then Some set_value else None)))
       (on_result_case ''SessionSetVariable'' no_output) c"

section \<open>Lemmas\<close>

lemma send_session_command_monitor: "keeps_monitor (send_session_command ce sb parse command)"
  unfolding send_session_command_def by (rule send_keeps_monitor)

lemma is_data_session_info: "is_data (session_info_record e)"
  by (simp add: session_info_record_def)

lemma no_output_logs: "logs_data no_output"
  by (simp add: logs_data_def no_output_def)

lemma show_entry_logs: "logs_data show_entry"
  by (simp add: logs_data_def show_entry_def Let_def open_log_data is_data_session_info)

lemma list_entries_monitor:
  "list_entries fl labels ws es lines c = (c', r) \<Longrightarrow>
     \<exists>done'. set done' \<subseteq> set es \<and> con_monitor c' = map_option (\<lambda>log. log @ map session_info_record done') (con_monitor c)"
proof (induction es arbitrary: lines c)
  case Nil
  then show ?case by (intro exI [of _ "[]"]) (simp add: option.map_ident)
next
  case (Cons e es)
  show ?case
  proof (cases "session_number (si_session_id e)")
    case (Inl ex)
    then show ?thesis using Cons.prems by (intro exI [of _ "[]"]) (simp add: option.map_ident)
  next
    case (Inr n)
    then have "list_entries fl labels ws es (emplace n (entry_line fl labels ws e) lines)
        (monitor_put (session_info_record e) c) = (c', r)" using Cons.prems by simp
    from Cons.IH [OF this] obtain ds where "set ds \<subseteq> set es"
      "con_monitor c' = map_option (\<lambda>log. log @ map session_info_record ds) (con_monitor (monitor_put (session_info_record e) c))"
      by blast
    then show ?thesis by (intro exI [of _ "e # ds"]) (auto simp: option.map_comp comp_def)
  qed
qed

lemma open_log_records:
  "open_log c \<Longrightarrow> con_monitor c' = map_option (\<lambda>log. log @ map session_info_record es) (con_monitor c) \<Longrightarrow> open_log c'"
  by (auto simp: open_log_def is_data_session_info list_all_iff split: option.splits)

lemma show_list_logs: "logs_data (show_list fl)"
  unfolding logs_data_def
proof (intro allI impI)
  fix es :: "session_info list" and c :: console
  assume c: "open_log c"
  define c0 where "c0 = (if FLAGS_verbose fl
      then cout (verbose_line (column_widths es) ''id'' ''label'' ''application'' ''user'' ''start'' ''type'' ''remote'' @ nl) c
      else c)"
  obtain c1 r where l: "list_entries fl (label_multiset es) (column_widths es) es [] c0 = (c1, r)" by force
  have "open_log c0" using c by (simp add: c0_def)
  then have "open_log c1" using list_entries_monitor [OF l] open_log_records by blast
  moreover have "con_monitor (fst (show_list fl es c)) = con_monitor c1"
    using l by (simp add: show_list_def Let_def flip: c0_def split: sum.splits)
  ultimately show "open_log (fst (show_list fl es c))" using open_log_cong by blast
qed

text \<open>The lines of the list: a map ordered by session number.\<close>

lemma emplace_sorted: "sorted (map fst m) \<and> distinct (map fst m) \<Longrightarrow> sorted (map fst (emplace k v m)) \<and> distinct (map fst (emplace k v m))"
  by (auto simp: emplace_def sorted_insort_key distinct_insort_key)

lemma set_emplace: "fst ` set (emplace k v m) = insert k (fst ` set m)"
  by (auto simp: emplace_def set_insort_key)

lemma mset_emplace: "k \<notin> fst ` set m \<Longrightarrow> mset (map snd (emplace k v m)) = add_mset v (mset (map snd m))"
  by (simp add: emplace_def)

text \<open>Entries whose ids are a letter and a number.\<close>

definition numbered :: "session_info list \<Rightarrow> nat list \<Rightarrow> bool" where
  "numbered es ns \<longleftrightarrow> list_all2 (\<lambda>e n. session_number (si_session_id e) = Inr n) es ns"

lemma list_entries_all:
  assumes "numbered es ns" "sorted (map fst lines) \<and> distinct (map fst lines)"
  shows "\<exists>out. list_entries fl labels ws es lines c
        = (c\<lparr>con_monitor := map_option (\<lambda>log. log @ map session_info_record es) (con_monitor c)\<rparr>, Inr out)
     \<and> sorted (map fst out) \<and> distinct (map fst out) \<and> fst ` set out = fst ` set lines \<union> set ns
     \<and> (distinct ns \<and> set ns \<inter> fst ` set lines = {} \<longrightarrow>
          mset (map snd out) = mset (map snd lines) + mset (map (entry_line fl labels ws) es))"
  using assms
proof (induction es arbitrary: ns lines c)
  case Nil
  then show ?case by (auto simp: numbered_def option.map_ident)
next
  case (Cons e es)
  then obtain n ms where ns: "ns = n # ms" "session_number (si_session_id e) = Inr n" "numbered es ms"
    by (auto simp: numbered_def list_all2_Cons1)
  let ?lines = "emplace n (entry_line fl labels ws e) lines" and ?c = "monitor_put (session_info_record e) c"
  from Cons.IH [OF ns(3) emplace_sorted [OF Cons.prems(2)], of n "entry_line fl labels ws e" ?c]
  obtain out where out: "list_entries fl labels ws es ?lines ?c
        = (?c\<lparr>con_monitor := map_option (\<lambda>log. log @ map session_info_record es) (con_monitor ?c)\<rparr>, Inr out)"
    "sorted (map fst out)" "distinct (map fst out)" "fst ` set out = fst ` set ?lines \<union> set ms"
    "distinct ms \<and> set ms \<inter> fst ` set ?lines = {} \<longrightarrow>
       mset (map snd out) = mset (map snd ?lines) + mset (map (entry_line fl labels ws) es)"
    by blast
  have "?c\<lparr>con_monitor := map_option (\<lambda>log. log @ map session_info_record es) (con_monitor ?c)\<rparr>
      = c\<lparr>con_monitor := map_option (\<lambda>log. log @ map session_info_record (e # es)) (con_monitor c)\<rparr>"
    by (simp add: monitor_put_def option.map_comp comp_def)
  moreover have "mset (map snd out) = mset (map snd lines) + mset (map (entry_line fl labels ws) (e # es))"
    if "distinct ns \<and> set ns \<inter> fst ` set lines = {}"
  proof -
    have "n \<notin> fst ` set lines" and "distinct ms \<and> set ms \<inter> fst ` set ?lines = {}"
      using that ns(1) by (auto simp: set_emplace)
    then show ?thesis using out(5) mset_emplace [of n lines "entry_line fl labels ws e"] by simp
  qed
  ultimately show ?case using out ns(1,2) by (auto simp: set_emplace)
qed

section \<open>Properties\<close>


definition sample_sessions :: "session_info list" where
  "sample_sessions =
     [\<lparr>si_session_id = '':12'', si_label = ''a'', si_application = ''tgsql'', si_user = ''u'', si_start_at = 0,
       si_connection_type = ''ipc'', si_connection_info = ''77''\<rparr>,
      \<lparr>si_session_id = '':9'', si_label = ''a'', si_application = ''tgsql'', si_user = ''u'', si_start_at = 0,
       si_connection_type = ''ipc'', si_connection_info = ''78''\<rparr>]"

definition sample_session_flags :: session_flags where
  "sample_session_flags =
     \<lparr>FLAGS_verbose = False, FLAGS_id = False, FLAGS_session_graceful = True, FLAGS_session_forceful = True\<rparr>"


text \<open>C34: when one of the session commands returns, its monitor file is complete: it starts with the start record, ends with
  the only finish record, has data records in between, and it says success whenever the command returns ok.\<close>

theorem session_commands_complete_log:
  assumes "session_list ce sb fl c = Some (c', Inr rc) \<or> session_show ce sb ref c = Some (c', Inr rc)
    \<or> session_shutdown ce sb fl ref c = Some (c', Inr rc) \<or> session_swtch ce sb ref key val set' c = Some (c', Inr rc)"
  shows "\<exists>reason. finished_log reason c' \<and> (rc = rc_ok \<longrightarrow> reason = reason_absent)"
proof -
  note logs = reported.service_command_logs [OF send_session_command_monitor on_result_case_logs]
  note uses = show_list_logs show_entry_logs no_output_logs
  have both: "finished_log reason_absent (finish reason_absent (cerr m (open_monitor b c)))" for m b
    by (rule open_log_finish) simp
  show ?thesis
    using assms
  proof (elim disjE)
    assume "session_shutdown ce sb fl ref c = Some (c', Inr rc)"
    then show ?thesis
      using both logs [OF uses(3)] unfolding session_shutdown_def by (auto split: if_splits)
  qed (use logs [OF uses(1)] logs [OF uses(2)] logs [OF uses(3)] in
        \<open>auto simp: session_list_def session_show_def session_swtch_def\<close>)
qed

text \<open>With both \<^verbatim>\<open>--graceful\<close> and \<^verbatim>\<open>--forceful\<close> the command fails and the monitor file says success.\<close>

lemma session_shutdown_both_options:
  assumes "FLAGS_session_graceful fl" "FLAGS_session_forceful fl" "cm_monitor ce \<noteq> []"
  shows "\<exists>c'. session_shutdown ce sb fl ref c = Some (c', Inr rc_err) \<and> con_monitor c' = Some [M_start, M_finish reason_absent]"
  using assms by (simp add: session_shutdown_def)

definition sample_session_pb :: session_pb where
  "sample_session_pb =
     \<lparr>sb_serialize = (\<lambda>r. [1]), sb_list = (\<lambda>b. None), sb_get = (\<lambda>b. None), sb_shutdown = (\<lambda>b. None),
      sb_set_variable = (\<lambda>b. None), service_id_session = 4\<rparr>"

definition sample_cmd_env :: cmd_env where
  "sample_cmd_env =
     \<lparr>cm_session = \<lparr>se_protobuf = sample_protobuf, se_answer = (\<lambda>reqs. Inr []), se_shm = Map.empty, se_serve = (\<lambda>q. q), se_pid = 7\<rparr>,
      cm_auth = sample_auth_env, cm_monitor = ''m.log'', cm_quiet = False\<rparr>"

theorem session_commands_complete_log_witness:
  "\<exists>c' reason. session_shutdown sample_cmd_env sample_session_pb sample_session_flags '':1'' fresh_console = Some (c', Inr rc_err)
     \<and> finished_log reason c'"
proof -
  obtain c' where "session_shutdown sample_cmd_env sample_session_pb sample_session_flags '':1'' fresh_console = Some (c', Inr rc_err)"
    using session_shutdown_both_options [of sample_session_flags sample_cmd_env sample_session_pb "'':1''" fresh_console]
    by (auto simp: sample_session_flags_def sample_cmd_env_def)
  then show ?thesis using session_commands_complete_log by blast
qed

end
