(* ===== verification/Request_Commands.thy ===== *)
theory Request_Commands
  imports Service_Command
begin

section \<open>\<^verbatim>\<open>tgctl request\<close>\<close>

text \<open>
  \<^verbatim>\<open>src/tateyama/request/request.cpp\<close>: listing the requests the server works on, the payload of one, and the SQL text in a
  payload.  The encoding in base 64, made of iterators of Boost, and the classes of the messages are fields of
  \<open>request_pb\<close>; the time is in nanoseconds.
\<close>

record request_info =
  ri_session_id :: nat
  ri_request_id :: nat
  ri_service_id :: nat
  ri_payload_size :: nat
  ri_started_time :: nat

datatype request_command = ListRequest | GetPayload nat nat

record request_request =
  qr_version :: "nat \<times> nat"
  qr_command :: request_command

record sql_request =
  ql_version :: "nat \<times> nat"
  ql_session_id :: nat
  ql_payload :: string

text \<open>The response of the SQL service: the statement's transaction and text, each optional, or a response of another type.\<close>

datatype sql_response = ExtractStatementInfo "(string option \<times> string option) result_case" | Other_response

record request_pb =
  qb_serialize :: "request_request \<Rightarrow> byte list"
  qb_sql_serialize :: "sql_request \<Rightarrow> byte list"
  qb_list :: "byte list \<Rightarrow> request_info list result_case option"
  qb_payload :: "byte list \<Rightarrow> string result_case option"
  qb_extract :: "byte list \<Rightarrow> sql_response option"
  qb_encode :: "string \<Rightarrow> string"
  qb_decode :: "string \<Rightarrow> string outcome"
  qb_now :: nat
  service_id_request :: nat
  service_id_sql :: nat

definition request_request_class :: "request_pb \<Rightarrow> request_request request_class" where
  "request_request_class qb =
     \<lparr>rq_set_version = (\<lambda>major minor r. r\<lparr>qr_version := (major, minor)\<rparr>), rq_serialize = qb_serialize qb\<rparr>"

definition sql_request_class :: "request_pb \<Rightarrow> sql_request request_class" where
  "sql_request_class qb =
     \<lparr>rq_set_version = (\<lambda>major minor r. r\<lparr>ql_version := (major, minor)\<rparr>), rq_serialize = qb_sql_serialize qb\<rparr>"

definition send_request_command ::
    "cmd_env \<Rightarrow> request_pb \<Rightarrow> (byte list \<Rightarrow> 'r option) \<Rightarrow> request_command \<Rightarrow> transport \<Rightarrow> transport \<times> 'r option outcome" where
  "send_request_command ce qb parse command =
     send_request (se_protobuf (cm_session ce)) (se_answer (cm_session ce)) (request_request_class qb) parse
       \<lparr>qr_version = (0, 0), qr_command = command\<rparr>"

text \<open>Milliseconds since the epoch, the fraction of the second rounded.\<close>

definition now_ms :: "nat \<Rightarrow> nat" where
  "now_ms ns = ns div 1000000000 * 1000 + (ns mod 1000000000 + 500000) div 1000000"

text \<open>The difference is a \<open>std::size_t\<close>: a request that started after the clock was read has a huge elapsed time.\<close>

definition elapsed_ms :: "nat \<Rightarrow> request_info \<Rightarrow> nat" where
  "elapsed_ms nms e = u64_sub nms (ri_started_time e)"

definition request_row :: "nat \<Rightarrow> request_info \<Rightarrow> string" where
  "request_row nms e =
     setw_right 10 (to_string (ri_session_id e)) @ setw_right (10 + 2) (to_string (ri_request_id e))
     @ setw_right (10 + 2) (to_string (ri_service_id e)) @ setw_right (12 + 2) (to_string (ri_payload_size e))
     @ setw_right (17 + 2) (to_string (elapsed_ms nms e)) @ nl"

definition request_record :: "nat \<Rightarrow> request_info \<Rightarrow> monitor_record" where
  "request_record nms e =
     M_request_list (ri_session_id e) (ri_request_id e) (ri_service_id e) (ri_payload_size e) (elapsed_ms nms e)"

fun list_requests :: "bool \<Rightarrow> nat \<Rightarrow> request_info list \<Rightarrow> console \<Rightarrow> console" where
  "list_requests quiet nms [] c = c"
| "list_requests quiet nms (e # es) c =
     list_requests quiet nms es
       (monitor_put (request_record nms e) (if quiet then c else cout (request_row nms e) c))"

definition request_heading :: string where
  "request_heading =
     ''session-id  request-id  service-id  payload-size  elapsed-time (ms)'' @ nl
     @ ''----------  ----------  ----------  ------------  -----------------'' @ nl"

definition show_requests :: "bool \<Rightarrow> nat \<Rightarrow> request_info list \<Rightarrow> console \<Rightarrow> console \<times> unit outcome" where
  "show_requests quiet nms es c =
     (list_requests quiet nms es (if quiet then c else cout request_heading c), Inr ())"

definition request_list :: "cmd_env \<Rightarrow> request_pb \<Rightarrow> console \<Rightarrow> command_result" where
  "request_list ce qb c =
     service_command ce (service_id_request qb) (report_no_connection (cm_auth ce))
       (send_request_command ce qb (qb_list qb) ListRequest)
       (on_result_case ''ListRequest'' (show_requests (cm_quiet ce) (now_ms (qb_now qb)))) c"

definition show_payload :: "bool \<Rightarrow> (string \<Rightarrow> string) \<Rightarrow> string \<Rightarrow> console \<Rightarrow> console \<times> unit outcome" where
  "show_payload quiet encode data c =
     (monitor_put (M_request_payload (encode data)) (if quiet then c else cout (encode data) c), Inr ())"

definition request_payload :: "cmd_env \<Rightarrow> request_pb \<Rightarrow> nat \<Rightarrow> nat \<Rightarrow> console \<Rightarrow> command_result" where
  "request_payload ce qb session_id request_id c =
     service_command ce (service_id_request qb) (report_no_connection (cm_auth ce))
       (send_request_command ce qb (qb_payload qb) (GetPayload session_id request_id))
       (on_result_case ''GetPayload'' (show_payload (cm_quiet ce) (qb_encode qb))) c"

definition show_statement :: "bool \<Rightarrow> string option \<times> string option \<Rightarrow> console \<Rightarrow> console \<times> unit outcome" where
  "show_statement quiet = (\<lambda>(transaction_id, sql) c.
     (monitor_put (M_request_extract_sql transaction_id sql)
        (case sql of None \<Rightarrow> c | Some text' \<Rightarrow> if quiet then c else cout (text' @ nl) c), Inr ()))"

definition on_sql_response :: "bool \<Rightarrow> sql_response option consumer" where
  "on_sql_response quiet response_opt c =
     (case response_opt of
        None \<Rightarrow> (c, Inr (Inl reason_payload_broken))
      | Some (ExtractStatementInfo r) \<Rightarrow> on_result_case ''ExtractStatementInfo'' (show_statement quiet) (Some r) c
      | Some Other_response \<Rightarrow>
          (cerr (''the response type does not match with that expected'' @ nl) c, Inr (Inl reason_payload_broken)))"

definition request_extract_sql :: "cmd_env \<Rightarrow> request_pb \<Rightarrow> nat \<Rightarrow> string \<Rightarrow> console \<Rightarrow> command_result" where
  "request_extract_sql ce qb session_id text' c =
     (case qb_decode qb text' of
        Inl e \<Rightarrow> Some (report_no_connection (cm_auth ce) e (open_monitor (cm_monitor ce \<noteq> []) c))
      | Inr data \<Rightarrow>
          service_command ce (service_id_sql qb) (report_no_connection (cm_auth ce))
            (send_sql (se_protobuf (cm_session ce)) (se_answer (cm_session ce)) (sql_request_class qb) (qb_extract qb)
               \<lparr>ql_version = (0, 0), ql_session_id = session_id, ql_payload = data\<rparr>)
            (on_sql_response (cm_quiet ce)) c)"

section \<open>Lemmas\<close>

lemma list_requests_monitor:
  "con_monitor (list_requests quiet nms es c) = map_option (\<lambda>log. log @ map (request_record nms) es) (con_monitor c)"
  by (induction es arbitrary: c) (auto simp: option.map_comp comp_def option.map_ident)

lemma list_requests_out:
  "con_out (list_requests quiet nms es c) = con_out c @ (if quiet then [] else concat (map (request_row nms) es))"
  by (induction es arbitrary: c) auto

lemma show_requests_logs: "logs_data (show_requests quiet nms)"
proof -
  have "open_log (list_requests quiet nms es c)" if "open_log c" for es c
    using that by (induction es arbitrary: c) (simp_all add: request_record_def open_log_data)
  then show ?thesis by (simp add: logs_data_def show_requests_def)
qed

lemma show_payload_logs: "logs_data (show_payload quiet encode)"
  by (auto simp: logs_data_def show_payload_def intro!: open_log_data)

lemma show_statement_logs: "logs_data (show_statement quiet)"
  by (auto simp: logs_data_def show_statement_def intro!: open_log_data split: option.splits)

lemma on_sql_response_logs: "logs_data (on_sql_response quiet)"
  using on_result_case_logs [OF show_statement_logs, of "''ExtractStatementInfo''" quiet]
  by (auto simp: logs_data_def on_sql_response_def split: option.splits sql_response.splits)

section \<open>Properties\<close>

text \<open>The list of requests: each request is written once to the monitor file and, unless \<^verbatim>\<open>--quiet\<close> is given, once to
  the console under the two heading lines, in the order of the response, with the same elapsed time; the elapsed time is the
  difference of the times whenever the request did not start later than the clock says.\<close>

theorem request_list_shows_all:
  assumes "\<And>e. e \<in> set es \<Longrightarrow> ri_started_time e \<le> nms" "nms < u64_limit"
  shows "con_monitor (fst (show_requests quiet nms es c)) =
      map_option (\<lambda>log. log @ map (\<lambda>e. M_request_list (ri_session_id e) (ri_request_id e) (ri_service_id e)
         (ri_payload_size e) (nms - ri_started_time e)) es) (con_monitor c)
    \<and> con_out (fst (show_requests quiet nms es c)) =
        con_out c @ (if quiet then [] else request_heading @ concat (map (request_row nms) es))"
proof -
  have "elapsed_ms nms e = nms - ri_started_time e" if "e \<in> set es" for e
    using assms(1) [OF that] assms(2) by (simp add: elapsed_ms_def u64_simps)
  then have "map (request_record nms) es = map (\<lambda>e. M_request_list (ri_session_id e) (ri_request_id e) (ri_service_id e)
      (ri_payload_size e) (nms - ri_started_time e)) es"
    by (simp add: request_record_def)
  then show ?thesis by (simp only: show_requests_def fst_conv list_requests_monitor list_requests_out) simp
qed

text \<open>When one of the request commands returns, its monitor file is complete.\<close>

lemma request_commands_complete_log:
  assumes "request_list ce qb c = Some (c', Inr rc) \<or> request_payload ce qb sid rid c = Some (c', Inr rc)
    \<or> request_extract_sql ce qb sid text' c = Some (c', Inr rc)"
  shows "\<exists>reason. finished_log reason c' \<and> (rc = rc_ok \<longrightarrow> reason = reason_absent)"
proof -
  have sent: "keeps_monitor (send_request_command ce qb parse cmd)" for parse :: "byte list \<Rightarrow> 'r option" and cmd
    unfolding send_request_command_def by (rule send_keeps_monitor)
  note logs = unconnected.service_command_logs [OF sent on_result_case_logs]
  have refused: "\<exists>reason. finished_log reason c' \<and> (rc = rc_ok \<longrightarrow> reason = reason_absent)"
    if "report_no_connection ae e (open_monitor b c) = (c', Inr rc)" for ae e b
    using unconnected.ends_log [OF open_log_open that] by auto
  show ?thesis
    using assms
  proof (elim disjE)
    assume "request_list ce qb c = Some (c', Inr rc)"
    then show ?thesis using logs [OF show_requests_logs] unfolding request_list_def by blast
  next
    assume "request_payload ce qb sid rid c = Some (c', Inr rc)"
    then show ?thesis using logs [OF show_payload_logs] unfolding request_payload_def by blast
  next
    assume "request_extract_sql ce qb sid text' c = Some (c', Inr rc)"
    then show ?thesis
      using unconnected.service_command_logs [OF send_keeps_monitor(4) on_sql_response_logs] refused
      unfolding request_extract_sql_def by (auto split: sum.splits)
  qed
qed

text \<open>A request that started one millisecond after the clock was read.\<close>

lemma elapsed_wraps: "elapsed_ms 1000 (e\<lparr>ri_started_time := 1001\<rparr>) = 2 ^ 64 - 1"
  by (simp add: elapsed_ms_def u64_sub_def)

definition sample_request :: request_info where
  "sample_request = \<lparr>ri_session_id = 1, ri_request_id = 2, ri_service_id = 3, ri_payload_size = 40, ri_started_time = 5\<rparr>"

theorem request_list_shows_all_witness:
  "con_monitor (fst (show_requests True 7 [sample_request] (open_monitor True fresh_console))) =
     Some [M_start, M_request_list 1 2 3 40 2]"
proof -
  have "(7::nat) < u64_limit" by simp
  with request_list_shows_all [of "[sample_request]" 7 True "open_monitor True fresh_console"]
  show ?thesis by (simp add: sample_request_def)
qed

end
