(* ===== verification/Metrics_Commands.thy ===== *)
theory Metrics_Commands
  imports Service_Command
begin

section \<open>\<^verbatim>\<open>tgctl dbstats\<close>\<close>

text \<open>
  \<^verbatim>\<open>src/tateyama/metrics/metrics.cpp\<close>: the names and the values of the server's metrics.  A value is a rational number; the
  fixed notation of the output stream rounds it to the nearest, ties to even.
\<close>

datatype metrics_value = Metrics_value rat | Metrics_array "((string \<times> string) list \<times> rat) list"

record metrics_item =
  mi_key :: string
  mi_description :: string
  mi_value :: metrics_value

datatype metrics_command = Metrics_list | Metrics_show

record metrics_request =
  mr_version :: "nat \<times> nat"
  mr_command :: metrics_command

record metrics_pb =
  mb_serialize :: "metrics_request \<Rightarrow> byte list"
  mb_information :: "byte list \<Rightarrow> metrics_item list option"
  service_id_metrics :: nat

definition metrics_class :: "metrics_pb \<Rightarrow> metrics_request request_class" where
  "metrics_class mb =
     \<lparr>rq_set_version = (\<lambda>major minor r. r\<lparr>mr_version := (major, minor)\<rparr>), rq_serialize = mb_serialize mb\<rparr>"

definition send_metrics_command ::
    "cmd_env \<Rightarrow> metrics_pb \<Rightarrow> metrics_command \<Rightarrow> transport \<Rightarrow> transport \<times> metrics_item list option outcome" where
  "send_metrics_command ce mb command =
     send_metrics (se_protobuf (cm_session ce)) (se_answer (cm_session ce)) (metrics_class mb) (mb_information mb)
       \<lparr>mr_version = (0, 0), mr_command = command\<rparr>"

definition dq :: string where
  "dq = [CHR 0x22]"

definition unsupported :: "string \<Rightarrow> console \<Rightarrow> console \<times> (reason + unit) outcome" where
  "unsupported format c = (cerr (''format '' @ format @ '' is not supported'' @ nl) c, Inr (Inl reason_invalid_argument))"

definition no_valid_response :: "console \<Rightarrow> console \<times> (reason + unit) outcome" where
  "no_valid_response c = (cerr (''could not receive a valid response'' @ nl) c, Inr (Inl reason_payload_broken))"

subsection \<open>\<open>list\<close>\<close>

text \<open>The loop over the items, with \<open>i\<close> and \<open>len\<close>.\<close>

fun list_json_items :: "nat \<Rightarrow> nat \<Rightarrow> metrics_item list \<Rightarrow> string" where
  "list_json_items len i [] = []"
| "list_json_items len i (item # items) =
     ''  '' @ dq @ mi_key item @ dq @ '': '' @ dq @ mi_description item @ dq
     @ (if int i = int len - 1 then nl else '','' @ nl) @ list_json_items len (Suc i) items"

definition list_json :: "metrics_item list \<Rightarrow> string" where
  "list_json items = ''{'' @ nl @ list_json_items (length items) 0 items @ ''}'' @ nl"

definition max_length :: "(metrics_item \<Rightarrow> string) \<Rightarrow> metrics_item list \<Rightarrow> nat" where
  "max_length f items = fold (\<lambda>item m. max m (length (f item))) items 0"

fun list_text_items :: "nat \<Rightarrow> nat \<Rightarrow> string \<Rightarrow> metrics_item list \<Rightarrow> string" where
  "list_text_items key_max description_max prev_key [] = []"
| "list_text_items key_max description_max prev_key (item # items) =
     (if prev_key \<noteq> mi_key item
      then setw_right key_max (mi_key item) @ '' : '' @ setw_left description_max (mi_description item) @ nl
           @ list_text_items key_max description_max (mi_key item) items
      else list_text_items key_max description_max prev_key items)"

definition list_text :: "metrics_item list \<Rightarrow> string" where
  "list_text items = list_text_items (max_length mi_key items) (max_length mi_description items) [] items"

definition on_list :: "string \<Rightarrow> metrics_item list option consumer" where
  "on_list format response_opt c =
     (case response_opt of
        None \<Rightarrow> no_valid_response c
      | Some items \<Rightarrow>
          if format = ''json'' then (cout (list_json items) c, Inr (Inr ()))
          else if format = ''text'' then (cout (list_text items) c, Inr (Inr ()))
          else unsupported format c)"

definition metrics_list :: "cmd_env \<Rightarrow> metrics_pb \<Rightarrow> string \<Rightarrow> console \<Rightarrow> command_result" where
  "metrics_list ce mb format c =
     service_command ce (service_id_metrics mb) (report_no_connection (cm_auth ce))
       (send_metrics_command ce mb Metrics_list) (on_list format) c"

subsection \<open>\<open>show\<close>\<close>

definition round_half_even :: "rat \<Rightarrow> int" where
  "round_half_even r =
     (let f = \<lfloor>r\<rfloor>; d = r - of_int f
      in if d < 1 / 2 then f else if 1 / 2 < d then f + 1 else if even f then f else f + 1)"

definition digits_padded :: "nat \<Rightarrow> nat \<Rightarrow> string" where
  "digits_padded n v = replicate (n - length (to_string v)) (CHR ''0'') @ to_string v"

text \<open>\<open>std::fixed\<close> with a precision.\<close>

definition print_fixed :: "nat \<Rightarrow> rat \<Rightarrow> string" where
  "print_fixed precision v =
     (let n = nat \<bar>round_half_even (\<bar>v\<bar> * 10 ^ precision)\<bar>
      in (if v < 0 then ''-'' else []) @ to_string (n div 10 ^ precision)
         @ (if precision = 0 then [] else ''.'' @ digits_padded precision (n mod 10 ^ precision)))"

text \<open>\<open>static_cast<double>(static_cast<int>(v))\<close>, for values in the range of \<open>int\<close>.\<close>

definition truncated :: "rat \<Rightarrow> rat" where
  "truncated v = of_int (if 0 \<le> v then \<lfloor>v\<rfloor> else - \<lfloor>- v\<rfloor>)"

definition element_json :: "bool \<Rightarrow> (string \<times> string) list \<times> rat \<Rightarrow> string" where
  "element_json last' = (\<lambda>(attributes, v).
     ''    {'' @ nl
     @ concat (map (\<lambda>(k, x). ''      '' @ dq @ k @ dq @ '': '' @ dq @ x @ dq @ '','' @ nl) attributes)
     @ ''      '' @ dq @ ''value'' @ dq @ '': '' @ print_fixed (if 1 < v then 0 else 6) v @ nl
     @ (if last' then ''    }'' else ''    },'') @ nl)"

fun elements_json :: "((string \<times> string) list \<times> rat) list \<Rightarrow> string" where
  "elements_json [] = []"
| "elements_json (e # es) = element_json (es = []) e @ elements_json es"

definition value_json :: "metrics_item \<Rightarrow> string" where
  "value_json item =
     (case mi_value item of
        Metrics_array es \<Rightarrow> ''  '' @ dq @ mi_key item @ dq @ '': ['' @ nl @ elements_json es @ ''  ]''
      | Metrics_value v \<Rightarrow>
          ''  '' @ dq @ mi_key item @ dq @ '': '' @ print_fixed (if 0 < v - truncated v then 6 else 0) v)"

fun show_json_items :: "nat \<Rightarrow> metrics_item list \<Rightarrow> string" where
  "show_json_items i [] = []"
| "show_json_items i (item # items) =
     (if 0 < i then '','' @ nl else []) @ value_json item @ show_json_items (Suc i) items"

definition show_json :: "metrics_item list \<Rightarrow> string" where
  "show_json items = ''{'' @ nl @ show_json_items 0 items @ nl @ ''}'' @ nl"

definition on_show :: "string \<Rightarrow> metrics_item list option consumer" where
  "on_show format response_opt c =
     (case response_opt of
        None \<Rightarrow> no_valid_response c
      | Some items \<Rightarrow>
          if format = ''json'' then (cout (show_json items) c, Inr (Inr ()))
          else if format = ''text''
          then (cerr (''human readable format has not been supported'' @ nl) c, Inr (Inl reason_invalid_argument))
          else unsupported format c)"

definition metrics_show :: "cmd_env \<Rightarrow> metrics_pb \<Rightarrow> string \<Rightarrow> console \<Rightarrow> command_result" where
  "metrics_show ce mb format c =
     service_command ce (service_id_metrics mb) (report_no_connection (cm_auth ce))
       (send_metrics_command ce mb Metrics_show) (on_show format) c"

section \<open>Lemmas\<close>

fun intercalate :: "string \<Rightarrow> string list \<Rightarrow> string" where
  "intercalate sep [] = []"
| "intercalate sep [x] = x"
| "intercalate sep (x # y # zs) = x @ sep @ intercalate sep (y # zs)"

lemma list_json_items_join:
  "i + length items = len \<Longrightarrow> items \<noteq> [] \<Longrightarrow>
     list_json_items len i items = intercalate ('','' @ nl)
       (map (\<lambda>item. ''  '' @ dq @ mi_key item @ dq @ '': '' @ dq @ mi_description item @ dq) items) @ nl"
proof (induction items arbitrary: i)
  case (Cons item items)
  show ?case
  proof (cases items)
    case Nil
    then show ?thesis using Cons.prems by simp
  next
    case (Cons item' items')
    then have "list_json_items len (Suc i) items = intercalate ('','' @ nl)
       (map (\<lambda>item. ''  '' @ dq @ mi_key item @ dq @ '': '' @ dq @ mi_description item @ dq) items) @ nl"
      using Cons.IH [of "Suc i"] Cons.prems by simp
    moreover have "int i \<noteq> int len - 1" using Cons.prems Cons by simp
    ultimately show ?thesis using Cons by simp
  qed
qed simp

lemma show_json_items_join:
  "show_json_items i items = (if 0 < i \<and> items \<noteq> [] then '','' @ nl else []) @ intercalate ('','' @ nl) (map value_json items)"
proof (induction items arbitrary: i)
  case (Cons item items)
  then show ?case by (cases items) auto
qed simp

lemma metrics_consumers_log: "logs_data (on_list format)" "logs_data (on_show format)"
  by (auto simp: logs_data_def on_list_def on_show_def no_valid_response_def unsupported_def split: option.splits)

section \<open>Properties\<close>

text \<open>C39: the JSON output of the two commands: the members, one for each metric in the order of the response, joined by a
  comma and a newline between braces, without a comma after the last one.\<close>

theorem metrics_json_members:
  "list_json items = ''{'' @ nl @
     (if items = [] then [] else intercalate ('','' @ nl)
        (map (\<lambda>item. ''  '' @ dq @ mi_key item @ dq @ '': '' @ dq @ mi_description item @ dq) items) @ nl) @ ''}'' @ nl
   \<and> show_json items = ''{'' @ nl @ intercalate ('','' @ nl) (map value_json items) @ nl @ ''}'' @ nl"
  by (cases "items = []") (simp_all add: list_json_def show_json_def list_json_items_join show_json_items_join)

text \<open>When one of the commands returns, its monitor file is complete.\<close>

lemma metrics_commands_complete_log:
  assumes "metrics_list ce mb format c = Some (c', Inr rc) \<or> metrics_show ce mb format c = Some (c', Inr rc)"
  shows "\<exists>reason. finished_log reason c' \<and> (rc = rc_ok \<longrightarrow> reason = reason_absent)"
proof -
  have sent: "keeps_monitor (send_metrics_command ce mb cmd)" for cmd
    unfolding send_metrics_command_def by (rule send_keeps_monitor)
  show ?thesis
    using assms unconnected.service_command_logs [OF sent metrics_consumers_log(1)]
      unconnected.service_command_logs [OF sent metrics_consumers_log(2)]
    unfolding metrics_list_def metrics_show_def by blast
qed

text \<open>An element of an array with the value 3/2 is printed as 2, and a negative fraction loses its digits.\<close>

lemma rounded_values: "print_fixed 0 (3 / 2) = to_string 2" "\<not> 0 < (- 5 / 2) - truncated (- 5 / 2)"
proof -
  have floors: "\<lfloor>3 / 2 :: rat\<rfloor> = 1" "\<lfloor>5 / 2 :: rat\<rfloor> = 2" by (simp_all add: floor_eq_iff)
  show "print_fixed 0 (3 / 2) = to_string 2" "\<not> 0 < (- 5 / 2) - truncated (- 5 / 2)"
    by (simp_all add: print_fixed_def round_half_even_def truncated_def Let_def floors)
qed

end
