(* ===== verification/Datastore_Commands.thy ===== *)
theory Datastore_Commands
  imports Service_Command
begin

section \<open>\<^verbatim>\<open>tgctl backup\<close> and \<^verbatim>\<open>tgctl restore\<close>\<close>

text \<open>
  \<^verbatim>\<open>src/tateyama/datastore/backup.cpp\<close> and \<^verbatim>\<open>file_list.h\<close>: the copy of the files the server names into a backup
  directory, between a request that begins and one that ends the backup; the estimate; the three ways to restore.

  The regular files are a map from paths to contents.  \<open>file_env\<close> is the operating system: the status of a path, what
  becomes of the creation of a file, and the texts of its errors and of a quotient of two \<open>float\<close>s.  The server does not
  change the files it names while they are copied.  The classes of the messages are the fields of \<open>datastore_pb\<close>; the
  property tree of Boost is the type variable \<open>'pt\<close> with its functions in \<open>file_list_env\<close>.
\<close>

type_synonym files = "string \<rightharpoonup> string"

datatype file_status = not_found | directory bool | other_file

datatype write_result = Written | Refused | Broken nat

record file_env =
  fe_status :: "string \<Rightarrow> file_status"
  fe_create :: "string \<Rightarrow> string \<Rightarrow> write_result"
  fe_what :: "string \<Rightarrow> string list \<Rightarrow> string"
  fe_ratio :: "nat \<Rightarrow> nat \<Rightarrow> string"

record restore_begin =
  rb_source :: "string + string + string \<times> (string \<times> string \<times> bool) list"
  rb_keep_backup :: bool
  rb_label :: string

abbreviation backup_directory :: "string \<Rightarrow> string + string + string \<times> (string \<times> string \<times> bool) list" where
  "backup_directory \<equiv> Inl"

abbreviation tag_name :: "string \<Rightarrow> string + string + string \<times> (string \<times> string \<times> bool) list" where
  "tag_name t \<equiv> Inr (Inl t)"

abbreviation entries :: "string \<times> (string \<times> string \<times> bool) list \<Rightarrow> string + string + string \<times> (string \<times> string \<times> bool) list" where
  "entries es \<equiv> Inr (Inr es)"

datatype datastore_command = BackupBegin string | BackupEnd nat | BackupEstimate | RestoreBegin restore_begin

record datastore_request =
  dr_version :: "nat \<times> nat"
  dr_command :: datastore_command

text \<open>\<open>result_case()\<close> of the datastore's responses: success, an unknown error, another case; the last two with the
  number of the case.\<close>

datatype 'a datastore_result = DS_success 'a | DS_unknown_error nat string | DS_other nat

record datastore_pb =
  db_serialize :: "datastore_request \<Rightarrow> byte list"
  db_backup_begin :: "byte list \<Rightarrow> (nat \<times> string list) datastore_result option"
  db_backup_end :: "byte list \<Rightarrow> unit datastore_result option"
  db_backup_estimate :: "byte list \<Rightarrow> (nat \<times> nat) datastore_result option"
  db_restore_begin :: "byte list \<Rightarrow> unit datastore_result option"
  service_id_datastore :: nat

record datastore_flags =
  FLAGS_force :: bool
  FLAGS__keep_backup :: bool
  FLAGS_keep_backup :: bool
  FLAGS_use_file_list :: string
  FLAGS_backup_label :: string

definition datastore_class :: "datastore_pb \<Rightarrow> datastore_request request_class" where
  "datastore_class db =
     \<lparr>rq_set_version = (\<lambda>major minor r. r\<lparr>dr_version := (major, minor)\<rparr>), rq_serialize = db_serialize db\<rparr>"

definition send_datastore_command ::
    "cmd_env \<Rightarrow> datastore_pb \<Rightarrow> (byte list \<Rightarrow> 'r option) \<Rightarrow> datastore_command \<Rightarrow> transport \<Rightarrow> transport \<times> 'r option outcome" where
  "send_datastore_command ce db parse command =
     send_datastore (se_protobuf (cm_session ce)) (se_answer (cm_session ce)) (datastore_class db) parse
       \<lparr>dr_version = (0, 0), dr_command = command\<rparr>"

subsection \<open>Paths and files\<close>

text \<open>\<open>std::filesystem::path::filename\<close>.\<close>

definition filename :: "string \<Rightarrow> string" where
  "filename p = rev (takeWhile (\<lambda>ch. ch \<noteq> CHR ''/'') (rev p))"

definition file_size :: "file_env \<Rightarrow> files \<Rightarrow> string \<Rightarrow> nat outcome" where
  "file_size fe fs p =
     (case fs p of
        None \<Rightarrow> Inl (Std_error (fe_what fe ''cannot get file size'' [p]))
      | Some data \<Rightarrow> Inr (length data))"

text \<open>\<open>std::filesystem::copy_file\<close> without options: an existing target is an error.  A copy that breaks leaves a part of
  the file.\<close>

definition copy_file :: "file_env \<Rightarrow> string \<Rightarrow> string \<Rightarrow> files \<Rightarrow> files \<times> unit outcome" where
  "copy_file fe src dst fs =
     (let failed = Inl (Std_error (fe_what fe ''cannot copy file'' [src, dst]))
      in case fs src of
           None \<Rightarrow> (fs, failed)
         | Some data \<Rightarrow>
             if fs dst \<noteq> None then (fs, failed)
             else (case fe_create fe dst data of
                     Written \<Rightarrow> (fs(dst \<mapsto> data), Inr ())
                   | Refused \<Rightarrow> (fs, failed)
                   | Broken n \<Rightarrow> (fs(dst \<mapsto> take n data), failed)))"

subsection \<open>Creating a backup\<close>

fun total_size :: "file_env \<Rightarrow> files \<Rightarrow> string list \<Rightarrow> nat \<Rightarrow> nat outcome" where
  "total_size fe fs [] total_bytes = Inr total_bytes"
| "total_size fe fs (src # files) total_bytes =
     (case file_size fe fs src of
        Inl e \<Rightarrow> Inl e
      | Inr n \<Rightarrow> total_size fe fs files (u64_add total_bytes n))"

fun copy_files ::
    "file_env \<Rightarrow> bool \<Rightarrow> string \<Rightarrow> nat \<Rightarrow> nat \<Rightarrow> string list \<Rightarrow> files \<Rightarrow> transport \<Rightarrow> files \<times> transport \<times> unit outcome" where
  "copy_files fe monitored location total_bytes completed_bytes [] fs t = (fs, t, Inr ())"
| "copy_files fe monitored location total_bytes completed_bytes (src # files) fs t =
     (case copy_file fe src (path_append location (filename src)) fs of
        (fs, Inl e) \<Rightarrow> (fs, t, Inl e)
      | (fs, Inr u) \<Rightarrow>
          if monitored
          then (case file_size fe fs src of
                  Inl e \<Rightarrow> (fs, t, Inl e)
                | Inr n \<Rightarrow>
                    (let completed_bytes = u64_add completed_bytes n
                     in copy_files fe monitored location total_bytes completed_bytes files fs
                          (monitor_put (M_progress (if 0 < total_bytes then fe_ratio fe completed_bytes total_bytes else ''1'')) t)))
          else copy_files fe monitored location total_bytes completed_bytes files fs t)"

definition on_backup_end :: "unit datastore_result option \<Rightarrow> 'a console_scheme \<Rightarrow> 'a console_scheme \<times> (reason + unit) outcome" where
  "on_backup_end responseEnd c =
     (case responseEnd of
        None \<Rightarrow> (cerr (''BackupEnd response error: '' @ nl) c, Inr (Inl reason_payload_broken))
      | Some (DS_success u) \<Rightarrow> (c, Inr (Inr ()))
      | Some (DS_unknown_error n message) \<Rightarrow> (cerr (''BackupEnd error: '' @ message @ nl) c, Inr (Inl reason_server))
      | Some (DS_other n) \<Rightarrow> (cerr (''BackupEnd result_case() error: '' @ nl) c, Inr (Inl reason_payload_broken)))"

definition backup_end :: "cmd_env \<Rightarrow> datastore_pb \<Rightarrow> nat \<Rightarrow> transport \<Rightarrow> transport \<times> (reason + unit) outcome" where
  "backup_end ce db backup_id t =
     (case send_datastore_command ce db (db_backup_end db) (BackupEnd backup_id) t of
        (t, Inl e) \<Rightarrow> (t, Inl e)
      | (t, Inr responseEnd) \<Rightarrow> on_backup_end responseEnd (tr_close t))"

definition backup_files ::
    "cmd_env \<Rightarrow> datastore_pb \<Rightarrow> file_env \<Rightarrow> string \<Rightarrow> nat \<Rightarrow> string list \<Rightarrow> files \<Rightarrow> transport
      \<Rightarrow> transport \<times> files \<times> (reason + unit) outcome" where
  "backup_files ce db fe location backup_id sources fs t =
     (let monitored = (cm_monitor ce \<noteq> [])
      in case (if monitored then total_size fe fs sources 0 else Inr 0) of
           Inl e \<Rightarrow> (t, fs, Inl e)
         | Inr total_bytes \<Rightarrow>
             (case copy_files fe monitored location total_bytes 0 sources fs t of
                (fs, t, Inl e) \<Rightarrow> (t, fs, Inl e)
              | (fs, t, Inr u) \<Rightarrow> (case backup_end ce db backup_id t of (t, r) \<Rightarrow> (t, fs, r))))"

definition backup_session ::
    "cmd_env \<Rightarrow> datastore_pb \<Rightarrow> file_env \<Rightarrow> string \<Rightarrow> string \<Rightarrow> files \<Rightarrow> transport
      \<Rightarrow> transport \<times> files \<times> (reason + unit) outcome" where
  "backup_session ce db fe label path_to_backup fs t =
     (case send_datastore_command ce db (db_backup_begin db) (BackupBegin label) t of
        (t, Inl e) \<Rightarrow> (t, fs, Inl e)
      | (t, Inr None) \<Rightarrow> (cerr (''BackupBegin response error: '' @ nl) t, fs, Inr (Inl reason_payload_broken))
      | (t, Inr (Some (DS_success (backup_id, sources)))) \<Rightarrow> backup_files ce db fe path_to_backup backup_id sources fs t
      | (t, Inr (Some (DS_unknown_error n message))) \<Rightarrow>
          (cerr (''BackupBegin error: '' @ message @ nl) t, fs, Inr (Inl reason_server))
      | (t, Inr (Some (DS_other n))) \<Rightarrow>
          (cerr (''BackupBegin result_case() error: '' @ nl) t, fs, Inr (Inl reason_payload_broken)))"

text \<open>The two handlers of \<open>tgctl_backup_create\<close>.\<close>

definition report_what :: "exn \<Rightarrow> console \<Rightarrow> console \<times> return_code outcome" where
  "report_what e c =
     (case e of
        Tgctl_error ex \<Rightarrow> (finish (code ex) (cerr (what ex @ nl) c), Inr rc_err)
      | Std_error message \<Rightarrow> (finish reason_io (cerr (message @ nl) c), Inr rc_err)
      | Null_pointer \<Rightarrow> (c, Inl Null_pointer))"

definition tgctl_backup_create ::
    "cmd_env \<Rightarrow> datastore_pb \<Rightarrow> file_env \<Rightarrow> datastore_flags \<Rightarrow> string \<Rightarrow> files \<Rightarrow> console
      \<Rightarrow> (files \<times> console \<times> return_code outcome) option" where
  "tgctl_backup_create ce db fe fl path_to_backup fs c =
     map_option
       (\<lambda>(c, r). case r of
          Inl e \<Rightarrow> (fs, conclude report_what (c, Inl e))
        | Inr (fs, res) \<Rightarrow> (fs, conclude report_what (c, res)))
       (with_transport ce (service_id_datastore db)
          (\<lambda>t. case backup_session ce db fe (FLAGS_backup_label fl) path_to_backup fs t of (t, fs, res) \<Rightarrow> (t, Inr (fs, res)))
          (open_monitor (cm_monitor ce \<noteq> []) c))"

definition tgctl_backup_directory_check :: "cmd_env \<Rightarrow> file_env \<Rightarrow> string \<Rightarrow> console \<Rightarrow> console \<times> return_code" where
  "tgctl_backup_directory_check ce fe path_to_backup c =
     (let refuse = (\<lambda>why.
            (let c = cout (''backup create error: '' @ path_to_backup @ why @ nl) c
             in (if cm_monitor ce \<noteq> [] then finish reason_io (open_monitor True c) else c, rc_err)))
      in case fe_status fe path_to_backup of
           not_found \<Rightarrow> refuse '' does not exists''
         | other_file \<Rightarrow> refuse '' is not a directory''
         | directory owner_write \<Rightarrow> if \<not> owner_write then refuse '' is not writable'' else (c, rc_ok))"

subsection \<open>The estimate\<close>

definition ends_up_with :: "nat \<Rightarrow> console \<Rightarrow> console \<times> (reason + unit) outcome" where
  "ends_up_with n c = (cerr ('' ends up with '' @ to_string n @ nl) c, Inr (Inl reason_server))"

definition on_estimate :: "(nat \<times> nat) datastore_result option consumer" where
  "on_estimate response c =
     (case response of
        None \<Rightarrow> (cerr (''BackupEstimate response error: '' @ nl) c, Inr (Inl reason_payload_broken))
      | Some (DS_success (number_of_files, number_of_bytes)) \<Rightarrow>
          (cout (''number_of_files = '' @ to_string number_of_files @ '', number_of_bytes = ''
                 @ to_string number_of_bytes @ nl) c, Inr (Inr ()))
      | Some (DS_unknown_error n message) \<Rightarrow> ends_up_with n c
      | Some (DS_other n) \<Rightarrow> ends_up_with n c)"

definition tgctl_backup_estimate :: "cmd_env \<Rightarrow> datastore_pb \<Rightarrow> console \<Rightarrow> command_result" where
  "tgctl_backup_estimate ce db c =
     service_command ce (service_id_datastore db) (report_no_connection (cm_auth ce))
       (send_datastore_command ce db (db_backup_estimate db) BackupEstimate) on_estimate c"

subsection \<open>The question before a restore\<close>

text \<open>The terminal: the call that fails before the question is written and the one that fails after the answer, if any, and
  the characters typed.  \<open>None\<close>: still waiting for an answer.\<close>

record terminal =
  tm_set_error :: "string option"
  tm_input :: string
  tm_reset_error :: "string option"

fun prompt_loop :: "string \<Rightarrow> bool option" where
  "prompt_loop [] = None"
| "prompt_loop (chr # input) =
     (if chr = CHR ''y'' \<or> chr = CHR ''Y'' then Some True
      else if chr = CHR ''n'' \<or> chr = CHR ''N'' then Some False
      else prompt_loop input)"

definition prompt :: "terminal \<Rightarrow> string \<Rightarrow> console \<Rightarrow> (console \<times> bool outcome) option" where
  "prompt tm msg c =
     (case tm_set_error tm of
        Some failure \<Rightarrow> Some (c, Inl (Tgctl_error (runtime_error reason_internal failure)))
      | None \<Rightarrow>
          (case prompt_loop (tm_input tm) of
             None \<Rightarrow> None
           | Some rtnv \<Rightarrow>
               Some (cout (msg @ (if rtnv then ''yes'' else ''no'') @ nl) c,
                     (case tm_reset_error tm of Some failure \<Rightarrow> Inl (Std_error failure) | None \<Rightarrow> Inr rtnv))))"

definition confirmed :: "datastore_flags \<Rightarrow> terminal \<Rightarrow> console \<Rightarrow> (console \<times> bool) option" where
  "confirmed fl tm c =
     (if FLAGS_force fl then Some (c, True)
      else (case prompt tm ''continue? (press y or n) : '' c of
              None \<Rightarrow> None
            | Some (c, Inl e) \<Rightarrow> Some (cerr (''prompt fail, cause: '' @ exn_what e @ nl) c, False)
            | Some (c, Inr False) \<Rightarrow> Some (cout (''restore backup has been canceled.'' @ nl) c, False)
            | Some (c, Inr True) \<Rightarrow> Some (c, True)))"

subsection \<open>Restoring\<close>

definition on_restore :: "unit datastore_result option consumer" where
  "on_restore response c =
     (case response of
        None \<Rightarrow> (c, Inr (Inl reason_payload_broken))
      | Some (DS_success u) \<Rightarrow> (c, Inr (Inr ()))
      | Some (DS_unknown_error n message) \<Rightarrow> ends_up_with n c
      | Some (DS_other n) \<Rightarrow> ends_up_with n c)"

definition restore_backup_request :: "datastore_flags \<Rightarrow> string \<Rightarrow> restore_begin" where
  "restore_backup_request fl path_to_backup =
     \<lparr>rb_source = backup_directory path_to_backup,
      rb_keep_backup = (if \<not> FLAGS_keep_backup fl then FLAGS_keep_backup fl else FLAGS__keep_backup fl),
      rb_label = FLAGS_backup_label fl\<rparr>"

definition tgctl_restore_backup ::
    "cmd_env \<Rightarrow> datastore_pb \<Rightarrow> datastore_flags \<Rightarrow> terminal \<Rightarrow> string \<Rightarrow> console \<Rightarrow> command_result" where
  "tgctl_restore_backup ce db fl tm path_to_backup c =
     (case confirmed fl tm c of
        None \<Rightarrow> None
      | Some (c, False) \<Rightarrow> Some (c, Inr rc_err)
      | Some (c, True) \<Rightarrow>
          service_command ce (service_id_datastore db) (report_no_connection (cm_auth ce))
            (send_datastore_command ce db (db_restore_begin db) (RestoreBegin (restore_backup_request fl path_to_backup)))
            on_restore c)"

text \<open>\<open>file_list\<close>.  \<open>fl_read_json\<close> gives the message of the exception or the tree, \<open>fl_get_child\<close> the children of the
  member, and throws when there is none.\<close>

record 'pt file_list_env =
  fl_read_json :: "string \<Rightarrow> string + 'pt"
  fl_get_child :: "'pt \<Rightarrow> string \<Rightarrow> 'pt list outcome"
  fl_get_string :: "'pt \<Rightarrow> string \<Rightarrow> string option"
  fl_get_bool :: "'pt \<Rightarrow> string \<Rightarrow> bool option"

definition file_list_read_json :: "'pt file_list_env \<Rightarrow> string \<Rightarrow> console \<Rightarrow> console \<times> 'pt option" where
  "file_list_read_json le file_name c =
     (case fl_read_json le file_name of
        Inl message \<Rightarrow> (cerr (message @ nl) c, None)
      | Inr pt \<Rightarrow> (c, Some pt))"

definition file_list_entry :: "'pt file_list_env \<Rightarrow> 'pt \<Rightarrow> (string \<times> string \<times> bool) option" where
  "file_list_entry le info =
     (case (fl_get_string le info ''source_path'', fl_get_string le info ''destination_path'', fl_get_bool le info ''detached'') of
        (Some source, Some destination, Some detached) \<Rightarrow> Some (source, destination, detached)
      | _ \<Rightarrow> None)"

definition file_list_for_each :: "'pt file_list_env \<Rightarrow> 'pt \<Rightarrow> (string \<times> string \<times> bool) list outcome" where
  "file_list_for_each le pt =
     (case fl_get_child le pt ''entries'' of
        Inl e \<Rightarrow> Inl e
      | Inr children \<Rightarrow> Inr (List.map_filter (file_list_entry le) children))"

definition restore_file_list ::
    "cmd_env \<Rightarrow> datastore_pb \<Rightarrow> datastore_flags \<Rightarrow> 'pt file_list_env \<Rightarrow> 'pt \<Rightarrow> string \<Rightarrow> transport
      \<Rightarrow> transport \<times> unit datastore_result option outcome" where
  "restore_file_list ce db fl le pt path_to_backup t =
     (case file_list_for_each le pt of
        Inl e \<Rightarrow> (t, Inl e)
      | Inr es \<Rightarrow>
          send_datastore_command ce db (db_restore_begin db)
            (RestoreBegin \<lparr>rb_source = entries (path_to_backup, es), rb_keep_backup = False, rb_label = FLAGS_backup_label fl\<rparr>) t)"

definition tgctl_restore_backup_use_file_list ::
    "cmd_env \<Rightarrow> datastore_pb \<Rightarrow> datastore_flags \<Rightarrow> terminal \<Rightarrow> 'pt file_list_env \<Rightarrow> string \<Rightarrow> console \<Rightarrow> command_result" where
  "tgctl_restore_backup_use_file_list ce db fl tm le path_to_backup c =
     (case confirmed fl tm c of
        None \<Rightarrow> None
      | Some (c, False) \<Rightarrow> Some (c, Inr rc_err)
      | Some (c, True) \<Rightarrow>
          (case file_list_read_json le (FLAGS_use_file_list fl) (open_monitor (cm_monitor ce \<noteq> []) c) of
             (c, None) \<Rightarrow>
               Some (finish reason_absent
                       (cerr (''error occurred in using the file_list ('' @ FLAGS_use_file_list fl @ '')'' @ nl) c), Inr rc_err)
           | (c, Some pt) \<Rightarrow>
               service_command ce (service_id_datastore db) (report_no_connection (cm_auth ce))
                 (restore_file_list ce db fl le pt path_to_backup) on_restore
                 (if \<not> FLAGS__keep_backup fl
                  then cerr (''option --no-keep-backup is ignored when --use-file-list is specified'' @ nl) c
                  else c)))"

definition tgctl_restore_tag :: "cmd_env \<Rightarrow> datastore_pb \<Rightarrow> string \<Rightarrow> console \<Rightarrow> command_result" where
  "tgctl_restore_tag ce db tag c =
     service_command ce (service_id_datastore db) (report_no_connection (cm_auth ce))
       (send_datastore_command ce db (db_restore_begin db)
          (RestoreBegin \<lparr>rb_source = tag_name tag, rb_keep_backup = False, rb_label = []\<rparr>))
       on_restore c"

section \<open>Lemmas\<close>

abbreviation backup_of :: "string \<Rightarrow> string \<Rightarrow> string" where
  "backup_of location src \<equiv> path_append location (filename src)"

lemma filename_no_slash: "CHR ''/'' \<notin> set (filename p)"
  unfolding filename_def using set_takeWhileD by fastforce

lemma filename_hd: "filename p \<noteq> [] \<Longrightarrow> hd (filename p) \<noteq> CHR ''/''"
  using filename_no_slash [of p] hd_in_set by metis

lemma filename_after_slash: "CHR ''/'' \<notin> set q \<Longrightarrow> filename (p @ ''/'' @ q) = q"
  by (simp add: filename_def takeWhile_append takeWhile_eq_all_conv [THEN iffD2])

lemma backup_of_eq:
  "backup_of location src =
     (if location = [] \<or> last location = CHR ''/'' then location @ filename src else location @ ''/'' @ filename src)"
  using filename_hd [of src] by (auto simp: path_append_def)

lemma filename_backup_of: "filename (backup_of location src) = filename src"
proof (cases "location = []")
  case True
  have "filename (filename src) = filename src"
    using filename_no_slash [of src] by (simp add: filename_def takeWhile_eq_all_conv [THEN iffD2])
  then show ?thesis using True by (simp add: backup_of_eq)
next
  case False
  have "\<exists>dir. backup_of location src = dir @ ''/'' @ filename src"
  proof (cases "last location = CHR ''/''")
    case True
    then have "location = butlast location @ ''/''" using append_butlast_last_id [OF False] by simp
    then have "location @ filename src = butlast location @ ''/'' @ filename src" by (metis append.assoc)
    then show ?thesis using True by (auto simp: backup_of_eq)
  qed (use False in \<open>simp add: backup_of_eq\<close>)
  then show ?thesis using filename_after_slash filename_no_slash by metis
qed

lemma backup_of_eq_iff: "backup_of location f = backup_of location g \<longleftrightarrow> filename f = filename g"
  using filename_backup_of by metis

lemma copy_file_Inr:
  "copy_file fe src dst fs = (fs', Inr u) \<longleftrightarrow> (\<exists>data. fs src = Some data \<and> fs dst = None \<and> fs' = fs(dst \<mapsto> data)
     \<and> fe_create fe dst data = Written)"
  by (auto simp: copy_file_def Let_def split: option.splits write_result.splits if_splits)

lemma copy_file_grows: "copy_file fe src dst fs = (fs', r) \<Longrightarrow> fs \<subseteq>\<^sub>m fs'"
  by (auto simp: copy_file_def Let_def map_le_def split: option.splits write_result.splits if_splits)

text \<open>A step of the loop that goes on.\<close>

lemma copy_files_Cons_cases:
  assumes "copy_files fe m location tot completed (src # files) fs t = (fs', t', r)"
    and "copy_file fe src (backup_of location src) fs = (fs1, q)"
  shows "(fs' = fs1 \<and> t' = t \<and> (\<exists>e. r = Inl e))
    \<or> (q = Inr () \<and> (\<exists>completed' t1. copy_files fe m location tot completed' files fs1 t1 = (fs', t', r)
         \<and> (t1 = t \<or> (\<exists>text'. t1 = monitor_put (M_progress text') t))))"
  using assms by (auto simp: Let_def split: sum.splits if_splits)

lemma tr_simps [simp]:
  "tr_requests (monitor_put x t) = tr_requests t" "tr_requests (cerr s t) = tr_requests t" "tr_requests (tr_close t) = tr_requests t"
  "con_monitor (tr_close t) = con_monitor t"
  by (simp_all add: monitor_put_def cerr_def tr_close_def)

lemma copy_files_grows: "copy_files fe m location tot completed files fs t = (fs', t', r) \<Longrightarrow> fs \<subseteq>\<^sub>m fs'"
proof (induction files arbitrary: completed fs t)
  case (Cons src files)
  obtain fs1 q where copied: "copy_file fe src (backup_of location src) fs = (fs1, q)" by force
  from copy_files_Cons_cases [OF Cons.prems this] Cons.IH copy_file_grows [OF copied] show ?case
    by (auto intro: map_le_trans)
qed simp

lemma copy_files_log:
  "copy_files fe m location tot completed files fs t = (fs', t', r) \<Longrightarrow> open_log t \<Longrightarrow> open_log t' \<and> tr_requests t' = tr_requests t"
proof (induction files arbitrary: completed fs t)
  case (Cons src files)
  obtain fs1 q where copied: "copy_file fe src (backup_of location src) fs = (fs1, q)" by force
  from copy_files_Cons_cases [OF Cons.prems(1) this] Cons.IH Cons.prems(2) show ?case
    by (auto simp: open_log_data)
qed simp

definition copied :: "string \<Rightarrow> string list \<Rightarrow> files \<Rightarrow> files \<Rightarrow> bool" where
  "copied location sources fs fs' \<longleftrightarrow>
     distinct (map filename sources)
     \<and> (\<forall>src \<in> set sources. fs src \<noteq> None \<and> fs (backup_of location src) = None \<and> fs' (backup_of location src) = fs src)
     \<and> (\<forall>p. p \<notin> backup_of location ` set sources \<longrightarrow> fs' p = fs p)"

lemma copied_Cons:
  assumes "fs src = Some data" "fs (backup_of location src) = None"
    and "copied location files (fs(backup_of location src \<mapsto> data)) fs'"
  shows "copied location (src # files) fs fs'"
proof -
  let ?d = "backup_of location src" and ?fs = "fs(backup_of location src \<mapsto> data)"
  have rest: "?fs f \<noteq> None" "?fs (backup_of location f) = None" "fs' (backup_of location f) = ?fs f" if "f \<in> set files" for f
    using assms(3) that by (auto simp: copied_def)
  have neq: "filename f \<noteq> filename src" "f \<noteq> ?d" if "f \<in> set files" for f
    using rest(2) [OF that] backup_of_eq_iff [of location f src] filename_backup_of [of location src]
    by (auto split: if_splits)
  have d: "?d \<notin> backup_of location ` set files"
  proof
    assume "?d \<in> backup_of location ` set files"
    then obtain f where "f \<in> set files" "?d = backup_of location f" by blast
    then show False using neq(1) [of f] backup_of_eq_iff [of location src f] by simp
  qed
  then have "fs' ?d = Some data" using assms(3) by (auto simp: copied_def)
  moreover have "\<forall>f \<in> set files. fs f \<noteq> None \<and> fs (backup_of location f) = None \<and> fs' (backup_of location f) = fs f"
    using rest neq backup_of_eq_iff [of location _ src] by (auto split: if_splits)
  ultimately show ?thesis
    using assms neq by (auto simp: copied_def)
qed

lemma copy_files_copied: "copy_files fe m location tot completed files fs t = (fs', t', Inr u) \<Longrightarrow> copied location files fs fs'"
proof (induction files arbitrary: completed fs t)
  case (Cons src files)
  obtain fs1 q where c: "copy_file fe src (backup_of location src) fs = (fs1, q)" by force
  from copy_files_Cons_cases [OF Cons.prems this] obtain completed' t1
    where q: "q = Inr ()" and run: "copy_files fe m location tot completed' files fs1 t1 = (fs', t', Inr u)" by auto
  from q c obtain data where "fs src = Some data" "fs (backup_of location src) = None" "fs1 = fs(backup_of location src \<mapsto> data)"
    using copy_file_Inr by metis
  then show ?case using Cons.IH [OF run] copied_Cons by blast
qed (simp add: copied_def)

lemma send_datastore_command_keeps: "keeps_monitor (send_datastore_command ce db parse command)"
  unfolding send_datastore_command_def by (rule send_keeps_monitor)

lemma on_backup_end_log: "on_backup_end responseEnd t = (t', r) \<Longrightarrow> con_monitor t' = con_monitor t"
  by (auto simp: on_backup_end_def split: option.splits datastore_result.splits)

lemma backup_end_log:
  assumes "backup_end ce db backup_id t = (t', r)"
  shows "con_monitor t' = con_monitor t"
proof -
  obtain t1 q where sent: "send_datastore_command ce db (db_backup_end db) (BackupEnd backup_id) t = (t1, q)" by force
  have "con_monitor t1 = con_monitor t" using send_datastore_command_keeps sent unfolding keeps_monitor_def by blast
  then show ?thesis using assms on_backup_end_log by (fastforce simp: backup_end_def sent split: sum.splits)
qed

text \<open>The run of \<open>backup_files\<close>, in the three ways it can end.\<close>

lemma backup_files_cases:
  assumes "backup_files ce db fe location backup_id sources fs t = (t', fs', r)"
  obtains (size) e where "t' = t" "fs' = fs" "r = Inl e"
    | (copy) tot e where "copy_files fe (cm_monitor ce \<noteq> []) location tot 0 sources fs t = (fs', t', Inl e)" "r = Inl e"
    | (complete) tot t1 where "copy_files fe (cm_monitor ce \<noteq> []) location tot 0 sources fs t = (fs', t1, Inr ())"
        "backup_end ce db backup_id t1 = (t', r)"
proof (cases "if cm_monitor ce \<noteq> [] then total_size fe fs sources 0 else Inr 0")
  case (Inl e)
  then show ?thesis using assms by (intro size [of e]) (auto simp: backup_files_def Let_def split: if_splits)
next
  case (Inr tot)
  obtain fs1 t1 q where c: "copy_files fe (cm_monitor ce \<noteq> []) location tot 0 sources fs t = (fs1, t1, q)"
    using prod_cases3 by blast
  have run: "(case q of Inl e \<Rightarrow> (t1, fs1, Inl e) | Inr u \<Rightarrow> (case backup_end ce db backup_id t1 of (t, r) \<Rightarrow> (t, fs1, r))) = (t', fs', r)"
    using assms unfolding backup_files_def Let_def Inr by (simp add: c split: sum.splits)
  show ?thesis
  proof (cases q)
    case (Inl e)
    then show ?thesis using run c copy by simp
  next
    case (Inr u)
    then show ?thesis using run c complete by (auto split: prod.splits)
  qed
qed

text \<open>The run of \<open>backup_session\<close>: it ends before any file is touched, or goes on with the files of the response.\<close>

lemma backup_session_cases:
  assumes "backup_session ce db fe label location fs t = (t', fs', r)"
    and "send_datastore_command ce db (db_backup_begin db) (BackupBegin label) t = (t1, q)"
  obtains (early) "fs' = fs" "con_monitor t' = con_monitor t1" "r \<noteq> Inr (Inr ())"
    | (begun) backup_id sources where "q = Inr (Some (DS_success (backup_id, sources)))"
        "backup_files ce db fe location backup_id sources fs t1 = (t', fs', r)"
  using assms
  by (auto simp: backup_session_def split: sum.splits option.splits datastore_result.splits prod.splits)

lemma backup_session_log:
  assumes "backup_session ce db fe label location fs t = (t', fs', r)" "open_log t"
  shows "open_log t' \<and> fs \<subseteq>\<^sub>m fs'"
proof -
  obtain t1 q where sent: "send_datastore_command ce db (db_backup_begin db) (BackupBegin label) t = (t1, q)" by force
  have "con_monitor t1 = con_monitor t" using send_datastore_command_keeps sent unfolding keeps_monitor_def by blast
  then have t1: "open_log t1" using assms(2) open_log_cong [of t1 t] by simp
  from assms(1) sent show ?thesis
  proof (cases rule: backup_session_cases)
    case early
    then show ?thesis using t1 open_log_cong [of t' t1] by simp
  next
    case (begun backup_id sources)
    from begun(2) show ?thesis
    proof (cases rule: backup_files_cases)
      case size
      then show ?thesis using t1 by simp
    next
      case (copy tot e)
      then show ?thesis using copy_files_log [OF copy(1) t1] copy_files_grows [OF copy(1)] by simp
    next
      case (complete tot t2)
      then show ?thesis
        using copy_files_log [OF complete(1) t1] copy_files_grows [OF complete(1)] backup_end_log [OF complete(2)]
          open_log_cong [of t' t2] by simp
    qed
  qed
qed

lemma prompt_loop_True:
  "prompt_loop input = Some True \<Longrightarrow> \<exists>pre y post. input = pre @ y # post \<and> y \<in> {CHR ''y'', CHR ''Y''}
     \<and> set pre \<inter> {CHR ''y'', CHR ''Y'', CHR ''n'', CHR ''N''} = {}"
proof (induction input)
  case (Cons ch input)
  show ?case
  proof (cases "ch \<in> {CHR ''y'', CHR ''Y''}")
    case True
    then show ?thesis by (intro exI [of _ "[]"]) auto
  next
    case False
    then have "prompt_loop input = Some True" and no: "ch \<notin> {CHR ''n'', CHR ''N''}" using Cons.prems by (auto split: if_splits)
    then obtain pre y post where "input = pre @ y # post \<and> y \<in> {CHR ''y'', CHR ''Y''}
        \<and> set pre \<inter> {CHR ''y'', CHR ''Y'', CHR ''n'', CHR ''N''} = {}" using Cons.IH by blast
    then show ?thesis using False no by (intro exI [of _ "ch # pre"]) auto
  qed
qed simp

interpretation described: exception_handler report_what
  by unfold_locales (auto simp: report_what_def intro!: exI open_log_finish split: exn.splits)

lemma backup_session_ok:
  assumes "backup_session ce db fe label location fs t = (t', fs', Inr (Inr ()))" and "open_log t"
  shows "\<exists>backup_id sources t1 t2 t3.
      send_datastore_command ce db (db_backup_begin db) (BackupBegin label) t = (t1, Inr (Some (DS_success (backup_id, sources))))
    \<and> distinct (map filename sources)
    \<and> (\<forall>src \<in> set sources. fs src \<noteq> None \<and> fs (path_append location (filename src)) = None
         \<and> fs' (path_append location (filename src)) = fs src)
    \<and> (\<forall>p. p \<notin> (\<lambda>src. path_append location (filename src)) ` set sources \<longrightarrow> fs' p = fs p)
    \<and> tr_requests t2 = tr_requests t1
    \<and> send_datastore_command ce db (db_backup_end db) (BackupEnd backup_id) t2 = (t3, Inr (Some (DS_success ())))
    \<and> t' = tr_close t3"
proof -
  obtain t1 q where sent: "send_datastore_command ce db (db_backup_begin db) (BackupBegin label) t = (t1, q)" by force
  have "con_monitor t1 = con_monitor t" using send_datastore_command_keeps sent unfolding keeps_monitor_def by blast
  then have t1: "open_log t1" using assms(2) open_log_cong [of t1 t] by simp
  from assms(1) sent obtain backup_id sources where q: "q = Inr (Some (DS_success (backup_id, sources)))"
    and run: "backup_files ce db fe location backup_id sources fs t1 = (t', fs', Inr (Inr ()))"
    by (cases rule: backup_session_cases) auto
  from run obtain tot t2 where copy: "copy_files fe (cm_monitor ce \<noteq> []) location tot 0 sources fs t1 = (fs', t2, Inr ())"
    and end': "backup_end ce db backup_id t2 = (t', Inr (Inr ()))"
    by (cases rule: backup_files_cases) auto
  obtain t3 where t3: "send_datastore_command ce db (db_backup_end db) (BackupEnd backup_id) t2 = (t3, Inr (Some (DS_success ())))"
      "t' = tr_close t3"
    using end' by (auto simp: backup_end_def on_backup_end_def split: prod.splits sum.splits option.splits datastore_result.splits)
  have "copied location sources fs fs'" using copy_files_copied [OF copy] .
  moreover have "tr_requests t2 = tr_requests t1" using copy_files_log [OF copy t1] by simp
  ultimately show ?thesis using sent q t3 unfolding copied_def by blast
qed

lemma backup_create_run:
  assumes "tgctl_backup_create ce db fe fl path fs c = Some (fs', c', r)"
  obtains (refused) c1 e where "fs' = fs" "open_log c1" "conclude report_what (c1, Inl e) = (c', r)"
    | (session) t t' res where "open_log t" "open_log t'" "fs \<subseteq>\<^sub>m fs'"
        "backup_session ce db fe (FLAGS_backup_label fl) path fs t = (t', fs', res)"
        "conclude report_what (console.truncate t', res) = (c', r)" "con_monitor t = con_monitor (open_monitor (cm_monitor ce \<noteq> []) c)"
proof -
  let ?c = "open_monitor (cm_monitor ce \<noteq> []) c"
  obtain c1 q where o: "transport_open (cm_session ce) (cm_auth ce) (service_id_datastore db) ?c = Some (c1, q)"
    using assms by (auto simp: tgctl_backup_create_def with_transport_def split: option.splits)
  have m: "con_monitor c1 = con_monitor ?c" "\<And>t. q = Inr t \<Longrightarrow> con_monitor t = con_monitor ?c"
    using transport_open_monitor [OF o] by simp_all
  have opened: "open_log ?c" by simp
  show ?thesis
  proof (cases q)
    case (Inl e)
    have "open_log c1" using m(1) opened open_log_cong by metis
    then show ?thesis
      using assms o Inl by (intro refused [of c1 e]) (simp_all add: tgctl_backup_create_def with_transport_def)
  next
    case (Inr t)
    obtain t' fs1 res where b: "backup_session ce db fe (FLAGS_backup_label fl) path fs t = (t', fs1, res)" using prod_cases3 by blast
    have t: "open_log t" using m(2) [OF Inr] opened open_log_cong by metis
    have "fs1 = fs'" "conclude report_what (console.truncate t', res) = (c', r)"
      using assms o Inr b by (simp_all add: tgctl_backup_create_def with_transport_def)
    then show ?thesis using b t m(2) [OF Inr] backup_session_log [OF b t] by (intro session [of t t' res]) simp_all
  qed
qed

section \<open>Properties\<close>

text \<open>C12: a backup that succeeds is complete: the server began a backup and named the files to copy; each of them existed, no
  two have the same name, each was copied to a path that did not exist before and has the content of its source, and no other
  file changed; between the request that began the backup and the one that ended it, with the id the server gave, no request
  was sent, and the server confirmed the end.\<close>

theorem backup_copies_all:
  assumes "backup_session ce db fe label location fs t = (t', fs', Inr (Inr ()))" and "open_log t"
  shows "\<exists>backup_id sources t1 t2 t3.
      send_datastore_command ce db (db_backup_begin db) (BackupBegin label) t = (t1, Inr (Some (DS_success (backup_id, sources))))
    \<and> distinct (map filename sources)
    \<and> (\<forall>src \<in> set sources. fs src \<noteq> None \<and> fs (path_append location (filename src)) = None
         \<and> fs' (path_append location (filename src)) = fs src)
    \<and> (\<forall>p. p \<notin> (\<lambda>src. path_append location (filename src)) ` set sources \<longrightarrow> fs' p = fs p)
    \<and> tr_requests t2 = tr_requests t1
    \<and> send_datastore_command ce db (db_backup_end db) (BackupEnd backup_id) t2 = (t3, Inr (Some (DS_success ())))
    \<and> t' = tr_close t3"
  using backup_session_ok [OF assms] .

text \<open>The command \<^verbatim>\<open>backup create\<close>, whatever becomes of it, leaves every file that existed as it was; when it returns, the monitor
  file is complete, and says success exactly when the command returns ok.\<close>

theorem backup_create_keeps_files:
  assumes "tgctl_backup_create ce db fe fl path fs c = Some (fs', c', r)"
  shows "fs \<subseteq>\<^sub>m fs' \<and> (\<forall>rc. r = Inr rc \<longrightarrow> (\<exists>reason. finished_log reason c' \<and> (rc = rc_ok \<longrightarrow> reason = reason_absent)))"
proof -
  have log: "\<exists>reason. finished_log reason c' \<and> (rc = rc_ok \<longrightarrow> reason = reason_absent)"
    if "open_log c1" "conclude report_what (c1, res) = (c', r)" "r = Inr rc" for c1 res rc
    using described.conclude_logs [OF that(1)] that by simp
  from assms show ?thesis
  proof (cases rule: backup_create_run)
    case (refused c1 e)
    then show ?thesis using log [OF refused(2,3)] by simp
  next
    case (session t t' res)
    have "open_log (console.truncate t')" using session(2) open_log_cong [of "console.truncate t'" t'] by (simp add: console.truncate_def)
    then show ?thesis using session(3,5) log by blast
  qed
qed


lemma consumers_log: "logs_data on_estimate" "logs_data on_restore"
  by (auto simp: logs_data_def on_estimate_def on_restore_def ends_up_with_def split: option.splits datastore_result.splits)

lemma restore_file_list_keeps: "keeps_monitor (restore_file_list ce db fl le pt path)"
  using send_datastore_command_keeps [of ce db "db_restore_begin db"]
  unfolding keeps_monitor_def restore_file_list_def by (auto split: sum.splits)

text \<open>When the estimate or a restore that was confirmed returns, its monitor file is complete.\<close>

lemma restore_commands_complete_log:
  assumes "tgctl_backup_estimate ce db c = Some (c', Inr rc) \<or> tgctl_restore_tag ce db tag c = Some (c', Inr rc)
    \<or> (FLAGS_force fl \<and> tgctl_restore_backup ce db fl tm path c = Some (c', Inr rc))
    \<or> (FLAGS_force fl \<and> tgctl_restore_backup_use_file_list ce db fl tm le path c = Some (c', Inr rc))"
  shows "\<exists>reason. finished_log reason c' \<and> (rc = rc_ok \<longrightarrow> reason = reason_absent)"
proof -
  note sent = unconnected.service_command_logs [OF send_datastore_command_keeps]
    unconnected.service_command_logs [OF restore_file_list_keeps consumers_log(2)]
  show ?thesis
    using assms
  proof (elim disjE conjE)
    assume "FLAGS_force fl" "tgctl_restore_backup_use_file_list ce db fl tm le path c = Some (c', Inr rc)"
    note run = this [unfolded tgctl_restore_backup_use_file_list_def confirmed_def file_list_read_json_def]
    show ?thesis
    proof (cases "fl_read_json le (FLAGS_use_file_list fl)")
      case (Inl message)
      then show ?thesis using run by (auto intro!: exI [of _ reason_absent] open_log_finish)
    next
      case (Inr pt)
      then show ?thesis using run sent(2) by (simp split: if_splits)
    qed
  qed (use sent(1) [OF consumers_log(1)] sent(1) [OF consumers_log(2)] in
        \<open>auto simp: tgctl_backup_estimate_def tgctl_restore_tag_def tgctl_restore_backup_def confirmed_def\<close>)
qed

text \<open>A file list that cannot be read: the command fails, and the monitor file says success.\<close>

lemma unreadable_file_list_logged_as_success:
  assumes "FLAGS_force fl" "cm_monitor ce \<noteq> []" "fl_read_json le (FLAGS_use_file_list fl) = Inl message"
  shows "\<exists>c'. tgctl_restore_backup_use_file_list ce db fl tm le path c = Some (c', Inr rc_err)
    \<and> con_monitor c' = Some [M_start, M_finish reason_absent]"
  using assms by (simp add: tgctl_restore_backup_use_file_list_def confirmed_def file_list_read_json_def)

text \<open>A backup of two files: the server's answer is the same for every request.\<close>

definition sample_datastore_pb :: datastore_pb where
  "sample_datastore_pb =
     \<lparr>db_serialize = (\<lambda>r. [1]), db_backup_begin = (\<lambda>b. Some (DS_success (8, [''db/x'', ''log/y'']))),
      db_backup_end = (\<lambda>b. Some (DS_success ())), db_backup_estimate = (\<lambda>b. None), db_restore_begin = (\<lambda>b. None),
      service_id_datastore = 2\<rparr>"

definition sample_file_env :: file_env where
  "sample_file_env =
     \<lparr>fe_status = (\<lambda>p. directory True), fe_create = (\<lambda>p data. Written), fe_what = (\<lambda>op ps. op), fe_ratio = (\<lambda>m n. [])\<rparr>"

definition sample_files :: files where
  "sample_files = [''db/x'' \<mapsto> ''one'', ''log/y'' \<mapsto> ''two'']"

lemma sample_send:
  assumes "cm_session ce = cm_session online_cmd_env" "tr_slots t = replicate slot_size slot_new"
  shows "\<exists>k m. send_datastore_command ce sample_datastore_pb parse command t =
    (t\<lparr>tr_requests := tr_requests t @ [(k, m)]\<rparr>, Inr (parse [3]))"
proof -
  obtain m where m: "request_message sample_protobuf (tr_header t) (datastore_class sample_datastore_pb)
      (rq_set_version (datastore_class sample_datastore_pb) 0 0 \<lparr>dr_version = (0, 0), dr_command = command\<rparr>) = Some m"
    using online_message [of "datastore_class sample_datastore_pb"] by (auto simp: datastore_class_def sample_datastore_pb_def)
  obtain k where "exchange (\<lambda>reqs. Inr [1, 2, 1, 3]) m t = (t\<lparr>tr_requests := tr_requests t @ [(k, m)]\<rparr>, Inr [1, 2, 1, 3])"
    using online_exchange [OF assms(2), of m] by blast
  then show ?thesis
    by (intro exI [of _ k] exI [of _ m])
       (simp add: send_datastore_command_def send_datastore_def DATASTORE_MESSAGE_VERSION_def assms(1) online_cmd_env_def m online_response)
qed

lemma sample_copy:
  "\<exists>t'. copy_files sample_file_env b ''bk'' tot 0 [''db/x'', ''log/y''] sample_files t =
      (sample_files(''bk/x'' \<mapsto> ''one'', ''bk/y'' \<mapsto> ''two''), t', Inr ()) \<and> tr_slots t' = tr_slots t"
proof -
  have names: "backup_of ''bk'' ''db/x'' = ''bk/x''" "backup_of ''bk'' ''log/y'' = ''bk/y''"
    by (simp_all add: path_append_def filename_def)
  show ?thesis
    by (simp add: names copy_file_def file_size_def sample_file_env_def sample_files_def monitor_put_def Let_def)
qed

lemma sample_backup:
  assumes ce: "cm_session ce = cm_session online_cmd_env" and t: "tr_slots t = replicate slot_size slot_new"
  shows "\<exists>t'. backup_session ce sample_datastore_pb sample_file_env label ''bk'' sample_files t =
     (t', sample_files(''bk/x'' \<mapsto> ''one'', ''bk/y'' \<mapsto> ''two''), Inr (Inr ()))"
proof -
  let ?m = "cm_monitor ce \<noteq> []"
  have answers: "db_backup_begin sample_datastore_pb [3] = Some (DS_success (8, [''db/x'', ''log/y'']))"
    "db_backup_end sample_datastore_pb [3] = Some (DS_success ())" by (simp_all add: sample_datastore_pb_def)
  obtain t1 where t1: "send_datastore_command ce sample_datastore_pb (db_backup_begin sample_datastore_pb)
      (BackupBegin label) t = (t1, Inr (Some (DS_success (8, [''db/x'', ''log/y'']))))" and s1: "tr_slots t1 = replicate slot_size slot_new"
    using sample_send [OF ce t, of "db_backup_begin sample_datastore_pb" "BackupBegin label"] t unfolding answers by auto
  obtain tot where tot: "(if ?m then total_size sample_file_env sample_files [''db/x'', ''log/y''] 0 else Inr 0) = Inr tot"
    by (cases ?m) (simp_all add: file_size_def sample_files_def)
  obtain t2 where c: "copy_files sample_file_env ?m ''bk'' tot 0 [''db/x'', ''log/y''] sample_files t1 =
      (sample_files(''bk/x'' \<mapsto> ''one'', ''bk/y'' \<mapsto> ''two''), t2, Inr ())"
    and t2: "tr_slots t2 = replicate slot_size slot_new" using sample_copy [of ?m tot t1] s1 by auto
  obtain t3 where t3: "backup_end ce sample_datastore_pb 8 t2 = (t3, Inr (Inr ()))"
    using sample_send [OF ce t2, of "db_backup_end sample_datastore_pb" "BackupEnd 8"] unfolding answers
    by (auto simp: backup_end_def on_backup_end_def)
  show ?thesis
    by (simp only: backup_session_def t1 backup_files_def Let_def tot c t3 prod.case sum.case option.case datastore_result.case) simp
qed

definition sample_datastore_flags :: datastore_flags where
  "sample_datastore_flags =
     \<lparr>FLAGS_force = False, FLAGS__keep_backup = True, FLAGS_keep_backup = True, FLAGS_use_file_list = [], FLAGS_backup_label = []\<rparr>"

lemma sample_backup_create:
  assumes ce: "cm_session ce = cm_session online_cmd_env" "cm_auth ce = online_auth_env"
  shows "\<exists>c'. tgctl_backup_create ce sample_datastore_pb sample_file_env sample_datastore_flags ''bk'' sample_files c =
    Some (sample_files(''bk/x'' \<mapsto> ''one'', ''bk/y'' \<mapsto> ''two''), c', Inr rc_ok)"
proof -
  have auth: "cm_auth online_cmd_env = online_auth_env" by (simp add: online_cmd_env_def)
  let ?c = "open_monitor (cm_monitor ce \<noteq> []) c"
  obtain c1 t where o: "transport_open (cm_session ce) (cm_auth ce) (service_id_datastore sample_datastore_pb) ?c = Some (c1, Inr t)"
    and t: "tr_slots t = replicate slot_size slot_new"
    using online_open [of "service_id_datastore sample_datastore_pb" ?c] by (auto simp: ce auth)
  obtain t' where "backup_session ce sample_datastore_pb sample_file_env (FLAGS_backup_label sample_datastore_flags) ''bk'' sample_files t =
     (t', sample_files(''bk/x'' \<mapsto> ''one'', ''bk/y'' \<mapsto> ''two''), Inr (Inr ()))"
    using sample_backup [OF ce(1) t] by blast
  then show ?thesis by (simp add: tgctl_backup_create_def with_transport_def o conclude_def)
qed

theorem backup_copies_all_witness:
  "\<exists>t' fs'. backup_session online_cmd_env sample_datastore_pb sample_file_env [] ''bk'' sample_files sample_transport =
     (t', fs', Inr (Inr ())) \<and> tr_closed t'"
proof -
  have "tr_slots sample_transport = replicate slot_size slot_new" by (simp add: sample_transport_def)
  then obtain t' fs' where run: "backup_session online_cmd_env sample_datastore_pb sample_file_env [] ''bk'' sample_files sample_transport =
     (t', fs', Inr (Inr ()))" using sample_backup [of online_cmd_env sample_transport "[]"] by blast
  have "open_log sample_transport" by (simp add: sample_transport_def open_log_def)
  from backup_copies_all [OF run this] obtain t3 where "t' = tr_close t3" by blast
  then show ?thesis using run by (simp add: tr_close_def)
qed

theorem backup_create_keeps_files_witness:
  "\<exists>fs' c' r. tgctl_backup_create online_cmd_env sample_datastore_pb sample_file_env sample_datastore_flags ''bk'' sample_files
       fresh_console = Some (fs', c', r) \<and> fs' ''db/x'' = Some ''one''"
proof -
  obtain fs' c' r where run: "tgctl_backup_create online_cmd_env sample_datastore_pb sample_file_env sample_datastore_flags ''bk''
      sample_files fresh_console = Some (fs', c', r)"
    using sample_backup_create [of online_cmd_env fresh_console] by (auto simp: online_cmd_env_def)
  then have "sample_files \<subseteq>\<^sub>m fs'" using backup_create_keeps_files by blast
  moreover have "sample_files ''db/x'' = Some ''one''" by (simp add: sample_files_def)
  ultimately have "fs' ''db/x'' = Some ''one''" by (metis domI map_le_def)
  then show ?thesis using run by blast
qed


end
