(* ===== verification/Altimeter_Commands.thy ===== *)
theory Altimeter_Commands
  imports Service_Command
begin

section \<open>\<^verbatim>\<open>tgctl altimeter\<close>\<close>

text \<open>
  \<^verbatim>\<open>src/tateyama/altimeter/altimeter.cpp\<close>: switching the event log and the audit log on and off, their levels, the
  duration from which statements are reported, and the rotation of the log files.  The classes of the messages are the fields
  of \<open>altimeter_pb\<close>.
\<close>

record log_settings =
  ls_enabled :: "bool option"
  ls_level :: "nat option"
  ls_statement_duration :: "nat option"

datatype log_category = UNKNOWN_CATEGORY | EVENT | AUDIT

datatype altimeter_command =
    Configure (event_log: "log_settings option") (audit_log: "log_settings option")
  | LogRotate log_category

record altimeter_request =
  ar_version :: "nat \<times> nat"
  ar_command :: altimeter_command

record altimeter_pb =
  ab_serialize :: "altimeter_request \<Rightarrow> byte list"
  ab_configure :: "byte list \<Rightarrow> unit result_case option"
  ab_log_rotate :: "byte list \<Rightarrow> unit result_case option"
  service_id_altimeter :: nat

definition altimeter_class :: "altimeter_pb \<Rightarrow> altimeter_request request_class" where
  "altimeter_class ab =
     \<lparr>rq_set_version = (\<lambda>major minor r. r\<lparr>ar_version := (major, minor)\<rparr>), rq_serialize = ab_serialize ab\<rparr>"

definition default_settings :: log_settings where
  "default_settings = \<lparr>ls_enabled = None, ls_level = None, ls_statement_duration = None\<rparr>"

text \<open>\<open>std::stoul\<close>: a sign is allowed, and a negative number is taken modulo \<open>2 ^ 64\<close>.\<close>

definition stoul :: "string \<Rightarrow> nat outcome" where
  "stoul s =
     (let t = dropWhile is_space s;
          negative = (t \<noteq> [] \<and> hd t = CHR ''-'');
          u = (if t \<noteq> [] \<and> (hd t = CHR ''-'' \<or> hd t = CHR ''+'') then tl t else t);
          ds = takeWhile is_digit u;
          v = digits_value ds
      in if ds = [] \<or> u64_limit \<le> v then Inl (Std_error ''stoul'')
         else Inr (if negative then u64_sub 0 v else v))"

text \<open>A request or the exception thrown while it is made, after the session has been opened.\<close>

definition altimeter_call ::
    "cmd_env \<Rightarrow> altimeter_pb \<Rightarrow> (byte list \<Rightarrow> unit result_case option) \<Rightarrow> altimeter_command outcome \<Rightarrow> transport
      \<Rightarrow> transport \<times> unit result_case option outcome" where
  "altimeter_call ce ab parse request t =
     (case request of
        Inl e \<Rightarrow> (t, Inl e)
      | Inr command \<Rightarrow>
          send_altimeter (se_protobuf (cm_session ce)) (se_answer (cm_session ce)) (altimeter_class ab) parse
            \<lparr>ar_version = (0, 0), ar_command = command\<rparr> t)"

definition post_processing :: "string \<Rightarrow> unit result_case option \<Rightarrow> console \<Rightarrow> console \<times> reason" where
  "post_processing sub_command response_opt c =
     (case response_opt of
        Some (kSuccess u) \<Rightarrow> (c, reason_absent)
      | Some (kError code' message) \<Rightarrow> (cerr (''altimeter '' @ sub_command @ '' error: '' @ message @ nl) c, reason_server)
      | Some RESULT_NOT_SET \<Rightarrow>
          (cerr (''altimeter '' @ sub_command @ '' returns illegal response'' @ nl) c, reason_payload_broken)
      | None \<Rightarrow> (cerr (''altimeter '' @ sub_command @ '' returns nullopt'' @ nl) c, reason_payload_broken))"

text \<open>The return value has \<open>err\<close> in both branches of its conditional.\<close>

definition run_altimeter ::
    "cmd_env \<Rightarrow> altimeter_pb \<Rightarrow> string \<Rightarrow> (byte list \<Rightarrow> unit result_case option) \<Rightarrow> altimeter_command outcome
      \<Rightarrow> console \<Rightarrow> command_result" where
  "run_altimeter ce ab sub_command parse request c =
     map_option
       (\<lambda>(c, r). case r of
          Inl e \<Rightarrow> report_no_connection (cm_auth ce) e c
        | Inr response_opt \<Rightarrow>
            (case post_processing sub_command response_opt c of
               (c, reason) \<Rightarrow> (finish reason c, Inr (if reason = reason_absent then rc_err else rc_err))))
       (with_transport ce (service_id_altimeter ab) (altimeter_call ce ab parse request)
          (open_monitor (cm_monitor ce \<noteq> []) c))"

definition illegal_type :: "string \<Rightarrow> exn" where
  "illegal_type name = Tgctl_error (runtime_error reason_internal (''illegal type for altimeter '' @ name))"

definition configure_log :: "string \<Rightarrow> string \<Rightarrow> log_settings \<Rightarrow> altimeter_command outcome" where
  "configure_log name type' settings =
     (if type' = ''event'' then Inr (Configure (Some settings) None)
      else if type' = ''audit'' then Inr (Configure None (Some settings))
      else Inl (illegal_type name))"

definition set_enabled :: "cmd_env \<Rightarrow> altimeter_pb \<Rightarrow> string \<Rightarrow> bool \<Rightarrow> console \<Rightarrow> command_result" where
  "set_enabled ce ab type' enabled c =
     run_altimeter ce ab ''set_enabled'' (ab_configure ab)
       (configure_log ''set_enabled'' type' (default_settings\<lparr>ls_enabled := Some enabled\<rparr>)) c"

definition set_log_level :: "cmd_env \<Rightarrow> altimeter_pb \<Rightarrow> string \<Rightarrow> string \<Rightarrow> console \<Rightarrow> command_result" where
  "set_log_level ce ab type' level c =
     run_altimeter ce ab ''set_log_level'' (ab_configure ab)
       (case stoul level of
          Inl e \<Rightarrow> Inl e
        | Inr l \<Rightarrow> configure_log ''set_log_level'' type' (default_settings\<lparr>ls_level := Some l\<rparr>)) c"

definition set_statement_duration :: "cmd_env \<Rightarrow> altimeter_pb \<Rightarrow> string \<Rightarrow> console \<Rightarrow> command_result" where
  "set_statement_duration ce ab value' c =
     run_altimeter ce ab ''set_statement_duration'' (ab_configure ab)
       (case stoul value' of
          Inl e \<Rightarrow> Inl e
        | Inr v \<Rightarrow> Inr (Configure (Some (default_settings\<lparr>ls_statement_duration := Some v\<rparr>)) None)) c"

definition rotate_log :: "cmd_env \<Rightarrow> altimeter_pb \<Rightarrow> string \<Rightarrow> console \<Rightarrow> command_result" where
  "rotate_log ce ab type' c =
     run_altimeter ce ab ''rotete'' (ab_log_rotate ab)
       (if type' = ''event'' then Inr (LogRotate EVENT)
        else if type' = ''audit'' then Inr (LogRotate AUDIT)
        else Inl (illegal_type ''rotate'')) c"

section \<open>Properties\<close>

lemma altimeter_call_keeps: "keeps_monitor (altimeter_call ce ab parse request)"
  unfolding keeps_monitor_def altimeter_call_def send_altimeter_def
  by (auto dest!: send_service_session simp: session_of_def split: sum.splits)

lemma post_processing_log: "open_log c \<Longrightarrow> post_processing name r c = (c', reason) \<Longrightarrow> open_log c'"
  by (auto simp: post_processing_def split: option.splits result_case.splits)

lemma run_altimeter_result:
  assumes "run_altimeter ce ab name parse request c = Some (c', Inr rc)"
  shows "rc = rc_err \<and> (\<exists>reason. finished_log reason c')"
proof -
  let ?c = "open_monitor (cm_monitor ce \<noteq> []) c"
  obtain c1 r where w: "with_transport ce (service_id_altimeter ab) (altimeter_call ce ab parse request) ?c = Some (c1, r)"
    using assms by (auto simp: run_altimeter_def)
  have log: "open_log c1"
    using with_transport_monitor [OF w altimeter_call_keeps] open_log_cong [of c1 ?c] by simp
  show ?thesis
  proof (cases r)
    case (Inl e)
    then have "report_no_connection (cm_auth ce) e c1 = (c', Inr rc)" using assms by (simp add: run_altimeter_def w)
    then show ?thesis using unconnected.ends_log [OF log] by blast
  next
    case (Inr response)
    obtain c2 reason where p: "post_processing name response c1 = (c2, reason)" by force
    then have "c' = finish reason c2" "rc = rc_err" using assms Inr by (simp_all add: run_altimeter_def w)
    then show ?thesis using open_log_finish [OF post_processing_log [OF log p], of reason] by blast
  qed
qed


lemma confirmed_request_returns_err:
  assumes "with_transport ce (service_id_altimeter ab) (altimeter_call ce ab parse request) (open_monitor (cm_monitor ce \<noteq> []) c)
     = Some (c1, Inr (Some (kSuccess ())))"
  shows "run_altimeter ce ab name parse request c = Some (finish reason_absent c1, Inr rc_err)"
  using assms by (simp add: run_altimeter_def post_processing_def)

lemma stoul_negative: "stoul ''-1'' = Inr (2 ^ 64 - 1)"
  by (simp add: stoul_def is_space_def is_digit_def digits_value_def digit_value_def u64_sub_def)


end
