(* ===== verification/Version.thy ===== *)
theory Version
  imports Process_Control
begin

section \<open>\<^verbatim>\<open>tgctl version\<close>\<close>

text \<open>
  \<^verbatim>\<open>src/tateyama/version/version.h\<close>.  \<open>read_json\<close> of Boost is a parameter: the message of the exception, or the string
  members of the object.  The regular files are a map from paths to contents.
\<close>

type_synonym json_reader = "string \<Rightarrow> string + (string \<Rightarrow> string option)"

definition do_show_version :: "json_reader \<Rightarrow> string \<Rightarrow> 'a console_scheme \<Rightarrow> 'a console_scheme \<times> return_code" where
  "do_show_version read_json stream c =
     (case read_json stream of
        Inl message \<Rightarrow> (cerr (''parse error : '' @ message @ nl) c, rc_err)
      | Inr pt \<Rightarrow>
          (case (pt ''name'', pt ''version'', pt ''date'') of
             (Some name, Some version, Some date) \<Rightarrow>
               (cout (name @ nl @ ''version: '' @ version @ nl @ ''date: '' @ date @ nl) c, rc_ok)
           | _ \<Rightarrow> (cerr (''json is incorrect to identify version'' @ nl) c, rc_err)))"

definition info_file_name_string :: string where
  "info_file_name_string = ''tsurugi-info.json''"

definition show_version ::
    "world \<Rightarrow> json_reader \<Rightarrow> (path \<rightharpoonup> string) \<Rightarrow> string \<Rightarrow> ctl \<Rightarrow> ctl \<times> return_code outcome" where
  "show_version w read_json files argv0 c =
     (case get_base_path w argv0 c of
        (c, Inl e) \<Rightarrow> (c, Inl e)
      | (c, Inr base_path) \<Rightarrow>
          (let info_file_path = path_append (path_append base_path ''lib'') info_file_name_string
           in case files info_file_path of
                Some stream \<Rightarrow> (case do_show_version read_json stream c of (c, rc) \<Rightarrow> (c, Inr rc))
              | None \<Rightarrow> (cerr ([CHR ''c'', CHR ''a'', CHR ''n'', CHR 0x27] @ ''t find '' @ info_file_path @ nl) c, Inr rc_err)))"

text \<open>The command returns ok exactly when the file names all three members, and then it prints them and no error.\<close>

lemma do_show_version_ok:
  "do_show_version read_json stream c = (c', rc_ok) \<longleftrightarrow>
     (\<exists>pt name version date. read_json stream = Inr pt \<and> pt ''name'' = Some name \<and> pt ''version'' = Some version
        \<and> pt ''date'' = Some date
        \<and> c' = cout (name @ nl @ ''version: '' @ version @ nl @ ''date: '' @ date @ nl) c)"
  by (auto simp: do_show_version_def split: sum.splits option.splits)

end
