(* ===== verification/Help_Text.thy ===== *)
theory Help_Text
  imports Console
begin

section \<open>The help text\<close>

text \<open>
  \<^verbatim>\<open>src/tateyama/tgctl/help_text.h\<close>: the text of \<^verbatim>\<open>tgctl --help\<close>, line by line.  The argument tells whether
  \<^verbatim>\<open>ENABLE_ALTIMETER\<close> is defined.
\<close>

definition help_text_lines :: "bool \<Rightarrow> string list" where
  "help_text_lines altimeter =
     [''usage: tgctl [--version]'',
      ''             [--help]'',
      ''             [<subcommand> [<args>] [<options>]]'',
      [],
      ''These are common options for various subcommands:'',
      ''    --conf (the file name of the configuration) type: string default: '' @ [CHR 0x22] @ [CHR 0x22],
      ''    --quiet (do not display command execution results on the console) type: bool default: false'',
      ''    --monitor (the file name to which monitoring info. is to be output) type: string default: '' @ [CHR 0x22] @ [CHR 0x22],
      ''    --auth (--no-auth when authentication is not used) type: bool default: true'',
      ''    --auth_token (authentication token) type: string default: '' @ [CHR 0x22] @ [CHR 0x22],
      ''    --credentials (path to credentials.json) type: string default: '' @ [CHR 0x22] @ [CHR 0x22],
      [],
      ''Subcommands:'',
      ''  start : start a tsurugidb process up.'',
      ''    <args>'',
      ''      none'',
      ''    <options>'',
      ''      --timeout (timeout for tgctl start in second, no timeout control takes place if 0 is specified) type: int32 default: 10'',
      ''      --quiesce (invoke in quiesce mode) type: bool default: false'',
      ''      --maintenance_server (invoke in maintenance_server mode) type: bool default: false'',
      ''    the following options are to specify how to handle tsurugidb log'',
      ''      --logtostderr (log messages go to stderr instead of logfiles) type: bool default: false'',
      ''      --stderrthreshold (log messages at or above this level are copied to stderr in addition to logfiles.  This flag obsoletes --alsologtostderr.) type: int32 default: 2'',
      ''      --minloglevel (Messages logged at a lower level than this don't actually get logged anywhere) type: int32 default: 0'',
      ''      --log_dir (If specified, logfiles are written into this directory instead of the default logging directory.) type: string default: '' @ [CHR 0x22] @ [CHR 0x22],
      ''      --max_log_size (approx. maximum log file size (in MB). A value of 0 will be silently overridden to 1.) type: int32 default: 1800'',
      ''      --v (Show all VLOG(m) messages for m <= this. Overridable by --vmodule.)  type: int32 default: 0'',
      ''      --logbuflevel (Buffer log messages logged at this level or lower (-1 meanss don't buffer; 0 means buffer INFO only; ...)) type: int32 default: 0'',
      [],
      ''  shutdown : shutdown the tsurugidb.'',
      ''    <args>'',
      ''      none'',
      ''    <options>'',
      ''      --timeout (timeout for tgctl shutdown in second, no timeout control takes place if 0 is specified) type: int32 default: 300'',
      ''      --forceful (forceful shutdown) type: bool default: false'',
      ''      --graceful (graceful shutdown) type: bool default: false'',
      [],
      ''  kill : kill the tsurugidb process.'',
      ''    <args>'',
      ''      none'',
      ''    <options>'',
      ''      --timeout (timeout for tgctl kill in second, no timeout control takes place if 0 is specified) type: int32 default: 10'',
      [],
      ''  status : inquire the operating status of tsurugidb'',
      ''    <args>'',
      ''      none'',
      ''    <options>'',
      ''      none'',
      [],
      ''  backup create : create a backup of the database'',
      ''    <args>'',
      ''      path : backup directory'',
      ''    <options>'',
      ''      --label (label for this operation) type: string default: '' @ [CHR 0x22] @ [CHR 0x22],
      [],
      ''  restore backup : restore database from the backup'',
      ''    <args>'',
      ''      path : backup directory'',
      ''    <options>'',
      ''      --keep_backup (backup files will be kept) type: bool default: true'',
      ''      --force (execute without prompting for confirmation) type: bool default: false'',
      ''      --use-file-list </path/to/file-list> (target files for backup are specified by a json file describing the file list) type: string default: '' @ [CHR 0x22] @ [CHR 0x22],
      ''      --label (label for this operation) type: string default: '' @ [CHR 0x22] @ [CHR 0x22],
      [],
      ''  session list'',
      ''    <args>'',
      ''      none'',
      ''    <options>'',
      ''      --id (show session list using session id) type: bool default: false'',
      ''      --verbose (show session list in verbose format) type: bool default: false'',
      [],
      ''  session show : display information about a specific session'',
      ''    <args>'',
      ''        session-ref : ID or session label of the target session'',
      ''    <options>'',
      ''        none'',
      [],
      ''  session shutdown : shuddown a specific session forcefully'',
      ''    <args>'',
      ''        session-ref [session-ref [...]] : IDs or session labels of the target sessions'',
      ''    <options>'',
      ''        --forceful (forceful shutdown) type: bool default: false'',
      ''        --graceful (graceful shutdown) type: bool default: false'',
      [],
      ''  session set : change the value of a specific session variable'',
      ''    <args>'',
      ''        session-ref : ID or session label of the target session'',
      ''        variable-name : name of the target session variable'',
      ''        variable-value : value to be set for the target session variable'',
      ''    <options>'',
      ''        none'',
      [],
      ''  dbstats show : display Tsurugi internal metrics information'',
      ''    <args>'',
      ''        none'',
      ''    <options>'',
      ''        --format (metrics information display format) type: string default: '' @ [CHR 0x22] @ ''json'' @ [CHR 0x22],
      [],
      ''  dbstats list : display a list of available Tsurugi metrics items and their descriptions'',
      ''    <args>'',
      ''        none'',
      ''    <options>'',
      ''        --format (metrics information display format) type: string default: '' @ [CHR 0x22] @ ''json'' @ [CHR 0x22]] @
     (if altimeter then
     [[],
      ''  altimeter {enable|disable} : {enable|disable} altimeter'',
      ''    <args>'',
      ''        none'',
      [],
      ''  altimeter set {event_level|audit_level} : set {event_level|audit_level}'',
      ''    <args>'',
      ''        level : log level'',
      [],
      ''  altimeter set statement_duration : set statement_duration'',
      ''    <args>'',
      ''        duration : statement duration to be set'',
      [],
      ''  altimeter rotate : invoke altimeter log rotation'',
      ''    <args>'',
      ''        none'']
      else []) @
     [[],
      ''  request list : show ongoing request'',
      ''    <args>'',
      ''        none'',
      [],
      ''  request payload : display the request message in base64 encoding'',
      ''    <args>'',
      ''        session-id : session id to specify the request'',
      ''        request-id : request id to specify the request'',
      [],
      ''  request extract-sql : extract the sql command corresponding to the request message'',
      ''    <args>'',
      ''        session-id : id of the session to which the request belongs'',
      ''        payload : the request message in base64 encoding'',
      [],
      ''  credentials : make a credential file'',
      ''    <args>'',
      ''        none'',
      ''    <options>'',
      ''        </path/to/credentials.key> : Output destination authentication information file path.'',
      ''                                     If not specified, the default authentication information file path will be used.'',
      ''        --user <username> : user name. If not specified, a username prompt will be displayed after execution.'',
      ''        --nooverwrite : If a file exists in the output destination, the program will terminate with an error.'',
      ''        --expiration <days> : Number of days until authentication information becomes invalid.'',
      ''                              If not specified, it will be 90 days.'',
      ''                              If the number of days is 0, the authentication information will not become invalid.'',
      [],
      ''  config : Display a list of Tsurugi database configuration settings'',
      ''    <args>'',
      ''        none'',
      ''    <options>'',
      ''        --show-dev : Include configuration settings for developers into the display.'']"

definition help_text :: "bool \<Rightarrow> string" where
  "help_text altimeter = concat (map (\<lambda>l. l @ nl) (help_text_lines altimeter))"

end
