(* ===== verification/Tgctl_Main.thy ===== *)
theory Tgctl_Main
  imports Control_Commands Credentials Session_Commands Request_Commands Metrics_Commands Datastore_Commands
    Altimeter_Commands Version Help_Text
begin

section \<open>The command line\<close>

text \<open>
  \<^verbatim>\<open>src/tateyama/tgctl/tgctl.cpp\<close>: the choice of the command and the order in which commands that need a server in
  maintenance mode start it, use it and stop it.  The arguments have been parsed by gflags: \<open>flags\<close> holds the options, and
  the list of arguments the rest.  Messages to the log of glog are left out.

  The state has the console and the lock files (\<open>ctl\<close>) and the regular files.  \<open>con_monitor\<close> is the content of the
  monitor file: each command that writes one truncates it first.  A result \<open>None\<close>: the command still waits.
\<close>

record tstate =
  ts_ctl :: ctl
  ts_files :: "path \<rightharpoonup> string"

record 'pt tgctl_env =
  te_world :: world
  te_cmd :: cmd_env
  te_session :: session_pb
  te_session_flags :: session_flags
  te_request :: request_pb
  te_metrics :: metrics_pb
  te_altimeter :: "altimeter_pb option"
  te_datastore :: datastore_pb
  te_datastore_flags :: datastore_flags
  te_file_env :: file_env
  te_terminal :: terminal
  te_file_list :: "'pt file_list_env"
  te_credentials :: cred_env
  te_directory_exists :: "path \<Rightarrow> bool"
  te_config :: config_env
  te_read_json :: json_reader
  te_fuel :: nat

type_synonym main_result = "(tstate \<times> int outcome) option"

definition the_cmd :: "'pt tgctl_env \<Rightarrow> flags \<Rightarrow> cmd_env" where
  "the_cmd env fl = (te_cmd env)\<lparr>cm_monitor := FLAGS_monitor fl, cm_quiet := FLAGS_quiet fl\<rparr>"

text \<open>A command on its part of the state.\<close>

definition rc_int :: "return_code outcome \<Rightarrow> int outcome" where
  "rc_int = map_sum id return_code_value"

definition on_ctl :: "(ctl \<Rightarrow> ctl \<times> return_code outcome) \<Rightarrow> tstate \<Rightarrow> main_result" where
  "on_ctl f s = (case f (ts_ctl s) of (c, r) \<Rightarrow> Some (s\<lparr>ts_ctl := c\<rparr>, rc_int r))"

definition on_console :: "(console \<Rightarrow> command_result) \<Rightarrow> tstate \<Rightarrow> main_result" where
  "on_console f s =
     map_option (\<lambda>(c, r). (s\<lparr>ts_ctl := put_console c (ts_ctl s)\<rparr>, rc_int r)) (f (console.truncate (ts_ctl s)))"

definition main_error :: "string \<Rightarrow> tstate \<Rightarrow> main_result" where
  "main_error message s = Some (s\<lparr>ts_ctl := cerr (message @ nl) (ts_ctl s)\<rparr>, Inr (return_code_value rc_err))"

definition unknown_subcommand :: "string \<Rightarrow> string \<Rightarrow> tstate \<Rightarrow> main_result" where
  "unknown_subcommand kind name = main_error (''unknown '' @ kind @ '' '' @ [CHR 0x27] @ name @ [CHR 0x27])"

subsection \<open>Backup\<close>

text \<open>Starting a server in maintenance mode, quietly and without a monitor file.  The result tells whether the command has to
  stop it; \<open>None\<close>: the server could not be started.\<close>

definition quiet_flags :: "flags \<Rightarrow> flags" where
  "quiet_flags fl = fl\<lparr>FLAGS_quiet := True, FLAGS_monitor := []\<rparr>"

definition start_for_backup :: "world \<Rightarrow> flags \<Rightarrow> string \<Rightarrow> ctl \<Rightarrow> ctl \<times> bool option outcome" where
  "start_for_backup w fl argv0 c =
     (case is_running w fl c of
        (c, Inl e) \<Rightarrow> (c, Inl e)
      | (c, Inr True) \<Rightarrow> (c, Inr (Some False))
      | (c, Inr False) \<Rightarrow>
          (case tgctl_start w (quiet_flags fl) argv0 True mode_maintenance_server c of
             (c, Inl e) \<Rightarrow> (c, Inl e)
           | (c, Inr rc_ok) \<Rightarrow> (c, Inr (Some True))
           | (c, Inr rc_err) \<Rightarrow>
               (case is_running w (quiet_flags fl) c of
                  (c, Inl e) \<Rightarrow> (c, Inl e)
                | (c, Inr False) \<Rightarrow> (c, Inr None)
                | (c, Inr True) \<Rightarrow> (c, Inr (Some False)))))"

text \<open>A command without a monitor file leaves the file of the command before it.\<close>

definition keep_monitor_file :: "(ctl \<Rightarrow> ctl \<times> 'r) \<Rightarrow> ctl \<Rightarrow> ctl \<times> 'r" where
  "keep_monitor_file f c = (case f c of (c', r) \<Rightarrow> (c'\<lparr>con_monitor := con_monitor c\<rparr>, r))"

definition stop_after_backup :: "world \<Rightarrow> flags \<Rightarrow> ctl \<Rightarrow> ctl \<times> unit outcome" where
  "stop_after_backup w fl =
     keep_monitor_file
       (\<lambda>c. case tgctl_shutdown_kill w (quiet_flags fl) False True c of
          (c, Inl e) \<Rightarrow> (c, Inl e)
        | (c, Inr rc_ok) \<Rightarrow> (c, Inr ())
        | (c, Inr rc_err) \<Rightarrow>
            (case tgctl_shutdown_kill w (quiet_flags fl) True True c of
               (c, Inl e) \<Rightarrow> (c, Inl e)
             | (c, Inr rc) \<Rightarrow> (c, Inr ())))"

definition run_backup :: "'pt tgctl_env \<Rightarrow> flags \<Rightarrow> string \<Rightarrow> tstate \<Rightarrow> (tstate \<times> return_code outcome) option" where
  "run_backup env fl path s =
     map_option (\<lambda>(fs, c, r). (\<lparr>ts_ctl = put_console c (ts_ctl s), ts_files = fs\<rparr>, r))
       (tgctl_backup_create (the_cmd env fl) (te_datastore env) (te_file_env env) (te_datastore_flags env) path
          (ts_files s) (console.truncate (ts_ctl s)))"

definition backup_create_main :: "'pt tgctl_env \<Rightarrow> flags \<Rightarrow> string \<Rightarrow> string \<Rightarrow> tstate \<Rightarrow> main_result" where
  "backup_create_main env fl argv0 path s =
     (case tgctl_backup_directory_check (the_cmd env fl) (te_file_env env) path (console.truncate (ts_ctl s)) of
        (c, rc_err) \<Rightarrow> Some (s\<lparr>ts_ctl := put_console c (ts_ctl s)\<rparr>, Inr (return_code_value rc_err))
      | (c, rc_ok) \<Rightarrow>
          (case start_for_backup (te_world env) fl argv0 (put_console c (ts_ctl s)) of
             (c, Inl e) \<Rightarrow> Some (s\<lparr>ts_ctl := c\<rparr>, Inl e)
           | (c, Inr None) \<Rightarrow> Some (s\<lparr>ts_ctl := c\<rparr>, Inr (return_code_value rc_err))
           | (c, Inr (Some stop)) \<Rightarrow>
               (case run_backup env fl path (s\<lparr>ts_ctl := c\<rparr>) of
                  None \<Rightarrow> None
                | Some (s, Inl e) \<Rightarrow> Some (s, Inl e)
                | Some (s, Inr rv) \<Rightarrow>
                    if stop
                    then (case stop_after_backup (te_world env) fl (ts_ctl s) of
                            (c, Inl e) \<Rightarrow> Some (s\<lparr>ts_ctl := c\<rparr>, Inl e)
                          | (c, Inr u) \<Rightarrow> Some (s\<lparr>ts_ctl := c\<rparr>, Inr (return_code_value rv)))
                    else Some (s, Inr (return_code_value rv)))))"

definition backup_main :: "'pt tgctl_env \<Rightarrow> flags \<Rightarrow> string list \<Rightarrow> tstate \<Rightarrow> main_result" where
  "backup_main env fl args s =
     (if length args < 3 then main_error ''need to specify backup subcommand'' s
      else if args ! 2 = ''create''
      then (if length args < 4 then main_error ''need to specify path/to/backup'' s
            else backup_create_main env fl (args ! 0) (args ! 3) s)
      else if args ! 2 = ''estimate'' then on_console (tgctl_backup_estimate (the_cmd env fl) (te_datastore env)) s
      else unknown_subcommand ''backup subcommand'' (args ! 2) s)"

subsection \<open>Restore\<close>

text \<open>The commands between start and stop.\<close>

definition restore_command :: "'pt tgctl_env \<Rightarrow> flags \<Rightarrow> string list \<Rightarrow> tstate \<Rightarrow> main_result" where
  "restore_command env fl args s =
     (let ce = the_cmd env fl; db = te_datastore env; dfl = te_datastore_flags env
      in if args ! 2 = ''backup''
         then (if 3 < length args
               then (if FLAGS_use_file_list dfl \<noteq> []
                     then on_console (tgctl_restore_backup_use_file_list ce db dfl (te_terminal env) (te_file_list env) (args ! 3)) s
                     else on_console (tgctl_restore_backup ce db dfl (te_terminal env) (args ! 3)) s)
               else Some (s\<lparr>ts_ctl := cerr (''directory is not specficed'' @ nl) (ts_ctl s)\<rparr>, Inr 0))
         else if args ! 2 = ''tag''
         then (if 3 < length args then on_console (tgctl_restore_tag ce db (args ! 3)) s
               else Some (s\<lparr>ts_ctl := cerr (''tag is not specficed'' @ nl) (ts_ctl s)\<rparr>, Inr 0))
         else Some (s\<lparr>ts_ctl := cerr (''unknown backup subcommand '' @ [CHR 0x27] @ args ! 2 @ [CHR 0x27] @ nl) (ts_ctl s)\<rparr>, Inr (- 1)))"

definition restore_flags :: "flags \<Rightarrow> flags" where
  "restore_flags fl = fl\<lparr>FLAGS_timeout := 0, FLAGS_quiet := True\<rparr>"

definition restore_main :: "'pt tgctl_env \<Rightarrow> flags \<Rightarrow> string list \<Rightarrow> tstate \<Rightarrow> main_result" where
  "restore_main env fl args s =
     (let c = (if FLAGS_timeout fl \<noteq> - 1
               then cerr (''timeout option cannot be specified to restore subcommand'' @ nl) (ts_ctl s) else ts_ctl s);
          fl = restore_flags fl; w = te_world env
      in case tgctl_start w fl (args ! 0) True mode_maintenance_server c of
           (c, Inl e) \<Rightarrow> Some (s\<lparr>ts_ctl := c\<rparr>, Inl e)
         | (c, Inr rc_err) \<Rightarrow>
             Some (s\<lparr>ts_ctl := cerr (''failed to boot tsurugidb in maintenance_server mode'' @ nl) c\<rparr>, Inr (- 1))
         | (c, Inr rc_ok) \<Rightarrow>
             if length args < 3 then main_error ''need to specify restore subcommand'' (s\<lparr>ts_ctl := c\<rparr>)
             else (case restore_command env fl args (s\<lparr>ts_ctl := c\<rparr>) of
                     None \<Rightarrow> None
                   | Some (s, Inl e) \<Rightarrow> Some (s, Inl e)
                   | Some (s, Inr rtnv) \<Rightarrow>
                       (case keep_monitor_file (tgctl_shutdown_kill w fl False False) (ts_ctl s) of
                          (c, Inl e) \<Rightarrow> Some (s\<lparr>ts_ctl := c\<rparr>, Inl e)
                        | (c, Inr rc) \<Rightarrow> Some (s\<lparr>ts_ctl := c\<rparr>, Inr rtnv))))"

subsection \<open>The other commands\<close>

definition session_main :: "'pt tgctl_env \<Rightarrow> flags \<Rightarrow> string list \<Rightarrow> tstate \<Rightarrow> main_result" where
  "session_main env fl args s =
     (let ce = the_cmd env fl; sb = te_session env; sfl = te_session_flags env
      in if length args < 3 then main_error ''need to specify session subcommand'' s
         else if args ! 2 = ''list'' then on_console (session_list ce sb sfl) s
         else if args ! 2 = ''show''
         then (if length args < 4 then main_error ''need to specify session-ref'' s
               else on_console (session_show ce sb (args ! 3)) s)
         else if args ! 2 = ''shutdown''
         then (if length args < 4 then main_error ''need to specify session-ref(s)'' s
               else on_console (session_shutdown ce sb sfl (args ! 3)) s)
         else if args ! 2 = ''set''
         then (if length args < 5 then main_error ''need to specify session-ref and set-key'' s
               else if length args < 6 then on_console (session_swtch ce sb (args ! 3) (args ! 4) [] False) s
               else on_console (session_swtch ce sb (args ! 3) (args ! 4) (args ! 5) True) s)
         else unknown_subcommand ''session sub command'' (args ! 2) s)"

definition dbstats_main :: "'pt tgctl_env \<Rightarrow> flags \<Rightarrow> string list \<Rightarrow> tstate \<Rightarrow> main_result" where
  "dbstats_main env fl args s =
     (let ce = the_cmd env fl; mb = te_metrics env
      in if length args < 3 then main_error ''need to specify dbstats subcommand'' s
         else if args ! 2 = ''list'' then on_console (metrics_list ce mb (FLAGS_format fl)) s
         else if args ! 2 = ''show'' then on_console (metrics_show ce mb (FLAGS_format fl)) s
         else unknown_subcommand ''dbstats-sub command'' (args ! 2) s)"

definition altimeter_set :: "cmd_env \<Rightarrow> altimeter_pb \<Rightarrow> string list \<Rightarrow> (console \<Rightarrow> command_result) option" where
  "altimeter_set ce ab args =
     (if args ! 3 = ''event_level'' then Some (set_log_level ce ab ''event'' (args ! 4))
      else if args ! 3 = ''audit_level'' then Some (set_log_level ce ab ''audit'' (args ! 4))
      else if args ! 3 = ''statement_duration'' then Some (set_statement_duration ce ab (args ! 4))
      else None)"

definition altimeter_main :: "'pt tgctl_env \<Rightarrow> flags \<Rightarrow> altimeter_pb \<Rightarrow> string list \<Rightarrow> tstate \<Rightarrow> main_result" where
  "altimeter_main env fl ab args s =
     (let ce = the_cmd env fl
      in if length args < 3 then main_error ''need to specify altimeter subcommand'' s
         else if args ! 2 = ''enable''
         then (if length args < 4 then main_error ''need to specify log type for altimeter enable'' s
               else on_console (set_enabled ce ab (args ! 3) True) s)
         else if args ! 2 = ''disable''
         then (if length args < 4 then main_error ''need to specify log type for altimeter disable'' s
               else on_console (set_enabled ce ab (args ! 3) False) s)
         else if args ! 2 = ''set''
         then (if length args < 4 then main_error ''need to specify parameter for altimeter set'' s
               else if args ! 3 \<in> {''event_level'', ''audit_level'', ''statement_duration''} \<and> length args < 5
               then main_error (''need to specify parameter for altimeter set '' @ args ! 3) s
               else (case altimeter_set ce ab args of
                       Some f \<Rightarrow> on_console f s
                     | None \<Rightarrow> unknown_subcommand ''altimeter-sub command'' (args ! 2) s))
         else if args ! 2 = ''rotate''
         then (if length args < 4 then main_error ''need to specify parameter for altimeter rotate'' s
               else on_console (rotate_log ce ab (args ! 3)) s)
         else unknown_subcommand ''altimeter-sub command'' (args ! 2) s)"

text \<open>\<open>std::stol\<close> gives a \<open>long\<close>, which becomes a \<open>std::size_t\<close>.\<close>

definition id_arg :: "string \<Rightarrow> nat outcome" where
  "id_arg a = map_sum id (\<lambda>v. nat (v mod 2 ^ 64)) (stol a)"

definition request_main :: "'pt tgctl_env \<Rightarrow> flags \<Rightarrow> string list \<Rightarrow> tstate \<Rightarrow> main_result" where
  "request_main env fl args s =
     (let ce = the_cmd env fl; qb = te_request env
      in if length args < 3 then main_error ''need to specify request subcommand'' s
         else if args ! 2 = ''list'' then on_console (request_list ce qb) s
         else if args ! 2 = ''payload''
         then (if length args < 5 then main_error ''need to specify session-id and request-id'' s
               else (case (id_arg (args ! 3), id_arg (args ! 4)) of
                       (Inr session_id, Inr request_id) \<Rightarrow> on_console (request_payload ce qb session_id request_id) s
                     | (Inl e, _) \<Rightarrow> Some (s, Inl e)
                     | (_, Inl e) \<Rightarrow> Some (s, Inl e)))
         else if args ! 2 = ''extract-sql''
         then (if length args < 5 then main_error ''need to specify session-id and payload'' s
               else (case id_arg (args ! 3) of
                       Inr session_id \<Rightarrow> on_console (request_extract_sql ce qb session_id (args ! 4)) s
                     | Inl e \<Rightarrow> Some (s, Inl e)))
         else unknown_subcommand ''request-sub command'' (args ! 2) s)"

definition credentials_main :: "'pt tgctl_env \<Rightarrow> string list \<Rightarrow> tstate \<Rightarrow> main_result" where
  "credentials_main env args s =
     (let se = cm_session (te_cmd env); cd = te_credentials env;
          c = put_console (ts_ctl s) \<lparr>con_out = [], con_err = [], con_monitor = None, cd_files = ts_files s, cd_handler = credential_handler_new\<rparr>
      in map_option (\<lambda>(c, r). (\<lparr>ts_ctl = put_console c (ts_ctl s), ts_files = cd_files c\<rparr>, rc_int r))
           (if length args < 3 then credentials_default se cd (te_directory_exists env) c
            else credentials_file se cd (args ! 2) c))"

definition from_option :: "(ctl \<Rightarrow> ctl \<times> return_code outcome option) \<Rightarrow> tstate \<Rightarrow> main_result" where
  "from_option f s =
     (case f (ts_ctl s) of
        (c, None) \<Rightarrow> None
      | (c, Some r) \<Rightarrow> Some (s\<lparr>ts_ctl := c\<rparr>, rc_int r))"

subsection \<open>\<open>tgctl_main\<close> and \<open>main\<close>\<close>

definition simple_command :: "'pt tgctl_env \<Rightarrow> flags \<Rightarrow> string list \<Rightarrow> tstate \<Rightarrow> main_result option" where
  "simple_command env fl args s =
     (let w = te_world env; name = args ! 1
      in if name = ''start'' then Some (on_ctl (tgctl_start w fl (args ! 0) True mode_database_server) s)
         else if name = ''shutdown'' then Some (on_ctl (tgctl_shutdown_kill w fl False True) s)
         else if name = ''kill'' then Some (on_ctl (tgctl_shutdown_kill w fl True True) s)
         else if name = ''status'' then Some (on_ctl (tgctl_status w fl) s)
         else if name = ''diagnostic'' then Some (from_option (tgctl_diagnostic w fl (te_fuel env)) s)
         else if name = ''pid'' then Some (from_option (tgctl_pid w fl (te_fuel env)) s)
         else if name = ''quiesce'' then Some (on_ctl (tgctl_start w fl (args ! 0) True mode_quiescent_server) s)
         else if name = ''version'' then Some (on_ctl (show_version w (te_read_json env) (ts_files s) (args ! 0)) s)
         else None)"

definition tgctl_main :: "'pt tgctl_env \<Rightarrow> flags \<Rightarrow> string list \<Rightarrow> tstate \<Rightarrow> main_result" where
  "tgctl_main env fl args s =
     (let fl = fl\<lparr>FLAGS_quiet := FLAGS_quiet fl \<or> FLAGS_q fl\<rparr>
      in if length args < 2 then main_error ''no subcommand'' s
         else (case simple_command env fl args s of
                 Some r \<Rightarrow> r
               | None \<Rightarrow>
                   if args ! 1 = ''backup'' then backup_main env fl args s
                   else if args ! 1 = ''restore'' then restore_main env fl args s
                   else if args ! 1 = ''session'' then session_main env fl args s
                   else if args ! 1 = ''dbstats'' then dbstats_main env fl args s
                   else if args ! 1 = ''altimeter'' \<and> te_altimeter env \<noteq> None
                   then altimeter_main env fl (the (te_altimeter env)) args s
                   else if args ! 1 = ''request'' then request_main env fl args s
                   else if args ! 1 = ''credentials'' then credentials_main env args s
                   else if args ! 1 = ''config''
                   then on_console
                          (\<lambda>c. Some (config (w_conf (te_world env)) ((te_config env)\<lparr>ge_monitor := FLAGS_monitor fl, ge_quiet := FLAGS_quiet fl\<rparr>)
                                       (FLAGS_conf fl) c)) s
                   else main_error (''unknown command '' @ [CHR 0x27] @ args ! 1 @ [CHR 0x27]) s))"

text \<open>\<open>main\<close>, with the arguments before and after gflags has taken the options out.\<close>

definition tgctl_program :: "'pt tgctl_env \<Rightarrow> flags \<Rightarrow> bool \<Rightarrow> nat \<Rightarrow> string list \<Rightarrow> tstate \<Rightarrow> main_result" where
  "tgctl_program env fl FLAGS_help argc args s =
     (if 1 < argc
      then (if FLAGS_help then Some (s\<lparr>ts_ctl := cout (help_text (te_altimeter env \<noteq> None)) (ts_ctl s)\<rparr>, Inr 0)
            else (case tgctl_main env fl args s of
                    None \<Rightarrow> None
                  | Some (s, Inr rc) \<Rightarrow> Some (s, Inr rc)
                  | Some (s, Inl Null_pointer) \<Rightarrow> Some (s, Inl Null_pointer)
                  | Some (s, Inl e) \<Rightarrow> Some (s\<lparr>ts_ctl := cerr (exn_what e @ nl) (ts_ctl s)\<rparr>, Inr (- 1))))
      else Some (s, Inr (- 1)))"

section \<open>Lemmas\<close>

subsection \<open>Exit codes\<close>

named_theorems exit_code

definition small_code :: "main_result \<Rightarrow> bool" where
  "small_code r \<longleftrightarrow> (\<forall>s' x. r = Some (s', Inr x) \<longrightarrow> x \<in> {- 1, 0, 1})"

lemma return_code_value_cases: "return_code_value rc \<in> {- 1, 0, 1}"
  by (cases rc) simp_all

lemma rc_int_Inr: "rc_int r = Inr x \<Longrightarrow> x \<in> {- 1, 0, 1}"
  using return_code_value_cases by (cases r) (auto simp: rc_int_def)

lemma small_code_value [exit_code]:
  "small_code (Some (s, Inr (return_code_value rc)))" "small_code (Some (s, Inl e))" "small_code (Some (s, rc_int r))"
  "small_code (Some (s, Inr 0))" "small_code (Some (s, Inr 1))" "small_code (Some (s, Inr (- 1)))" "small_code None"
  using return_code_value_cases [of rc] by (auto simp: small_code_def dest: rc_int_Inr)

lemma small_code_map [exit_code]: "small_code (map_option (\<lambda>(c, r). (f c, rc_int r)) x)"
  by (cases x) (auto simp: exit_code split: prod.splits)

lemma small_code_lifted [exit_code]:
  "small_code (on_ctl f s)" "small_code (on_console g s)" "small_code (from_option h s)" "small_code (main_error m s)"
  "small_code (unknown_subcommand k n s)"
  unfolding on_ctl_def on_console_def from_option_def main_error_def unknown_subcommand_def
  by (simp_all add: exit_code split: prod.splits option.splits)

lemma small_code_backup [exit_code]: "small_code (backup_create_main env fl argv0 path s)"
  unfolding backup_create_main_def
  by (simp add: exit_code del: return_code_value.simps split: prod.splits return_code.splits sum.splits option.splits)

lemma small_code_restore_command [exit_code]: "small_code (restore_command env fl args s)"
  unfolding restore_command_def by (simp add: exit_code Let_def)

lemma small_code_restore [exit_code]: "small_code (restore_main env fl args s)"
proof -
  have "small_code (Some (t', Inr x))" if "restore_command env fl' args t = Some (s', Inr x)" for fl' t t' s' x
    using small_code_restore_command [of env fl' args t] that by (simp add: small_code_def)
  then show ?thesis
    unfolding restore_main_def Let_def
    by (auto simp: exit_code simp del: append.simps split: prod.splits return_code.splits sum.splits option.splits)
qed

lemma small_code_commands [exit_code]:
  "small_code (credentials_main env args s)" "small_code (request_main env fl args s)" "small_code (backup_main env fl args s)"
  "small_code (session_main env fl args s)" "small_code (dbstats_main env fl args s)" "small_code (altimeter_main env fl ab args s)"
  unfolding credentials_main_def request_main_def backup_main_def session_main_def dbstats_main_def altimeter_main_def Let_def
  by (auto simp: exit_code simp del: append.simps split: option.splits sum.splits)

lemma small_code_simple [exit_code]: "simple_command env fl args s = Some r \<Longrightarrow> small_code r"
  by (auto simp: simple_command_def Let_def exit_code split: if_splits)

lemma small_code_main [exit_code]: "small_code (tgctl_main env fl args s)"
  unfolding tgctl_main_def Let_def by (auto simp: exit_code simp del: append.simps split: option.splits)

subsection \<open>The backup command\<close>

lemma put_console_truncate [simp]: "put_console (console.truncate c) c = c"
  by (simp add: put_console_def console.truncate_def)

lemma put_console_simps [simp]:
  "con_monitor (put_console c s) = con_monitor c" "ctl_effects (put_console c t) = ctl_effects t"
  by (simp_all add: put_console_def)

lemma directory_check_ok:
  "tgctl_backup_directory_check ce fe path c = (c', rc_ok) \<Longrightarrow> c' = c \<and> fe_status fe path = directory True"
  by (auto simp: tgctl_backup_directory_check_def Let_def split: file_status.splits if_splits)

text \<open>A run that gets as far as a code of the backup itself.\<close>

lemma backup_create_main_run:
  assumes "backup_create_main env fl argv0 path s = Some (s', Inr x)"
  obtains (early) "x = 1" "ts_files s' = ts_files s"
    | (run) c1 stop s1 rv where "start_for_backup (te_world env) fl argv0 (ts_ctl s) = (c1, Inr (Some stop))"
        "run_backup env fl path (s\<lparr>ts_ctl := c1\<rparr>) = Some (s1, Inr rv)" "x = return_code_value rv"
        "ts_files s' = ts_files s1"
        "if stop then stop_after_backup (te_world env) fl (ts_ctl s1) = (ts_ctl s', Inr ()) else s' = s1"
proof -
  obtain c rc where d: "tgctl_backup_directory_check (the_cmd env fl) (te_file_env env) path (console.truncate (ts_ctl s)) = (c, rc)" by force
  show ?thesis
  proof (cases rc)
    case rc_err
    then show ?thesis using assms d by (intro early) (auto simp: backup_create_main_def)
  next
    case rc_ok
    then have c: "put_console c (ts_ctl s) = ts_ctl s" using directory_check_ok d by fastforce
    obtain c1 q where st: "start_for_backup (te_world env) fl argv0 (ts_ctl s) = (c1, q)" by force
    show ?thesis
    proof (cases "\<exists>stop. q = Inr (Some stop)")
      case False
      then show ?thesis
        using assms d rc_ok c st by (intro early) (auto simp: backup_create_main_def split: sum.splits option.splits)
    next
      case True
      then obtain stop where q: "q = Inr (Some stop)" by blast
      obtain s1 rv where b: "run_backup env fl path (s\<lparr>ts_ctl := c1\<rparr>) = Some (s1, Inr rv)"
        using assms d rc_ok c st q by (auto simp: backup_create_main_def split: option.splits prod.splits sum.splits)
      show ?thesis
        using assms d rc_ok c st q b
        by (intro run [of c1 stop s1 rv]) (auto simp: backup_create_main_def split: if_splits prod.splits sum.splits)
    qed
  qed
qed

lemma run_backup_ok:
  assumes "run_backup env fl path s = Some (s', Inr rv)"
  shows "ctl_effects (ts_ctl s') = ctl_effects (ts_ctl s)"
    and "\<exists>c'. tgctl_backup_create (the_cmd env fl) (te_datastore env) (te_file_env env) (te_datastore_flags env) path
          (ts_files s) (console.truncate (ts_ctl s)) = Some (ts_files s', c', Inr rv) \<and> con_monitor (ts_ctl s') = con_monitor c'"
  using assms by (auto simp: run_backup_def)

lemma requested_type_quiet [simp]: "requested_type (quiet_flags fl) = requested_type fl"
  by (simp add: requested_type_def quiet_flags_def)

lemma stop_after_backup_run:
  assumes "stop_after_backup w fl c = (c', Inr ())"
  obtains c1 rv where "tgctl_shutdown_kill w (quiet_flags fl) False True c = (c1, Inr rv)"
    "if rv = rc_ok then c' = c1\<lparr>con_monitor := con_monitor c\<rparr>
     else \<exists>c2 rv2. tgctl_shutdown_kill w (quiet_flags fl) True True c1 = (c2, Inr rv2) \<and> c' = c2\<lparr>con_monitor := con_monitor c\<rparr>"
  using assms
  by (auto simp: stop_after_backup_def keep_monitor_file_def split: prod.splits sum.splits return_code.splits)

lemma stop_after_backup_monitor: "con_monitor (fst (stop_after_backup w fl c)) = con_monitor c"
  by (simp add: stop_after_backup_def keep_monitor_file_def split_beta)

section \<open>Properties\<close>


text \<open>C6: \<^verbatim>\<open>tgctl backup create\<close> ends with 0 only after a complete backup: a session with the server in which it named
  the files, each of which is now in the backup directory under its own name with the content of its source, while no other
  file has changed; and the monitor file, if there is one, is complete and says success.\<close>

theorem backup_create_exit_zero:
  assumes "backup_create_main env fl argv0 path s = Some (s', Inr 0)"
  shows "\<exists>backup_id sources t t1.
      send_datastore_command (the_cmd env fl) (te_datastore env) (db_backup_begin (te_datastore env))
        (BackupBegin (FLAGS_backup_label (te_datastore_flags env))) t = (t1, Inr (Some (DS_success (backup_id, sources))))
    \<and> copied path sources (ts_files s) (ts_files s')
    \<and> finished_log reason_absent (ts_ctl s')"
  using assms
proof (cases rule: backup_create_main_run)
  case (run c1 stop s1 rv)
  have rv: "rv = rc_ok" using run(3) by (cases rv) simp_all
  obtain c2 where b: "tgctl_backup_create (the_cmd env fl) (te_datastore env) (te_file_env env) (te_datastore_flags env) path
      (ts_files s) (console.truncate c1) = Some (ts_files s', c2, Inr rc_ok)" "con_monitor (ts_ctl s1) = con_monitor c2"
    using run_backup_ok(2) [OF run(2)] run(4) rv by auto
  have kept: "con_monitor (ts_ctl s') = con_monitor (ts_ctl s1)"
    using run(5) stop_after_backup_monitor [of "te_world env" fl "ts_ctl s1"] by (auto split: if_splits)
  from b(1) show ?thesis
  proof (cases rule: backup_create_run)
    case (refused c3 e)
    then show ?thesis using described.concluded_ok [OF refused(2,3)] by simp
  next
    case (session t t' res)
    have log: "open_log (console.truncate t')" using session(2) open_log_cong [of "console.truncate t'" t'] by (simp add: console.truncate_def)
    note res = described.concluded_ok [OF log session(5)]
    then have "finished_log reason_absent (ts_ctl s')"
      using open_log_finish [OF log] res finished_log_cong [of "ts_ctl s'" c2] kept b(2) by simp
    then show ?thesis
      using backup_session_ok [of "the_cmd env fl"] session(1,4) res unfolding copied_def by blast
  qed
qed simp


text \<open>What \<^verbatim>\<open>tgctl restore\<close> does without its operand: the server is started in maintenance mode; without a directory or a tag the
  command prints a message and ends with 0, as after a restore; without a subcommand it ends with 1 and leaves the server it has
  started running.\<close>

theorem restore_without_operand:
  assumes "tgctl_start (te_world env) (restore_flags fl) argv0 True mode_maintenance_server (ts_ctl s) = (c1, Inr rc_ok)"
    and "FLAGS_timeout fl = - 1"
  shows "restore_main env fl [argv0, ''restore''] s
      = Some (s\<lparr>ts_ctl := cerr (''need to specify restore subcommand'' @ nl) c1\<rparr>, Inr 1)
    \<and> (\<forall>c rc. tgctl_shutdown_kill (te_world env) (restore_flags fl) False False
            (cerr (''directory is not specficed'' @ nl) c1) = (c, Inr rc)
          \<longrightarrow> (\<exists>s'. restore_main env fl [argv0, ''restore'', ''backup''] s = Some (s', Inr 0) \<and> ts_files s' = ts_files s))"
  using assms by (auto simp: restore_main_def main_error_def restore_command_def keep_monitor_file_def)

text \<open>A command the program does not know has no effect but a message, and the exit status 1; so has a call without a
  command.\<close>

theorem unknown_command:
  assumes "args ! 1 \<notin> {''start'', ''shutdown'', ''kill'', ''status'', ''diagnostic'', ''pid'', ''quiesce'', ''version'', ''backup'',
      ''restore'', ''session'', ''dbstats'', ''request'', ''credentials'', ''config''}"
    and "args ! 1 = ''altimeter'' \<longrightarrow> te_altimeter env = None"
  shows "tgctl_main env fl args s =
    Some (s\<lparr>ts_ctl := cerr ((if length args < 2 then ''no subcommand'' else ''unknown command '' @ [CHR 0x27] @ args ! 1 @ [CHR 0x27]) @ nl)
                          (ts_ctl s)\<rparr>, Inr 1)"
  using assms
  by (cases "args ! 1 = ''altimeter''") (simp_all add: tgctl_main_def simple_command_def main_error_def Let_def)

subsection \<open>Witnesses\<close>

text \<open>A server that boots while the command waits for it, and is gone once it has been used.\<close>

definition backup_world :: world where
  "backup_world = sample_world (\<lambda>t fs. if t = 8 then server_boots sample_lock 7 fs
     else if 19 \<le> t then sys_unlink fs sample_lock else fs) state_activated"

definition sample_tgctl_env :: "world \<Rightarrow> unit tgctl_env" where
  "sample_tgctl_env w =
     \<lparr>te_world = w, te_cmd = online_cmd_env, te_session = sample_session_pb, te_session_flags = sample_session_flags,
      te_request = \<lparr>qb_serialize = (\<lambda>r. [1]), qb_sql_serialize = (\<lambda>r. [1]), qb_list = (\<lambda>b. None), qb_payload = (\<lambda>b. None),
         qb_extract = (\<lambda>b. None), qb_encode = (\<lambda>x. x), qb_decode = Inr, qb_now = 0, service_id_request = 5, service_id_sql = 3\<rparr>,
      te_metrics = \<lparr>mb_serialize = (\<lambda>r. [1]), mb_information = (\<lambda>b. None), service_id_metrics = 6\<rparr>,
      te_altimeter = None, te_datastore = sample_datastore_pb, te_datastore_flags = sample_datastore_flags,
      te_file_env = sample_file_env, te_terminal = \<lparr>tm_set_error = None, tm_input = [], tm_reset_error = None\<rparr>,
      te_file_list = \<lparr>fl_read_json = (\<lambda>f. Inr ()), fl_get_child = (\<lambda>t n. Inr []), fl_get_string = (\<lambda>t n. None), fl_get_bool = (\<lambda>t n. None)\<rparr>,
      te_credentials = sample_cred_env, te_directory_exists = (\<lambda>p. False),
      te_config = sample_config_env,
      te_read_json = (\<lambda>x. Inr (\<lambda>k. None)), te_fuel = 1\<rparr>"

lemma sample_tgctl_env_simps [simp]:
  "te_world (sample_tgctl_env w) = w" "te_file_env (sample_tgctl_env w) = sample_file_env"
  by (simp_all add: sample_tgctl_env_def)

lemma sample_run_backup:
  "\<exists>c' :: console. run_backup (sample_tgctl_env w) fl ''bk'' \<lparr>ts_ctl = c, ts_files = sample_files\<rparr> =
     Some (\<lparr>ts_ctl = put_console c' c, ts_files = sample_files(''bk/x'' \<mapsto> ''one'', ''bk/y'' \<mapsto> ''two'')\<rparr>, Inr rc_ok)"
proof -
  have ce: "cm_session (the_cmd (sample_tgctl_env w) fl) = cm_session online_cmd_env"
    "cm_auth (the_cmd (sample_tgctl_env w) fl) = online_auth_env"
    by (simp_all add: the_cmd_def sample_tgctl_env_def online_cmd_env_def)
  have env: "te_datastore (sample_tgctl_env w) = sample_datastore_pb" "te_datastore_flags (sample_tgctl_env w) = sample_datastore_flags"
    by (simp_all add: sample_tgctl_env_def)
  obtain c' where "tgctl_backup_create (the_cmd (sample_tgctl_env w) fl) sample_datastore_pb sample_file_env sample_datastore_flags ''bk''
      sample_files (console.truncate c) = Some (sample_files(''bk/x'' \<mapsto> ''one'', ''bk/y'' \<mapsto> ''two''), c', Inr rc_ok)"
    using sample_backup_create [OF ce] by blast
  then show ?thesis by (intro exI [of _ c']) (simp add: run_backup_def env)
qed

text \<open>The server is running already.\<close>

lemma sample_is_running:
  "\<exists>c1. is_running (sample_world (\<lambda>t fs. fs) state_activated) sample_flags (new_ctl running_fs) = (c1, Inr True)"
proof -
  obtain conf where conf: "snd (get_configuration sample_conf_env
     \<lparr>bc_conf_file = ''/etc/a.ini'', bc_lock_file = sample_lock, bc_configuration = Some sample_whole, bc_valid = True\<rparr>) = Inr (Some conf)"
    using sample_get_configuration by blast
  show ?thesis
    unfolding is_running_def status_check_internal_def sample_bst_conf
    by (simp add: status_check_internal_of_def conf status_attempts_first running_eval)
qed

lemma sample_directory_check: "tgctl_backup_directory_check ce sample_file_env p c = (c, rc_ok)"
  by (simp add: tgctl_backup_directory_check_def sample_file_env_def)

theorem backup_create_exit_zero_witness:
  "\<exists>s' sources. backup_create_main (sample_tgctl_env (sample_world (\<lambda>t fs. fs) state_activated)) sample_flags ''tgctl'' ''bk''
       \<lparr>ts_ctl = new_ctl running_fs, ts_files = sample_files\<rparr> = Some (s', Inr 0)
     \<and> copied ''bk'' sources sample_files (ts_files s')"
proof -
  let ?w = "sample_world (\<lambda>t fs. fs) state_activated" and ?s = "\<lparr>ts_ctl = new_ctl running_fs, ts_files = sample_files\<rparr>"
  obtain c1 where "is_running ?w sample_flags (new_ctl running_fs) = (c1, Inr True)" using sample_is_running by blast
  then have st: "start_for_backup ?w sample_flags ''tgctl'' (new_ctl running_fs) = (c1, Inr (Some False))"
    by (simp add: start_for_backup_def)
  obtain s1 where b: "run_backup (sample_tgctl_env ?w) sample_flags ''bk'' \<lparr>ts_ctl = c1, ts_files = sample_files\<rparr> = Some (s1, Inr rc_ok)"
    using sample_run_backup [of ?w sample_flags c1] by blast
  obtain s' where run: "backup_create_main (sample_tgctl_env ?w) sample_flags ''tgctl'' ''bk'' ?s = Some (s', Inr 0)"
    by (simp add: backup_create_main_def sample_directory_check st b)
  from backup_create_exit_zero [OF this] show ?thesis using run by auto
qed

text \<open>The server is started for the backup.\<close>

lemma the_bst_conf_quiet [simp]: "the_bst_conf w (quiet_flags fl) = the_bst_conf w fl"
  by (simp add: the_bst_conf_def quiet_flags_def)

lemma quiet_sample_flags [simp]:
  "FLAGS_conf (quiet_flags sample_flags) = []" "FLAGS_monitor (quiet_flags sample_flags) = []"
  "FLAGS_label (quiet_flags sample_flags) = []" "FLAGS_start_mode (quiet_flags sample_flags) = []"
  "FLAGS_timeout (quiet_flags sample_flags) = -1" "FLAGS_quiet (quiet_flags sample_flags)"
  "FLAGS_location (quiet_flags sample_flags) = ''./db''" "\<not> FLAGS_load (quiet_flags sample_flags)"
  "\<not> FLAGS_tpch (quiet_flags sample_flags)"
  by (simp_all add: quiet_flags_def)

lemma sample_start_for_backup:
  "\<exists>c1. start_for_backup backup_world sample_flags ''/opt/tsurugi/bin/tgctl'' (new_ctl empty_fs) = (c1, Inr (Some True)) \<and> ctl_tick c1 = 19"
proof -
  obtain conf where conf: "snd (get_configuration sample_conf_env
     \<lparr>bc_conf_file = ''/etc/a.ini'', bc_lock_file = sample_lock, bc_configuration = Some sample_whole, bc_valid = True\<rparr>) = Inr (Some conf)"
    using sample_get_configuration by blast
  have path: "get_base_path backup_world ''/opt/tsurugi/bin/tgctl'' c = (c, Inr ''/opt/tsurugi'')" for c
    by (simp add: get_base_path_def parent_path_def backup_world_def)
  show ?thesis
    unfolding start_for_backup_def is_running_def status_check_internal_def tgctl_start_def the_bst_conf_quiet backup_world_def sample_bst_conf
    by (simp add: start_force_def status_check_internal_of_def conf path [unfolded backup_world_def] build_args_def confirm_start_def
        wait_for_pid_def for_loop.simps pid_turn_def confirm_activation_def attach_turn_def activation_turn_def
        server_boots_def sample_stoi count_eval status_attempts_first ctl_eval)
qed

lemma sample_stop:
  assumes "19 \<le> ctl_tick c"
  shows "\<exists>c'. stop_after_backup backup_world sample_flags c = (c', Inr ())"
proof -
  obtain conf where conf: "snd (get_configuration sample_conf_env
     \<lparr>bc_conf_file = ''/etc/a.ini'', bc_lock_file = sample_lock, bc_configuration = Some sample_whole, bc_valid = True\<rparr>) = Inr (Some conf)"
    using sample_get_configuration by blast
  show ?thesis
    unfolding stop_after_backup_def keep_monitor_file_def tgctl_shutdown_kill_def the_bst_conf_quiet backup_world_def sample_bst_conf
    using assms
    by (simp add: shutdown_kill_body_def status_check_internal_of_def conf open_monitor_def sys_unlink_def ctl_eval)
qed


theorem unknown_command_witness:
  "tgctl_main (sample_tgctl_env backup_world) sample_flags [''tgctl'', ''altimeter''] \<lparr>ts_ctl = new_ctl empty_fs, ts_files = sample_files\<rparr> =
     Some (\<lparr>ts_ctl = cerr ([CHR ''u''] @ ''nknown command '' @ [CHR 0x27] @ ''altimeter'' @ [CHR 0x27] @ nl) (new_ctl empty_fs),
            ts_files = sample_files\<rparr>, Inr 1)"
proof -
  have "te_altimeter (sample_tgctl_env backup_world) = None" by (simp add: sample_tgctl_env_def)
  then show ?thesis
    using unknown_command [of "[''tgctl'', ''altimeter'']" "sample_tgctl_env backup_world" sample_flags] by simp
qed

lemma restore_sample_flags [simp]:
  "FLAGS_conf (restore_flags sample_flags) = []" "FLAGS_monitor (restore_flags sample_flags) = ''m.log''"
  "FLAGS_label (restore_flags sample_flags) = []" "FLAGS_start_mode (restore_flags sample_flags) = []"
  "FLAGS_timeout (restore_flags sample_flags) = 0" "FLAGS_quiet (restore_flags sample_flags)"
  "FLAGS_location (restore_flags sample_flags) = ''./db''" "\<not> FLAGS_load (restore_flags sample_flags)"
  "\<not> FLAGS_tpch (restore_flags sample_flags)"
  by (simp_all add: restore_flags_def)

lemma the_bst_conf_restore [simp]: "the_bst_conf w (restore_flags fl) = the_bst_conf w fl"
  by (simp add: the_bst_conf_def restore_flags_def)

lemma sample_start_for_restore:
  "\<exists>c1. tgctl_start (sample_world (\<lambda>t fs. if t = 5 then server_boots sample_lock 7 fs else fs) state_activated) (restore_flags sample_flags)
     ''/opt/tsurugi/bin/tgctl'' True mode_maintenance_server (new_ctl empty_fs) = (c1, Inr rc_ok)"
proof -
  let ?w = "sample_world (\<lambda>t fs. if t = 5 then server_boots sample_lock 7 fs else fs) state_activated"
  obtain conf where conf: "snd (get_configuration sample_conf_env
     \<lparr>bc_conf_file = ''/etc/a.ini'', bc_lock_file = sample_lock, bc_configuration = Some sample_whole, bc_valid = True\<rparr>) = Inr (Some conf)"
    using sample_get_configuration by blast
  have path: "get_base_path ?w ''/opt/tsurugi/bin/tgctl'' c = (c, Inr ''/opt/tsurugi'')" for c
    by (simp add: get_base_path_def parent_path_def)
  have "0 < INT64_MAX" by (simp add: INT64_MAX_def)
  then show ?thesis
    unfolding tgctl_start_def the_bst_conf_restore sample_bst_conf
    by (simp add: start_force_def status_check_internal_of_def conf path build_args_def confirm_start_def
        wait_for_pid_def for_loop.simps pid_turn_def confirm_activation_def attach_turn_def activation_turn_def
        server_boots_def sample_stoi count_eval status_attempts_first ctl_eval)
qed

theorem restore_without_operand_witness:
  "\<exists>c1. restore_main (sample_tgctl_env (sample_world (\<lambda>t fs. if t = 5 then server_boots sample_lock 7 fs else fs) state_activated))
       sample_flags [''/opt/tsurugi/bin/tgctl'', ''restore''] \<lparr>ts_ctl = new_ctl empty_fs, ts_files = Map.empty\<rparr> =
     Some (\<lparr>ts_ctl = cerr (''need to specify restore subcommand'' @ nl) c1, ts_files = Map.empty\<rparr>, Inr 1)"
proof -
  let ?w = "sample_world (\<lambda>t fs. if t = 5 then server_boots sample_lock 7 fs else fs) state_activated"
  let ?s = "\<lparr>ts_ctl = new_ctl empty_fs, ts_files = Map.empty\<rparr>"
  obtain c1 where "tgctl_start ?w (restore_flags sample_flags) ''/opt/tsurugi/bin/tgctl'' True mode_maintenance_server (new_ctl empty_fs) = (c1, Inr rc_ok)"
    using sample_start_for_restore by blast
  then have start: "tgctl_start (te_world (sample_tgctl_env ?w)) (restore_flags sample_flags) ''/opt/tsurugi/bin/tgctl'' True
      mode_maintenance_server (ts_ctl ?s) = (c1, Inr rc_ok)" by simp
  have "FLAGS_timeout sample_flags = - 1" by simp
  from restore_without_operand [OF start this] show ?thesis by (intro exI [of _ c1]) simp
qed

text \<open>Enabling, disabling and rotating need the type of a log, which the help text does not tell.\<close>

lemma altimeter_needs_log_type:
  assumes "sub \<in> {''enable'', ''disable'', ''rotate''}"
  shows "\<exists>message. altimeter_main env fl ab [tgctl, ''altimeter'', sub] s = main_error message s"
  using assms by (auto simp: altimeter_main_def)

end
