(* ===== verification/Server_Settings.thy ===== *)
theory Server_Settings
  imports Configuration
begin

section \<open>The settings of the server's logs\<close>

text \<open>
  \<^verbatim>\<open>src/tateyama/server/glog_helper.h\<close> and \<^verbatim>\<open>src/tateyama/altimeter/altimeter_helper.cpp\<close>: the flags of glog, from
  the environment and the configuration, and the settings of the event log and the audit log.  The conversions of the
  values of the configuration are the fields of \<open>typed_get\<close>, the altimeter library is \<open>altimeter_lib\<close>; what is written to
  the log itself is left out.

  The exceptions that can end the server: a \<open>std::runtime_error\<close>, another exception, the use of a null pointer.
\<close>

datatype fault = Runtime_fault string | Other_fault string | Null_fault

type_synonym 'a fallible = "fault + 'a"

definition and_then :: "'a fallible \<Rightarrow> ('a \<Rightarrow> 'b fallible) \<Rightarrow> 'b fallible" where
  "and_then r f = (case r of Inl e \<Rightarrow> Inl e | Inr x \<Rightarrow> f x)"

lemma and_then_simps [simp]: "and_then (Inl e) f = Inl e" "and_then (Inr x) f = f x"
  by (simp_all add: and_then_def)

lemma and_then_ok [simp]: "and_then r f = Inr y \<longleftrightarrow> (\<exists>x. r = Inr x \<and> f x = Inr y)"
  by (cases r) simp_all

record typed_get =
  get_bool :: "section' \<Rightarrow> string \<Rightarrow> bool option fallible"
  get_int :: "section' \<Rightarrow> string \<Rightarrow> int option fallible"
  get_unsigned :: "section' \<Rightarrow> string \<Rightarrow> nat option fallible"
  get_path :: "whole \<Rightarrow> string \<Rightarrow> string \<Rightarrow> path option fallible"

definition get_section :: "whole \<Rightarrow> string \<Rightarrow> section' fallible" where
  "get_section conf name = (case wh_sections conf name of None \<Rightarrow> Inl Null_fault | Some sec \<Rightarrow> Inr sec)"

subsection \<open>\<open>setup_glog\<close>\<close>

text \<open>\<open>strtol(s, nullptr, 10)\<close> with a \<open>long\<close> of 64 bits, and the conversion to \<open>int32\<close>.\<close>

definition long_range :: "int \<Rightarrow> int" where
  "long_range v = max (- (2 ^ 63)) (min (2 ^ 63 - 1) v)"

definition strtol :: "string \<Rightarrow> int" where
  "strtol s =
     (let t = dropWhile is_space s;
          negative = (t \<noteq> [] \<and> hd t = CHR ''-'');
          u = (if t \<noteq> [] \<and> (hd t = CHR ''-'' \<or> hd t = CHR ''+'') then tl t else t);
          ds = takeWhile is_digit u
      in long_range (if negative then - int (digits_value ds) else int (digits_value ds)))"

definition to_int32 :: "int \<Rightarrow> int" where
  "to_int32 v = (v + 2 ^ 31) mod 2 ^ 32 - 2 ^ 31"

record glog_flags =
  gf_logtostderr :: bool
  gf_stderrthreshold :: int
  gf_minloglevel :: int
  gf_log_dir :: string
  gf_max_log_size :: int
  gf_v :: int
  gf_logbuflevel :: int

text \<open>One flag: its environment variable, else the configuration, else what it was.\<close>

definition glog_flag :: "(string \<Rightarrow> 'a) \<Rightarrow> string option \<Rightarrow> 'a option fallible \<Rightarrow> 'a \<Rightarrow> 'a fallible" where
  "glog_flag convert env value old =
     (case env of
        Some s \<Rightarrow> Inr (convert s)
      | None \<Rightarrow> and_then value (\<lambda>v. Inr (case v of None \<Rightarrow> old | Some x \<Rightarrow> x)))"

definition setup_glog :: "typed_get \<Rightarrow> (string \<Rightarrow> string option) \<Rightarrow> whole \<Rightarrow> glog_flags \<Rightarrow> glog_flags fallible" where
  "setup_glog tg getenv conf gf =
     and_then (get_section conf ''glog'') (\<lambda>sec.
     and_then (glog_flag (\<lambda>s. True) (getenv ''GLOG_logtostderr'') (get_bool tg sec ''logtostderr'')
       (gf_logtostderr gf)) (\<lambda>b.
     and_then (glog_flag (to_int32 \<circ> strtol) (getenv ''GLOG_stderrthreshold'') (get_int tg sec ''stderrthreshold'')
       (gf_stderrthreshold gf)) (\<lambda>threshold.
     and_then (glog_flag (to_int32 \<circ> strtol) (getenv ''GLOG_minloglevel'') (get_int tg sec ''minloglevel'')
       (gf_minloglevel gf)) (\<lambda>minloglevel.
     and_then (glog_flag id (getenv ''GLOG_log_dir'') (get_path tg conf ''glog'' ''log_dir'')
       (gf_log_dir gf)) (\<lambda>log_dir.
     and_then (glog_flag (to_int32 \<circ> strtol) (getenv ''GLOG_max_log_size'') (get_int tg sec ''max_log_size'')
       (gf_max_log_size gf)) (\<lambda>max_log_size.
     and_then (glog_flag (to_int32 \<circ> strtol) (getenv ''GLOG_v'') (get_int tg sec ''v'')
       (gf_v gf)) (\<lambda>v.
     and_then (glog_flag (to_int32 \<circ> strtol) (getenv ''GLOG_logbuflevel'') (get_int tg sec ''logbuflevel'')
       (gf_logbuflevel gf)) (\<lambda>logbuflevel.
     Inr \<lparr>gf_logtostderr = b, gf_stderrthreshold = threshold, gf_minloglevel = minloglevel, gf_log_dir = log_dir,
          gf_max_log_size = max_log_size, gf_v = v, gf_logbuflevel = logbuflevel\<rparr>))))))))"

subsection \<open>\<open>altimeter_helper\<close>\<close>

datatype log_type = event_log_type | audit_log_type

record altimeter_configuration =
  ac_category :: nat
  ac_output :: bool
  ac_directory :: path
  ac_level :: int
  ac_file_number :: nat
  ac_sync :: bool
  ac_buffer_size :: nat
  ac_flush_interval :: nat
  ac_flush_file_size :: nat
  ac_max_file_size :: nat

record altimeter_lib =
  al_event_category :: nat
  al_audit_category :: nat
  al_new :: altimeter_configuration
  al_start :: "altimeter_configuration list \<Rightarrow> string option"

datatype altimeter_effect =
    Set_stmt_duration_threshold nat
  | Logger_start "altimeter_configuration list"
  | Logger_shutdown

record altimeter_helper =
  ah_conf :: whole
  ah_cfgs :: "altimeter_configuration list"
  ah_shutdown :: bool

definition altimeter_helper_new :: "altimeter_lib \<Rightarrow> whole \<Rightarrow> altimeter_helper" where
  "altimeter_helper_new al conf = \<lparr>ah_conf = conf, ah_cfgs = [al_new al, al_new al], ah_shutdown = False\<rparr>"

text \<open>\<open>std::optional::value\<close>\<close>

definition opt_value :: "'a option fallible \<Rightarrow> 'a fallible" where
  "opt_value r = and_then r (\<lambda>v. case v of None \<Rightarrow> Inl (Other_fault ''bad optional access'') | Some x \<Rightarrow> Inr x)"

text \<open>The configuration and, for the event log, the threshold for the duration of statements.  An exception leaves the
  members of \<open>configuration\<close> that have been set; they are not used then.\<close>

definition altimeter_setup ::
    "typed_get \<Rightarrow> altimeter_lib \<Rightarrow> whole \<Rightarrow> string \<Rightarrow> log_type \<Rightarrow> (altimeter_configuration \<times> nat option) fallible" where
  "altimeter_setup tg al conf name type =
     and_then (get_section conf name) (\<lambda>sec.
     and_then (opt_value (get_bool tg sec ''output'')) (\<lambda>out.
     and_then (opt_value (get_path tg conf name ''directory'')) (\<lambda>directory.
     and_then (opt_value (get_int tg sec ''level'')) (\<lambda>level.
     and_then (opt_value (get_unsigned tg sec ''file_number'')) (\<lambda>file_number.
     and_then (opt_value (get_bool tg sec ''sync'')) (\<lambda>sync.
     and_then (opt_value (get_unsigned tg sec ''buffer_size'')) (\<lambda>buffer_size.
     and_then (opt_value (get_unsigned tg sec ''flush_interval'')) (\<lambda>flush_interval.
     and_then (opt_value (get_unsigned tg sec ''flush_file_size'')) (\<lambda>flush_file_size.
     and_then (opt_value (get_unsigned tg sec ''max_file_size'')) (\<lambda>max_file_size.
     and_then (if type = event_log_type
               then and_then (opt_value (get_unsigned tg sec ''stmt_duration_threshold'')) (\<lambda>d. Inr (Some d))
               else Inr None) (\<lambda>threshold.
     Inr (\<lparr>ac_category = (if type = event_log_type then al_event_category al else al_audit_category al),
           ac_output = out, ac_directory = directory, ac_level = level, ac_file_number = file_number, ac_sync = sync,
           ac_buffer_size = buffer_size, ac_flush_interval = flush_interval, ac_flush_file_size = flush_file_size,
           ac_max_file_size = max_file_size\<rparr>, threshold))))))))))))"

definition altimeter_start ::
    "typed_get \<Rightarrow> altimeter_lib \<Rightarrow> altimeter_helper \<Rightarrow> altimeter_helper \<times> altimeter_effect list \<times> unit fallible" where
  "altimeter_start tg al ah =
     (case altimeter_setup tg al (ah_conf ah) ''event_log'' event_log_type of
        Inl e \<Rightarrow> (ah, [], Inl e)
      | Inr (event, threshold) \<Rightarrow>
          (let ah = ah\<lparr>ah_cfgs := (ah_cfgs ah)[0 := event]\<rparr>;
               es = (case threshold of None \<Rightarrow> [] | Some d \<Rightarrow> [Set_stmt_duration_threshold d])
           in case altimeter_setup tg al (ah_conf ah) ''audit_log'' audit_log_type of
                Inl e \<Rightarrow> (ah, es, Inl e)
              | Inr (audit, none) \<Rightarrow>
                  (let ah = ah\<lparr>ah_cfgs := (ah_cfgs ah)[1 := audit]\<rparr>
                   in (ah, es @ [Logger_start (ah_cfgs ah)],
                       case al_start al (ah_cfgs ah) of None \<Rightarrow> Inr () | Some e \<Rightarrow> Inl (Other_fault e)))))"

definition altimeter_shutdown :: "altimeter_helper \<Rightarrow> altimeter_helper \<times> altimeter_effect list" where
  "altimeter_shutdown ah =
     (if ah_shutdown ah then (ah, []) else (ah\<lparr>ah_shutdown := True\<rparr>, [Logger_shutdown]))"

section \<open>Lemmas\<close>

lemma to_int32_range: "- (2 ^ 31) \<le> to_int32 v \<and> to_int32 v < 2 ^ 31"
  using pos_mod_bound [of "2 ^ 32" "v + 2 ^ 31"] pos_mod_sign [of "2 ^ 32" "v + 2 ^ 31"]
  by (simp add: to_int32_def)

lemma to_int32_id:
  assumes "- (2 ^ 31) \<le> v" "v < 2 ^ 31"
  shows "to_int32 v = v"
  using assms by (simp add: to_int32_def mod_pos_pos_trivial)

lemma glog_flag_ok:
  "glog_flag convert env value old = Inr x \<longleftrightarrow>
     (case env of Some s \<Rightarrow> x = convert s | None \<Rightarrow> value = Inr (Some x) \<or> value = Inr None \<and> x = old)"
  by (auto simp: glog_flag_def split: option.splits)

text \<open>Shutting down twice stops the logger once.\<close>

lemma altimeter_shutdown_once:
  "case altimeter_shutdown ah of (ah1, es1) \<Rightarrow> case altimeter_shutdown ah1 of (ah2, es2) \<Rightarrow>
     ah2 = ah1 \<and> es2 = []"
  by (simp add: altimeter_shutdown_def)

text \<open>The loggers are started only with both sections read, each with the category of its log, and a threshold for the
  duration of statements is set before.\<close>

lemma altimeter_start_ok:
  assumes "altimeter_start tg al (altimeter_helper_new al conf) = (ah, es, Inr ())"
  shows "\<exists>event audit d. altimeter_setup tg al conf ''event_log'' event_log_type = Inr (event, Some d) \<and>
    altimeter_setup tg al conf ''audit_log'' audit_log_type = Inr (audit, None) \<and>
    ac_category event = al_event_category al \<and> ac_category audit = al_audit_category al \<and>
    es = [Set_stmt_duration_threshold d, Logger_start [event, audit]] \<and> al_start al [event, audit] = None"
  using assms
  by (auto simp: altimeter_start_def altimeter_helper_new_def Let_def altimeter_setup_def split: sum.splits option.splits)

text \<open>The environment decides over the configuration; the value of \<^verbatim>\<open>GLOG_logtostderr\<close> does not matter.\<close>

lemma logtostderr_any_value:
  assumes "setup_glog tg getenv conf gf = Inr gf'" "getenv ''GLOG_logtostderr'' = Some x"
  shows "gf_logtostderr gf'"
  using assms by (auto simp: setup_glog_def glog_flag_def)

lemma setup_glog_environment:
  assumes "setup_glog tg getenv conf gf = Inr gf'" "getenv ''GLOG_v'' = Some x" "getenv ''GLOG_minloglevel'' = Some y"
  shows "gf_v gf' = to_int32 (strtol x)" "gf_minloglevel gf' = to_int32 (strtol y)"
  using assms by (auto simp: setup_glog_def glog_flag_def)

text \<open>Settings that do not fit an \<open>int32\<close> can only come from the configuration.\<close>

lemma glog_flag_int32:
  assumes "glog_flag (to_int32 \<circ> strtol) env value old = Inr x" "- (2 ^ 31) \<le> old" "old < 2 ^ 31"
    and "\<And>v. value = Inr (Some v) \<Longrightarrow> - (2 ^ 31) \<le> v \<and> v < 2 ^ 31"
  shows "- (2 ^ 31) \<le> x \<and> x < 2 ^ 31"
  using assms to_int32_range by (auto simp: glog_flag_ok split: option.splits)

end
