(* ===== verification/Server_Utils.thy ===== *)
theory Server_Utils
  imports Server_Settings
begin

section \<open>Dump files of tables\<close>

text \<open>
  \<^verbatim>\<open>src/tateyama/server/utils.cpp\<close>: the tables of two benchmarks are dumped to files and loaded from them.  The database
  is the parameter \<open>table_store\<close>; \<open>disk_env\<close> tells which creations and openings of files the operating system allows.
  A disk has the directories that exist (those above the one for the dump files are left out) and the contents of the files.
\<close>

record disk =
  dk_directories :: "path list"
  dk_files :: "path \<rightharpoonup> string"

record disk_env =
  de_create_directories :: "path \<Rightarrow> bool"
  de_writable :: "path \<Rightarrow> bool"
  de_readable :: "path \<Rightarrow> bool"

record 'db table_store =
  db_dump :: "'db \<Rightarrow> string \<Rightarrow> int \<Rightarrow> string \<times> unit fallible"
  db_load :: "'db \<Rightarrow> string \<Rightarrow> string \<Rightarrow> int \<Rightarrow> 'db \<times> unit fallible"

definition FLAGS_dump_batch_size :: int where
  "FLAGS_dump_batch_size = 1024"

definition FLAGS_load_batch_size :: int where
  "FLAGS_load_batch_size = 1024"

definition tables :: "string list" where
  "tables = [''WAREHOUSE'', ''DISTRICT'', ''CUSTOMER'', ''CUSTOMER_SECONDARY'', ''NEW_ORDER'', ''ORDERS'',
     ''ORDERS_SECONDARY'', ''ORDER_LINE'', ''ITEM'', ''STOCK'']"

definition prepare :: "disk_env \<Rightarrow> string \<Rightarrow> disk \<Rightarrow> disk \<times> path fallible" where
  "prepare de location d =
     (let dir = path_append location ''dump''
      in if dir \<in> set (dk_directories d) \<or> dk_files d dir \<noteq> None then (d, Inr dir)
         else if de_create_directories de dir then (d\<lparr>dk_directories := dir # dk_directories d\<rparr>, Inr dir)
         else (d, Inl (Runtime_fault ''Failed to create directory.'')))"

definition dump_file :: "path \<Rightarrow> string \<Rightarrow> path" where
  "dump_file dir table = path_append dir (table @ ''.tbldmp'')"

text \<open>The two loops.  Opening a file for writing makes it empty.\<close>

fun dump_tables :: "disk_env \<Rightarrow> 'db table_store \<Rightarrow> 'db \<Rightarrow> path \<Rightarrow> string list \<Rightarrow> disk \<Rightarrow> disk \<times> unit fallible" where
  "dump_tables de ts tgdb dir [] d = (d, Inr ())"
| "dump_tables de ts tgdb dir (table # rest) d =
     (let file = dump_file dir table
      in if \<not> de_writable de file then (d, Inl (Runtime_fault ''Failed to open file.''))
         else (case db_dump ts tgdb table FLAGS_dump_batch_size of
                 (text, r) \<Rightarrow>
                   (let d = d\<lparr>dk_files := (dk_files d)(file \<mapsto> text)\<rparr>
                    in case r of
                         Inl e \<Rightarrow> (d, Inl e)
                       | Inr u \<Rightarrow> dump_tables de ts tgdb dir rest d)))"

fun load_tables :: "disk_env \<Rightarrow> 'db table_store \<Rightarrow> path \<Rightarrow> disk \<Rightarrow> string list \<Rightarrow> 'db \<Rightarrow> 'db \<times> unit fallible" where
  "load_tables de ts dir d [] tgdb = (tgdb, Inr ())"
| "load_tables de ts dir d (table # rest) tgdb =
     (let file = dump_file dir table
      in case (if de_readable de file then dk_files d file else None) of
           None \<Rightarrow> (tgdb, Inl (Runtime_fault ''Failed to open file.''))
         | Some text \<Rightarrow>
             (case db_load ts tgdb text table FLAGS_load_batch_size of
                (tgdb, Inl e) \<Rightarrow> (tgdb, Inl e)
              | (tgdb, Inr u) \<Rightarrow> load_tables de ts dir d rest tgdb))"

definition dump :: "disk_env \<Rightarrow> 'db table_store \<Rightarrow> 'db \<Rightarrow> string \<Rightarrow> disk \<Rightarrow> disk \<times> unit fallible" where
  "dump de ts tgdb location d =
     (case prepare de location d of
        (d, Inl e) \<Rightarrow> (d, Inl e)
      | (d, Inr dir) \<Rightarrow> dump_tables de ts tgdb dir tables d)"

definition load :: "disk_env \<Rightarrow> 'db table_store \<Rightarrow> string \<Rightarrow> disk \<Rightarrow> 'db \<Rightarrow> disk \<times> 'db \<times> unit fallible" where
  "load de ts location d tgdb =
     (case prepare de location d of
        (d, Inl e) \<Rightarrow> (d, tgdb, Inl e)
      | (d, Inr dir) \<Rightarrow> (d, load_tables de ts dir d tables tgdb))"

definition tpch_tables :: "string list" where
  "tpch_tables = [''PART'', ''SUPPLIER'', ''PARTSUPP'', ''CUSTOMER'', ''ORDERS'', ''LINEITEM'', ''NATION'', ''REGION'']"

definition dump_tpch :: "disk_env \<Rightarrow> 'db table_store \<Rightarrow> 'db \<Rightarrow> string \<Rightarrow> disk \<Rightarrow> disk \<times> unit fallible" where
  "dump_tpch de ts tgdb location d =
     (case prepare de location d of
        (d, Inl e) \<Rightarrow> (d, Inl e)
      | (d, Inr dir) \<Rightarrow> dump_tables de ts tgdb dir tpch_tables d)"

definition load_tpch :: "disk_env \<Rightarrow> 'db table_store \<Rightarrow> string \<Rightarrow> disk \<Rightarrow> 'db \<Rightarrow> disk \<times> 'db \<times> unit fallible" where
  "load_tpch de ts location d tgdb =
     (case prepare de location d of
        (d, Inl e) \<Rightarrow> (d, tgdb, Inl e)
      | (d, Inr dir) \<Rightarrow> (d, load_tables de ts dir d tpch_tables tgdb))"

section \<open>Lemmas\<close>

text \<open>What the database promises: loading what a dump of a table wrote gives the table those rows and leaves the others.\<close>

definition loads_dumps :: "'db table_store \<Rightarrow> ('db \<Rightarrow> string \<Rightarrow> 'rows) \<Rightarrow> bool" where
  "loads_dumps ts rows \<longleftrightarrow>
     (\<forall>db rs t n db' m. db_dump ts db t n = (rs, Inr ()) \<longrightarrow>
        (\<exists>db''. db_load ts db' rs t m = (db'', Inr ()) \<and> rows db'' = (rows db')(t := rows db t)))"

definition plain_name :: "string \<Rightarrow> bool" where
  "plain_name t \<longleftrightarrow> t \<noteq> [] \<and> hd t \<noteq> CHR ''/''"

lemma dump_file_inj:
  assumes "dump_file dir t = dump_file dir u" "plain_name t" "plain_name u"
  shows "t = u"
  using assms by (simp add: dump_file_def path_append_def plain_name_def split: if_splits)

lemma dump_tables_files:
  assumes "dump_tables de ts db dir ts' d = (d', Inr ())" "list_all plain_name ts'" "distinct ts'"
  shows "dk_directories d' = dk_directories d \<and>
    (\<forall>t \<in> set ts'. \<exists>rs. db_dump ts db t FLAGS_dump_batch_size = (rs, Inr ()) \<and>
       dk_files d' (dump_file dir t) = Some rs) \<and>
    (\<forall>p. p \<notin> dump_file dir ` set ts' \<longrightarrow> dk_files d' p = dk_files d p)"
  using assms
proof (induction ts' arbitrary: d)
  case (Cons t ts')
  obtain rs where dump: "db_dump ts db t FLAGS_dump_batch_size = (rs, Inr ())"
    and rest: "dump_tables de ts db dir ts' (d\<lparr>dk_files := (dk_files d)(dump_file dir t \<mapsto> rs)\<rparr>) = (d', Inr ())"
    using Cons.prems(1) by (auto simp: Let_def split: if_splits prod.splits sum.splits)
  have "dump_file dir t \<notin> dump_file dir ` set ts'"
    using Cons.prems(2,3) dump_file_inj by (fastforce simp: list_all_iff)
  then show ?case using Cons.IH [OF rest] Cons.prems(2,3) dump by auto
qed simp

lemma load_tables_rows:
  assumes "loads_dumps ts rows" "list_all (de_readable de \<circ> dump_file dir) ts'"
    and "\<forall>t \<in> set ts'. \<exists>rs. db_dump ts db t n = (rs, Inr ()) \<and> dk_files d (dump_file dir t) = Some rs"
  shows "\<exists>db''. load_tables de ts dir d ts' db' = (db'', Inr ()) \<and>
    rows db'' = override_on (rows db') (rows db) (set ts')"
  using assms(2,3)
proof (induction ts' arbitrary: db')
  case (Cons t ts')
  then obtain rs where rs: "db_dump ts db t n = (rs, Inr ())" "dk_files d (dump_file dir t) = Some rs"
    by auto
  obtain db1 where db1: "db_load ts db' rs t FLAGS_load_batch_size = (db1, Inr ())"
      "rows db1 = (rows db')(t := rows db t)"
    using assms(1) rs(1) unfolding loads_dumps_def by metis
  obtain db2 where "load_tables de ts dir d ts' db1 = (db2, Inr ())"
      "rows db2 = override_on (rows db1) (rows db) (set ts')"
    using Cons.IH [of db1] Cons.prems by auto
  then show ?case using Cons.prems rs db1 by (auto simp: override_on_def)
qed simp

lemma prepare_twice:
  assumes "prepare de location d = (d1, Inr dir)" "dk_directories d2 = dk_directories d1"
    and "dk_files d1 dir \<noteq> None \<Longrightarrow> dk_files d2 dir \<noteq> None"
  shows "prepare de location d2 = (d2, Inr dir)"
  using assms by (auto simp: prepare_def Let_def split: if_splits)

text \<open>Dumping the tables to a place from which they can be read, and loading them from there.\<close>

lemma dump_load_tables:
  assumes "prepare de location d = (d1, Inr dir)" "dump_tables de ts db dir ts' d1 = (d2, Inr ())"
    and "list_all plain_name ts'" "distinct ts'"
    and "loads_dumps ts rows" "list_all (de_readable de \<circ> dump_file dir) ts'"
  shows "prepare de location d2 = (d2, Inr dir) \<and>
    (\<exists>db''. load_tables de ts dir d2 ts' db' = (db'', Inr ()) \<and>
       rows db'' = override_on (rows db') (rows db) (set ts'))"
proof -
  note files = dump_tables_files [OF assms(2-4)]
  have "dk_files d1 dir \<noteq> None \<Longrightarrow> dk_files d2 dir \<noteq> None"
    using files by (cases "dir \<in> dump_file dir ` set ts'") fastforce+
  then have "prepare de location d2 = (d2, Inr dir)"
    using prepare_twice [OF assms(1)] files by blast
  then show ?thesis using load_tables_rows [OF assms(5,6)] files by blast
qed

lemma tpch_names: "list_all plain_name tpch_tables" "distinct tpch_tables"
  by (simp_all add: tpch_tables_def plain_name_def)


text \<open>A store whose tables are strings, and which dumps them as they are.\<close>

definition plain_store :: "(string \<Rightarrow> string) table_store" where
  "plain_store = \<lparr>db_dump = (\<lambda>db t n. (db t, Inr ())), db_load = (\<lambda>db rs t n. (db(t := rs), Inr ()))\<rparr>"

definition open_disk :: disk_env where
  "open_disk = \<lparr>de_create_directories = (\<lambda>p. True), de_writable = (\<lambda>p. True), de_readable = (\<lambda>p. True)\<rparr>"


end
