(* ===== verification/Server_Backend.thy ===== *)
theory Server_Backend
  imports Process_State Server_Utils
begin

section \<open>The server's main function\<close>

text \<open>
  \<^verbatim>\<open>src/tateyama/server/backend.cpp\<close>: how the server process comes up, serves and ends.  The state has the file
  system with the lock files, the local variables of \<open>backend_main\<close> that own something, the disk and the database for
  \<open>load_tpch\<close>, and the list of what the process did to its surroundings, in order; \<open>Status\<close> is a state it published.

  The framework of the server, the database engine, the conversions of settings and the altimeter library are
  parameters (\<open>server_env\<close>).  Other processes act on the file system before each operation on a lock file
  (\<open>se_others\<close>).  Messages to the log and the handler for \<open>SIGHUP\<close> are left out; \<open>se_altimeter\<close> is \<open>None\<close> when
  \<^verbatim>\<open>ENABLE_ALTIMETER\<close> is not defined.
\<close>

datatype server_event =
    Altimeter altimeter_effect
  | Server_new boot_mode
  | Add_core_components
  | Add_resource string
  | Add_service string
  | Server_setup
  | Server_start
  | Server_shutdown
  | Status server_state
  | Mutex_file path
  | Prepare_benchmark_tables
  | Add_print_callback string
  | Wait_for_shutdown

record 'db server =
  sv_fs :: file_system
  sv_tick :: nat
  sv_events :: "server_event list"
  sv_disk :: disk
  sv_db :: 'db
  sv_altimeter :: "altimeter_helper option"
  sv_mutex :: "proc_mutex option"
  sv_shm_mutex :: "proc_mutex option"

record 'db server_env =
  se_conf :: conf_env
  se_get :: typed_get
  se_getenv :: "string \<Rightarrow> string option"
  se_glog :: glog_flags
  se_altimeter :: "altimeter_lib option"
  se_write_json :: "whole \<Rightarrow> string option"
  se_others :: "nat \<Rightarrow> file_system \<Rightarrow> file_system"
  se_pid :: nat
  se_moved :: "path \<Rightarrow> path"
  se_setup :: "bool fallible"
  se_start :: "bool fallible"
  se_database :: bool
  se_store :: "'db table_store"
  se_disk :: disk_env
  se_shutdown_requested :: bool

text \<open>How \<open>backend_main\<close> is left before its end: \<open>exit(1)\<close>, which runs no destructor of a local variable, an exception,
  \<open>std::abort\<close>.\<close>

datatype server_fail = Exit_1 | Throws fault | Aborts

type_synonym ('db, 'a) action = "'db server \<Rightarrow> 'db server \<times> (server_fail + 'a)"

definition then_do :: "('db, 'a) action \<Rightarrow> ('a \<Rightarrow> ('db, 'b) action) \<Rightarrow> ('db, 'b) action" where
  "then_do a f s = (case a s of (s, Inl e) \<Rightarrow> (s, Inl e) | (s, Inr x) \<Rightarrow> f x s)"

definition event :: "server_event \<Rightarrow> 'db server \<Rightarrow> 'db server" where
  "event e s = s\<lparr>sv_events := sv_events s @ [e]\<rparr>"

definition run_others :: "'db server_env \<Rightarrow> 'db server \<Rightarrow> 'db server" where
  "run_others env s = s\<lparr>sv_fs := se_others env (sv_tick s) (sv_fs s), sv_tick := Suc (sv_tick s)\<rparr>"

subsection \<open>Until the lock file is locked\<close>

definition read_configuration :: "'db server_env \<Rightarrow> flags \<Rightarrow> ('db, path \<times> whole) action" where
  "read_configuration env fl s =
     (s, let bst_conf = create_bootstrap_configuration (se_conf env) (FLAGS_conf fl)
         in if \<not> bc_valid bst_conf then Inl Exit_1
            else (case get_configuration (se_conf env) bst_conf of
                    (bst_conf, Inl Null_pointer) \<Rightarrow> Inl (Throws Null_fault)
                  | (bst_conf, Inl e) \<Rightarrow> Inl Exit_1
                  | (bst_conf, Inr None) \<Rightarrow> Inl Exit_1
                  | (bst_conf, Inr (Some conf)) \<Rightarrow>
                      (case setup_glog (se_get env) (se_getenv env) conf (se_glog env) of
                         Inl (Runtime_fault e) \<Rightarrow> Inl Exit_1
                       | Inl f \<Rightarrow> Inl (Throws f)
                       | Inr gf \<Rightarrow> Inr (bc_lock_file bst_conf, conf))))"

text \<open>The result is \<open>altimeter_wellness\<close>.\<close>

definition start_altimeter :: "'db server_env \<Rightarrow> whole \<Rightarrow> ('db, bool) action" where
  "start_altimeter env conf s =
     (case se_altimeter env of
        None \<Rightarrow> (s, Inr True)
      | Some al \<Rightarrow>
          (case altimeter_start (se_get env) al (altimeter_helper_new al conf) of
             (ah, es, r) \<Rightarrow>
               (s\<lparr>sv_altimeter := Some ah, sv_events := sv_events s @ map Altimeter es\<rparr>,
                case r of
                  Inr u \<Rightarrow> Inr True
                | Inl Null_fault \<Rightarrow> Inl (Throws Null_fault)
                | Inl f \<Rightarrow> Inr False)))"

definition print_configuration :: "'db server_env \<Rightarrow> whole \<Rightarrow> ('db, unit) action" where
  "print_configuration env conf s =
     (s, case se_write_json env conf of None \<Rightarrow> Inr () | Some e \<Rightarrow> Inl Exit_1)"

definition take_lock :: "'db server_env \<Rightarrow> path \<Rightarrow> ('db, unit) action" where
  "take_lock env mutex_file s =
     (let s = run_others env s
      in case pm_new (sv_fs s) mutex_file True True of
           (fs, Inl e) \<Rightarrow> (s\<lparr>sv_fs := fs\<rparr>, Inl Exit_1)
         | (fs, Inr m) \<Rightarrow>
             (let s = run_others env (s\<lparr>sv_fs := fs\<rparr>)
              in case pm_lock (sv_fs s) m of
                   (fs, m, Inl e) \<Rightarrow> (s\<lparr>sv_fs := fs, sv_mutex := Some m\<rparr>, Inl Exit_1)
                 | (fs, m, Inr u) \<Rightarrow> (s\<lparr>sv_fs := fs, sv_mutex := Some m\<rparr>, Inr ())))"

definition backend_lock :: "'db server_env \<Rightarrow> flags \<Rightarrow> ('db, path \<times> whole \<times> bool) action" where
  "backend_lock env fl =
     then_do (read_configuration env fl) (\<lambda>(mutex_file, conf).
     then_do (start_altimeter env conf) (\<lambda>altimeter_wellness.
     then_do (print_configuration env conf) (\<lambda>u.
     then_do (take_lock env mutex_file) (\<lambda>u s. (s, Inr (mutex_file, conf, altimeter_wellness))))))"

subsection \<open>Until the server is active\<close>

definition selected_mode :: "flags \<Rightarrow> boot_mode" where
  "selected_mode fl =
     (if FLAGS_maintenance_server fl then mode_maintenance_server
      else if FLAGS_quiesce fl then mode_quiescent_server
      else mode_database_server)"

definition tpch_mode :: "flags \<Rightarrow> bool" where
  "tpch_mode fl \<longleftrightarrow> FLAGS_load fl \<and> FLAGS_tpch fl"

text \<open>\<open>FLAGS_load\<close> after the choice of the mode.\<close>

definition load_flag :: "flags \<Rightarrow> bool" where
  "load_flag fl \<longleftrightarrow> FLAGS_load fl \<and> selected_mode fl = mode_database_server"

definition new_server :: "flags \<Rightarrow> ('db, unit) action" where
  "new_server fl s =
     (fold event
        [Server_new (selected_mode fl), Add_core_components, Add_resource ''jogasaki::api::resource::bridge'',
         Add_service ''jogasaki::api::service::bridge'', Add_resource ''jogasaki::api::kvsservice::resource'',
         Add_service ''jogasaki::api::kvsservice::service''] s,
      Inr ())"

definition setup_server :: "'db server_env \<Rightarrow> bool \<Rightarrow> ('db, unit) action" where
  "setup_server env altimeter_wellness s =
     (let s = event Server_setup s
      in case se_setup env of
           Inl f \<Rightarrow> (s, Inl (Throws f))
         | Inr False \<Rightarrow> (event (Status state_boot_error) s, Inl Exit_1)
         | Inr True \<Rightarrow>
             if \<not> altimeter_wellness then (event Server_shutdown s, Inl Exit_1) else (s, Inr ()))"

definition fill_lock_file :: "'db server_env \<Rightarrow> path \<Rightarrow> ('db, unit) action" where
  "fill_lock_file env mutex_file s =
     (let s = run_others env s
      in case sv_mutex s of
           None \<Rightarrow> (s, Inl (Throws Null_fault))
         | Some m \<Rightarrow>
             (case pm_fill_contents (sv_fs s) m (se_pid env) of
                (fs, Inl e) \<Rightarrow> (s\<lparr>sv_fs := fs\<rparr>, Inl (Throws (Runtime_fault (what e))))
              | (fs, Inr u) \<Rightarrow> (event (Mutex_file mutex_file) (s\<lparr>sv_fs := fs\<rparr>), Inr ())))"

definition take_shm_lock :: "'db server_env \<Rightarrow> whole \<Rightarrow> ('db, unit) action" where
  "take_shm_lock env conf s =
     (case get_section conf ''ipc_endpoint'' of
        Inl f \<Rightarrow> (s, Inl (Throws f))
      | Inr sec \<Rightarrow>
          (case sec ''database_name'' of
             None \<Rightarrow> (s, Inr ())
           | Some database_name \<Rightarrow>
               (case get_section conf ''system'' of
                  Inl f \<Rightarrow> (s, Inl (Throws f))
                | Inr system \<Rightarrow>
                    (case ce_get_path (se_conf env) conf ''system'' ''pid_directory'' of
                       None \<Rightarrow> (s, Inr ())
                     | Some d \<Rightarrow>
                         (let s = run_others env s;
                              lock_file = path_append d (lock_file_name database_name)
                          in case shm_mutex_new (sv_fs s) lock_file (se_moved env lock_file) of
                               (fs, Inl e) \<Rightarrow>
                                 (event Server_shutdown (event (Status state_boot_error) (s\<lparr>sv_fs := fs\<rparr>)), Inl Exit_1)
                             | (fs, Inr m) \<Rightarrow> (s\<lparr>sv_fs := fs, sv_shm_mutex := Some m\<rparr>, Inr ()))))))"

definition prepare_tables :: "'db server_env \<Rightarrow> flags \<Rightarrow> ('db, unit) action" where
  "prepare_tables env fl s =
     ((if se_database env \<and> tpch_mode fl then event Prepare_benchmark_tables s else s), Inr ())"

definition start_server :: "'db server_env \<Rightarrow> ('db, unit) action" where
  "start_server env s =
     (let s = event Server_start (event (Status state_ready) s)
      in case se_start env of
           Inl f \<Rightarrow> (s, Inl (Throws f))
         | Inr False \<Rightarrow> (event Server_shutdown (event (Status state_boot_error) s), Inl Exit_1)
         | Inr True \<Rightarrow> (event (Add_print_callback ''sharksfin'') s, Inr ()))"

definition load_tables_of :: "'db server_env \<Rightarrow> flags \<Rightarrow> ('db, unit) action" where
  "load_tables_of env fl s =
     (if load_flag fl \<and> tpch_mode fl then
        if \<not> se_database env then (s, Inl (Throws Null_fault))
        else (case load_tpch (se_disk env) (se_store env) (FLAGS_location fl) (sv_disk s) (sv_db s) of
                (d, db, r) \<Rightarrow>
                  (s\<lparr>sv_disk := d, sv_db := db\<rparr>,
                   case r of
                     Inr u \<Rightarrow> Inr ()
                   | Inl Null_fault \<Rightarrow> Inl (Throws Null_fault)
                   | Inl f \<Rightarrow> Inl Aborts))
      else (s, Inr ()))"

definition backend_up :: "'db server_env \<Rightarrow> flags \<Rightarrow> path \<times> whole \<times> bool \<Rightarrow> ('db, unit) action" where
  "backend_up env fl = (\<lambda>(mutex_file, conf, altimeter_wellness).
     then_do (new_server fl) (\<lambda>u.
     then_do (setup_server env altimeter_wellness) (\<lambda>u.
     then_do (fill_lock_file env mutex_file) (\<lambda>u.
     then_do (take_shm_lock env conf) (\<lambda>u.
     then_do (prepare_tables env fl) (\<lambda>u.
     then_do (start_server env) (\<lambda>u.
     then_do (load_tables_of env fl) (\<lambda>u s.
       (event (Status state_activated) s, Inr ())))))))))"

definition backend_boot :: "'db server_env \<Rightarrow> flags \<Rightarrow> ('db, unit) action" where
  "backend_boot env fl = then_do (backend_lock env fl) (backend_up env fl)"

subsection \<open>The end of the process\<close>

definition shutdown_altimeter :: "'db server \<Rightarrow> 'db server" where
  "shutdown_altimeter s =
     (case sv_altimeter s of
        None \<Rightarrow> s
      | Some ah \<Rightarrow>
          (case altimeter_shutdown ah of
             (ah, es) \<Rightarrow> s\<lparr>sv_altimeter := Some ah, sv_events := sv_events s @ map Altimeter es\<rparr>))"

text \<open>A mutex that the process owns is destroyed, or its descriptor is closed by the system.\<close>

definition drop_mutex :: "'db server_env \<Rightarrow> (file_system \<Rightarrow> proc_mutex \<Rightarrow> file_system) \<Rightarrow> proc_mutex option \<Rightarrow> 'db server \<Rightarrow> 'db server" where
  "drop_mutex env how mo s =
     (case mo of
        None \<Rightarrow> s
      | Some m \<Rightarrow> (let s = run_others env s in s\<lparr>sv_fs := how (sv_fs s) m\<rparr>))"

text \<open>The destructors of the local variables, in the reverse order of the declarations.\<close>

definition unwind :: "'db server_env \<Rightarrow> 'db server \<Rightarrow> 'db server" where
  "unwind env s =
     shutdown_altimeter (drop_mutex env pm_delete (sv_mutex s) (drop_mutex env pm_delete (sv_shm_mutex s) s))"

definition close_descriptors :: "'db server_env \<Rightarrow> 'db server \<Rightarrow> 'db server" where
  "close_descriptors env s =
     drop_mutex env pm_delete_close (sv_mutex s) (drop_mutex env pm_delete_close (sv_shm_mutex s) s)"

datatype server_end = Exits nat | Killed

text \<open>The handlers of \<open>main\<close>.\<close>

definition main_catch :: "'db server_env \<Rightarrow> server_fail \<Rightarrow> 'db server \<Rightarrow> 'db server \<times> server_end" where
  "main_catch env e s =
     (case e of
        Exit_1 \<Rightarrow> (close_descriptors env s, Exits 1)
      | Throws (Runtime_fault w) \<Rightarrow> (unwind env s, Exits 1)
      | Throws (Other_fault w) \<Rightarrow> (unwind env s, Exits 2)
      | Throws Null_fault \<Rightarrow> (close_descriptors env s, Killed)
      | Aborts \<Rightarrow> (close_descriptors env s, Killed))"

definition backend_down :: "'db server_env \<Rightarrow> 'db server \<Rightarrow> 'db server" where
  "backend_down env s =
     (let s = event Wait_for_shutdown s;
          s = event (Status state_deactivating) s;
          s = event Server_shutdown s;
          s = shutdown_altimeter s;
          s = event (Status state_deactivated) s
      in unwind env s)"

text \<open>\<open>None\<close>: the server still waits for a request to shut down.\<close>

definition main :: "'db server_env \<Rightarrow> flags \<Rightarrow> 'db server \<Rightarrow> ('db server \<times> server_end) option" where
  "main env fl s =
     (case backend_boot env fl s of
        (s, Inl e) \<Rightarrow> Some (main_catch env e s)
      | (s, Inr u) \<Rightarrow> if se_shutdown_requested env then Some (backend_down env s, Exits 0) else None)"

section \<open>The states the server publishes\<close>

fun status_of :: "server_event \<Rightarrow> server_state option" where
  "status_of (Status st) = Some st"
| "status_of _ = None"

definition published :: "'db server \<Rightarrow> server_state list" where
  "published s = List.map_filter status_of (sv_events s)"

text \<open>The life of a server as its clients may rely on it: a state and the ones that may follow it.\<close>

fun next_state :: "server_state \<Rightarrow> server_state \<Rightarrow> bool" where
  "next_state state_initial st \<longleftrightarrow> st = state_ready \<or> st = state_boot_error"
| "next_state state_ready st \<longleftrightarrow> st = state_activated \<or> st = state_boot_error"
| "next_state state_activated st \<longleftrightarrow> st = state_deactivating"
| "next_state state_deactivating st \<longleftrightarrow> st = state_deactivated"
| "next_state _ st \<longleftrightarrow> False"

text \<open>What holds after an action, and after one that is left early.\<close>

definition triple ::
    "('db server \<Rightarrow> bool) \<Rightarrow> ('db, 'a) action \<Rightarrow> ('a \<Rightarrow> 'db server \<Rightarrow> bool) \<Rightarrow> ('db server \<Rightarrow> bool) \<Rightarrow> bool" where
  "triple P a Q E \<longleftrightarrow> (\<forall>s. P s \<longrightarrow> (case a s of (s', Inl e) \<Rightarrow> E s' | (s', Inr x) \<Rightarrow> Q x s'))"

lemma triple_then:
  assumes "triple P a R E" "\<And>x. triple (R x) (f x) Q E"
  shows "triple P (then_do a f) Q E"
  using assms by (fastforce simp: triple_def then_do_def split: prod.splits sum.splits)

lemma triple_weaken: "triple P a Q E \<Longrightarrow> (\<And>s. E s \<Longrightarrow> E' s) \<Longrightarrow> triple P a Q E'"
  by (fastforce simp: triple_def split: prod.splits sum.splits)

lemma triple_result: "triple P a Q E \<Longrightarrow> P s \<Longrightarrow> a s = (s', Inr x) \<Longrightarrow> Q x s'"
  by (fastforce simp: triple_def)

lemma triple_fails: "triple P a Q E \<Longrightarrow> P s \<Longrightarrow> a s = (s', Inl e) \<Longrightarrow> E s'"
  by (fastforce simp: triple_def)

lemma published_simps [simp]:
  "published (event e s) = published s @ (case status_of e of None \<Rightarrow> [] | Some st \<Rightarrow> [st])"
  "published (s\<lparr>sv_fs := fs\<rparr>) = published s" "published (s\<lparr>sv_tick := n\<rparr>) = published s"
  "published (s\<lparr>sv_disk := d\<rparr>) = published s" "published (s\<lparr>sv_db := db\<rparr>) = published s"
  "published (s\<lparr>sv_altimeter := ah\<rparr>) = published s" "published (s\<lparr>sv_mutex := m\<rparr>) = published s"
  "published (s\<lparr>sv_shm_mutex := m\<rparr>) = published s"
  by (simp_all add: published_def event_def map_filter_def split: option.splits)

lemma published_altimeter [simp]:
  "published (s\<lparr>sv_altimeter := ah, sv_events := sv_events s @ map Altimeter es\<rparr>) = published s"
  by (simp add: published_def map_filter_def filter_False)

lemma published_others [simp]: "published (run_others env s) = published s"
  by (simp add: run_others_def)

lemma published_drop [simp]: "published (drop_mutex env how mo s) = published s"
  by (simp add: drop_mutex_def Let_def split: option.splits)

lemma published_shutdown [simp]: "published (shutdown_altimeter s) = published s"
  by (simp add: shutdown_altimeter_def split: option.splits prod.splits)

lemma published_end [simp]: "published (unwind env s) = published s" "published (close_descriptors env s) = published s"
  by (simp_all add: unwind_def close_descriptors_def)

abbreviation publishes :: "server_state list \<Rightarrow> 'db server \<Rightarrow> bool" where
  "publishes sts s \<equiv> published s = sts"

text \<open>A server that does not come up has published that, or has stopped before it was ready or while it was.\<close>

definition boot_failed :: "'db server \<Rightarrow> bool" where
  "boot_failed s \<longleftrightarrow> published s \<in> {[], [state_boot_error], [state_ready], [state_ready, state_boot_error]}"

lemma boot_failedI [simp, intro]: "publishes [] s \<Longrightarrow> boot_failed s" "publishes [state_ready] s \<Longrightarrow> boot_failed s"
  by (simp_all add: boot_failed_def)

lemma triple_split: "(\<And>a b. x = (a, b) \<Longrightarrow> triple P (f a b) Q E) \<Longrightarrow> triple P (case x of (a, b) \<Rightarrow> f a b) Q E"
  by (cases x) simp

lemma triple_return: "(\<And>s. P s \<Longrightarrow> Q x s) \<Longrightarrow> triple P (\<lambda>s. (s, Inr x)) Q E"
  by (simp add: triple_def)

lemma read_configuration_triple: "triple P (read_configuration env fl) (\<lambda>x. P) P"
  by (simp add: triple_def read_configuration_def split: prod.splits sum.splits)

lemma print_configuration_triple: "triple P (print_configuration env conf) (\<lambda>x. P) P"
  by (simp add: triple_def print_configuration_def split: option.splits)

lemma start_altimeter_publishes: "triple (publishes sts) (start_altimeter env conf) (\<lambda>x. publishes sts) (publishes sts)"
  by (simp add: triple_def start_altimeter_def split: prod.splits sum.splits option.splits fault.splits)

lemma take_lock_publishes: "triple (publishes sts) (take_lock env file) (\<lambda>x. publishes sts) (publishes sts)"
  by (simp add: triple_def take_lock_def Let_def split: prod.splits sum.splits)

lemma backend_lock_publishes: "triple (publishes []) (backend_lock env fl) (\<lambda>x. publishes []) (publishes [])"
  unfolding backend_lock_def
  by (rule triple_then triple_split read_configuration_triple start_altimeter_publishes print_configuration_triple
      take_lock_publishes triple_return | assumption)+

lemma new_server_publishes: "triple (publishes []) (new_server fl) (\<lambda>x. publishes []) boot_failed"
  by (simp add: triple_def new_server_def)

lemma setup_server_publishes: "triple (publishes []) (setup_server env ok) (\<lambda>x. publishes []) boot_failed"
  by (auto simp: triple_def setup_server_def Let_def boot_failed_def split: sum.splits bool.splits)

lemma fill_lock_file_publishes: "triple (publishes []) (fill_lock_file env file) (\<lambda>x. publishes []) boot_failed"
  by (simp add: triple_def fill_lock_file_def Let_def split: option.splits prod.splits sum.splits)

lemma take_shm_lock_publishes: "triple (publishes []) (take_shm_lock env conf) (\<lambda>x. publishes []) boot_failed"
  by (simp add: triple_def take_shm_lock_def Let_def boot_failed_def split: option.splits prod.splits sum.splits)

lemma prepare_tables_publishes: "triple (publishes []) (prepare_tables env fl) (\<lambda>x. publishes []) boot_failed"
  by (simp add: triple_def prepare_tables_def)

lemma start_server_publishes: "triple (publishes []) (start_server env) (\<lambda>x. publishes [state_ready]) boot_failed"
  by (auto simp: triple_def start_server_def Let_def boot_failed_def split: sum.splits bool.splits)

lemma load_tables_of_publishes:
  "triple (publishes [state_ready]) (load_tables_of env fl) (\<lambda>x. publishes [state_ready]) boot_failed"
  by (simp add: triple_def load_tables_of_def split: prod.splits sum.splits fault.splits)

lemma publish_activated:
  "triple (publishes [state_ready]) (\<lambda>s. (event (Status state_activated) s, Inr ()))
     (\<lambda>x. publishes [state_ready, state_activated]) boot_failed"
  by (simp add: triple_def)

lemma backend_up_publishes:
  "triple (publishes []) (backend_up env fl x) (\<lambda>x. publishes [state_ready, state_activated]) boot_failed"
  unfolding backend_up_def
  by (rule triple_then triple_split new_server_publishes setup_server_publishes fill_lock_file_publishes
      take_shm_lock_publishes prepare_tables_publishes start_server_publishes load_tables_of_publishes publish_activated)+

lemma backend_boot_publishes:
  "triple (publishes []) (backend_boot env fl) (\<lambda>x. publishes [state_ready, state_activated]) boot_failed"
  unfolding backend_boot_def
  by (rule triple_then [OF triple_weaken [OF backend_lock_publishes] backend_up_publishes]) simp

section \<open>The lock file while the server runs\<close>

lemma pm_inv_single: "pm_inv (fs, [k \<mapsto> m]) \<longleftrightarrow> fs_ok fs \<and> pm_ok fs m"
  by (auto simp: pm_inv_def)

lemma pm_inv_forget:
  assumes "pm_inv (fs, ms(k \<mapsto> m))" "ms k = None"
  shows "pm_inv (fs, ms)"
proof -
  have sub: "(ms(k \<mapsto> m)) j = Some n" if "ms j = Some n" for j n
    using that assms(2) by auto
  note p = pm_inv_parts [OF assms(1)]
  show ?thesis unfolding pm_inv_def prod.case using p(1) p(2,3) [OF sub] p(3) [OF sub sub] by blast
qed

text \<open>Trying for the lock of the database's name does not disturb other mutexes.\<close>

lemma pm_lock_failed: "pm_lock fs m = (fs', m', Inl e) \<Longrightarrow> m' = m"
  by (auto simp: pm_lock_def split: option.splits prod.splits bool.splits)

lemma pm_new_not_owner: "pm_new fs p create throw = (fs', Inr m) \<Longrightarrow> \<not> pm_owner m \<and> pm_lock_file m = p"
  by (auto simp: pm_new_def split: prod.splits if_splits)

lemma pm_lock_step:
  assumes "pm_inv (fs, ms(k \<mapsto> m))" "ms k = None" "\<not> pm_owner m" "pm_lock fs m = (fs', m', r)"
  shows "pm_inv (fs', ms)" "r = Inl e \<Longrightarrow> pm_inv (pm_delete fs' m', ms)"
proof -
  have inv: "pm_inv (fs', ms(k \<mapsto> m'))"
    using pm_lock_inv [OF assms(1) _ assms(4), of k] by simp
  then show "pm_inv (fs', ms)" using pm_inv_forget assms(2) by blast
  assume "r = Inl e"
  then have "\<not> pm_owner m'" using pm_lock_failed assms(3,4) by blast
  from pm_delete_inv [OF inv _ this, of k] show "pm_inv (pm_delete fs' m', ms)"
    using assms(2) by (simp add: fun_upd_idem)
qed

lemma shm_retry_inv:
  assumes "pm_new fs q False True = (fs1, second)" "ms k = None"
    and "pm_inv (destroy fs1, ms)" "\<And>m. second = Inr m \<Longrightarrow> pm_inv (destroy fs1, ms(k \<mapsto> m))"
  shows "case second of Inl e \<Rightarrow> pm_inv (destroy fs1, ms)
    | Inr m \<Rightarrow> (case pm_lock (destroy fs1) m of
         (fs2, m', Inl e) \<Rightarrow> pm_inv (pm_delete fs2 m', ms) | (fs2, m', Inr u) \<Rightarrow> pm_inv (fs2, ms))"
proof (cases second)
  case (Inr m)
  then have "\<not> pm_owner m" using assms(1) pm_new_not_owner by blast
  note st = pm_lock_step [OF assms(4) [OF Inr] assms(2) this]
  show ?thesis using st Inr by (auto split: prod.split sum.split)
qed (use assms(3) in simp)

lemma shm_mutex_new_inv:
  assumes inv: "pm_inv (fs, ms)" and fresh: "ms j = None" "ms k = None" "j \<noteq> k"
    and new: "shm_mutex_new fs p q = (fs', r)"
  shows "pm_inv (fs', ms)"
proof -
  obtain fs1 first where fst: "pm_new fs p True True = (fs1, first)" by fastforce
  show ?thesis
  proof (cases first)
    case (Inl e)
    note inv1 = pm_new_inv(1) [OF inv fst]
    obtain fs2 second where sec: "pm_new fs1 q False True = (fs2, second)" by fastforce
    from shm_retry_inv [where ms = ms and k = k and destroy = "\<lambda>fs. fs", OF sec fresh(2)] pm_new_inv [OF inv1 sec] fresh(2)
    show ?thesis using new fst Inl sec by (auto simp: shm_mutex_new_def Let_def split: sum.splits prod.splits)
  next
    case (Inr m)
    note inv1 = pm_new_inv(2) [OF inv fst Inr fresh(1)]
    have own: "\<not> pm_owner m" using fst Inr pm_new_not_owner by blast
    obtain fs2 m' r2 where lk: "pm_lock fs1 m = (fs2, m', r2)" by (metis prod_cases3)
    obtain fs3 second where sec: "pm_new fs2 q False True = (fs3, second)" by fastforce
    show ?thesis
    proof (cases r2)
      case (Inr u)
      then show ?thesis
        using new fst \<open>first = Inr m\<close> lk pm_lock_step(1) [OF inv1 fresh(1) own lk] by (simp add: shm_mutex_new_def Let_def)
    next
      case (Inl e)
      then have m': "m' = m" using lk pm_lock_failed by blast
      then have inv2: "pm_inv (fs2, ms(j \<mapsto> m))" using pm_lock_inv [OF inv1 _ lk, of j] by simp
      have "pm_inv (pm_delete fs3 m, ms)"
        using pm_delete_inv [OF pm_new_inv(1) [OF inv2 sec], of j m] own fresh(1) by (simp add: fun_upd_idem)
      moreover have "pm_inv (pm_delete fs3 m, ms(k \<mapsto> m2))" if "second = Inr m2" for m2
        using pm_delete_inv [OF pm_new_inv(2) [OF inv2 sec that, of k], of j m] own fresh
        by (simp add: fun_upd_twist fun_upd_idem)
      ultimately show ?thesis
        using shm_retry_inv [where ms = ms and k = k and destroy = "\<lambda>fs. pm_delete fs m", OF sec fresh(2)] new fst \<open>first = Inr m\<close> lk Inl sec m'
        by (auto simp: shm_mutex_new_def Let_def split: sum.splits prod.splits)
    qed
  qed
qed

text \<open>Other processes leave a mutex alone: they do not close its descriptor, release its lock or take the name from its
  file.\<close>

definition leaves_alone :: "(nat \<Rightarrow> file_system \<Rightarrow> file_system) \<Rightarrow> proc_mutex \<Rightarrow> bool" where
  "leaves_alone oth m \<longleftrightarrow>
     (\<forall>n fs b. fs_ok fs \<and> pm_ok fs (m\<lparr>pm_owner := b\<rparr>) \<longrightarrow> fs_ok (oth n fs) \<and> pm_ok (oth n fs) (m\<lparr>pm_owner := b\<rparr>))"

lemma leaves_aloneD:
  assumes "leaves_alone oth m" "fs_ok fs" "pm_ok fs m"
  shows "fs_ok (oth n fs)" "pm_ok (oth n fs) m"
proof -
  have "m\<lparr>pm_owner := pm_owner m\<rparr> = m" by simp
  then show "fs_ok (oth n fs)" "pm_ok (oth n fs) m" using assms unfolding leaves_alone_def by metis+
qed

text \<open>What stays true of the file system while the server comes up, whatever the other processes do: the facts that the
  operations after the locking keep.\<close>

locale lock_guard =
  fixes env :: "'db server_env" and m :: proc_mutex and kept :: "file_system \<Rightarrow> bool"
  assumes others: "kept fs \<Longrightarrow> kept (se_others env n fs)"
    and fill: "kept fs \<Longrightarrow> pm_fill_contents fs m pid = (fs', r) \<Longrightarrow> kept fs'"
    and shm: "kept fs \<Longrightarrow> shm_mutex_new fs p q = (fs', r') \<Longrightarrow> kept fs'"
begin

definition guarded :: "'db server \<Rightarrow> bool" where
  "guarded s \<longleftrightarrow> sv_mutex s = Some m \<and> kept (sv_fs s)"

lemma guarded_event [simp]: "guarded (event e s) = guarded s"
  by (simp add: guarded_def event_def)

lemma guarded_others: "guarded s \<Longrightarrow> guarded (run_others env s)"
  by (simp add: guarded_def run_others_def others)

lemma guarded_fold: "guarded (fold event es s) = guarded s"
  by (induction es arbitrary: s) simp_all

lemma new_server_keeps: "triple guarded (new_server fl) (\<lambda>x. guarded) guarded"
  by (simp add: triple_def new_server_def guarded_fold del: fold.simps)

lemma setup_server_keeps: "triple guarded (setup_server env ok) (\<lambda>x. guarded) guarded"
  by (simp add: triple_def setup_server_def Let_def split: sum.splits bool.splits)

lemma fill_lock_file_keeps: "triple guarded (fill_lock_file env file) (\<lambda>x. guarded) guarded"
  unfolding triple_def
proof (intro allI impI)
  fix s
  assume "guarded s"
  then have "guarded (run_others env s)" by (rule guarded_others)
  then show "case fill_lock_file env file s of (s', Inl e) \<Rightarrow> guarded s' | (s', Inr x) \<Rightarrow> guarded s'"
    using fill by (auto simp: fill_lock_file_def Let_def guarded_def event_def split: prod.splits sum.splits)
qed

lemma take_shm_lock_keeps: "triple guarded (take_shm_lock env conf) (\<lambda>x. guarded) guarded"
  unfolding triple_def
proof (intro allI impI)
  fix s
  assume g: "guarded s"
  then have "guarded (run_others env s)" by (rule guarded_others)
  then show "case take_shm_lock env conf s of (s', Inl e) \<Rightarrow> guarded s' | (s', Inr x) \<Rightarrow> guarded s'"
    using shm g
    by (auto simp: take_shm_lock_def Let_def guarded_def event_def split: prod.splits sum.splits option.splits)
qed

lemma prepare_tables_keeps: "triple guarded (prepare_tables env fl) (\<lambda>x. guarded) guarded"
  by (simp add: triple_def prepare_tables_def)

lemma start_server_keeps: "triple guarded (start_server env) (\<lambda>x. guarded) guarded"
  by (simp add: triple_def start_server_def Let_def split: sum.splits bool.splits)

lemma load_tables_of_keeps: "triple guarded (load_tables_of env fl) (\<lambda>x. guarded) guarded"
  by (simp add: triple_def load_tables_of_def guarded_def split: prod.splits sum.splits fault.splits)

lemma activated_keeps: "triple guarded (\<lambda>s. (event (Status st) s, Inr ())) (\<lambda>x. guarded) guarded"
  by (simp add: triple_def)

lemma backend_up_keeps: "triple guarded (backend_up env fl x) (\<lambda>x. guarded) guarded"
  unfolding backend_up_def
  by (rule triple_then triple_split new_server_keeps setup_server_keeps fill_lock_file_keeps take_shm_lock_keeps
      prepare_tables_keeps start_server_keeps load_tables_of_keeps activated_keeps)+

lemma backend_up_ok:
  assumes "backend_up env fl x s = (s', Inr u)" "sv_mutex s = Some m" "kept (sv_fs s)"
  shows "sv_mutex s' = Some m" "kept (sv_fs s')"
  using triple_result [OF backend_up_keeps _ assms(1)] assms(2,3) by (auto simp: guarded_def)

end

interpretation object: lock_guard env m "\<lambda>fs. True" for env m
  by unfold_locales simp_all

interpretation held: lock_guard env m "\<lambda>fs. leaves_alone (se_others env) m \<longrightarrow> fs_ok fs \<and> pm_ok fs m" for env m
proof
  fix fs fs' n pid r
  assume kept: "leaves_alone (se_others env) m \<longrightarrow> fs_ok fs \<and> pm_ok fs m"
  then show "leaves_alone (se_others env) m \<longrightarrow> fs_ok (se_others env n fs) \<and> pm_ok (se_others env n fs) m"
    using leaves_aloneD by blast
  assume "pm_fill_contents fs m pid = (fs', r)"
  then show "leaves_alone (se_others env) m \<longrightarrow> fs_ok fs' \<and> pm_ok fs' m"
    using kept pm_fill_inv [of fs "[0 \<mapsto> m]" 0 m pid fs' r] by (simp add: pm_inv_single)
next
  fix fs p q fs' r'
  assume "leaves_alone (se_others env) m \<longrightarrow> fs_ok fs \<and> pm_ok fs m" "shm_mutex_new fs p q = (fs', r')"
  then show "leaves_alone (se_others env) m \<longrightarrow> fs_ok fs' \<and> pm_ok fs' m"
    using shm_mutex_new_inv [of fs "[0 \<mapsto> m]" 1 2 p q fs' r'] by (simp add: pm_inv_single)
qed

subsection \<open>Taking the lock\<close>

lemma pm_lock_ok: "pm_lock fs m = (fs', m', Inr u) \<Longrightarrow> m' = m\<lparr>pm_owner := True\<rparr>"
  by (auto simp: pm_lock_def split: option.splits prod.splits bool.splits)

lemma take_lock_cases:
  assumes "take_lock env file s = (s', r)"
  obtains (no_file) fs e where "pm_new (sv_fs (run_others env s)) file True True = (fs, Inl e)" "r = Inl Exit_1"
      "sv_fs s' = fs" "sv_mutex s' = sv_mutex s" "sv_shm_mutex s' = sv_shm_mutex s"
  | (opened) fs m n r' where "pm_new (sv_fs (run_others env s)) file True True = (fs, Inr m)"
      "pm_lock (se_others env n fs) m = (sv_fs s', the (sv_mutex s'), r')" "sv_mutex s' \<noteq> None"
      "sv_shm_mutex s' = sv_shm_mutex s" "r = (case r' of Inl e \<Rightarrow> Inl Exit_1 | Inr u \<Rightarrow> Inr ())"
  using assms
  by (fastforce simp: take_lock_def Let_def run_others_def split: prod.splits sum.splits)

lemma take_lock_owner:
  assumes "take_lock env file s = (s', Inr u)"
  obtains m where "sv_mutex s' = Some m" "pm_owner m" "pm_lock_file m = file"
  using assms
proof (cases rule: take_lock_cases)
  case (opened fs m n r')
  then have "the (sv_mutex s') = m\<lparr>pm_owner := True\<rparr>"
    using pm_lock_ok by (cases r') auto
  then show ?thesis using that opened(1,3) pm_new_not_owner by fastforce
qed simp

lemma take_lock_held:
  assumes "take_lock env file s = (s', Inr u)" "fs_ok (sv_fs s)" "\<And>n fs. fs_ok fs \<Longrightarrow> fs_ok (se_others env n fs)"
    and "sv_mutex s' = Some m'" "leaves_alone (se_others env) m'"
  shows "fs_ok (sv_fs s') \<and> pm_ok (sv_fs s') m'"
  using assms(1)
proof (cases rule: take_lock_cases)
  case (opened fs m n r')
  have "pm_inv (sv_fs (run_others env s), Map.empty)"
    using assms(2,3) by (simp add: pm_inv_def run_others_def)
  from pm_new_inv(2) [OF this opened(1) refl, of 0] have ok: "fs_ok fs \<and> pm_ok fs m" by (simp add: pm_inv_single)
  have "m' = m\<lparr>pm_owner := True\<rparr>" using opened(2,5) assms(4) pm_lock_ok by (cases r') auto
  then have "m = m'\<lparr>pm_owner := False\<rparr>" using opened(1) pm_new_not_owner by fastforce
  then have "fs_ok (se_others env n fs) \<and> pm_ok (se_others env n fs) m"
    using assms(5) ok unfolding leaves_alone_def by metis
  then show ?thesis
    using pm_lock_inv [of "se_others env n fs" "[0 \<mapsto> m]" 0 m "sv_fs s'" m' r'] opened(2) assms(4)
    by (simp add: pm_inv_single)
qed simp

lemma get_configuration_lock_file: "get_configuration ce bc = (bc', r) \<Longrightarrow> bc_lock_file bc' = bc_lock_file bc"
  by (auto simp: get_configuration_def split: option.splits sum.splits)

abbreviation server_lock_file :: "'db server_env \<Rightarrow> flags \<Rightarrow> path" where
  "server_lock_file env fl \<equiv> bc_lock_file (create_bootstrap_configuration (se_conf env) (FLAGS_conf fl))"

lemma read_configuration_lock_file:
  "read_configuration env fl s = (s', Inr (file, conf)) \<Longrightarrow> s' = s \<and> file = server_lock_file env fl"
  by (auto simp: read_configuration_def Let_def get_configuration_lock_file
      split: if_splits prod.splits sum.splits option.splits exn.splits fault.splits)

lemma start_altimeter_keeps:
  "start_altimeter env conf s = (s', r) \<Longrightarrow>
     sv_fs s' = sv_fs s \<and> sv_mutex s' = sv_mutex s \<and> sv_shm_mutex s' = sv_shm_mutex s"
  by (auto simp: start_altimeter_def split: option.splits prod.splits)

lemma print_configuration_keeps: "print_configuration env conf s = (s', r) \<Longrightarrow> s' = s"
  by (simp add: print_configuration_def)

lemma then_do_result:
  assumes "then_do a f s = (s', r)"
  obtains (left) e where "a s = (s', Inl e)" "r = Inl e"
  | (right) s1 x where "a s = (s1, Inr x)" "f x s1 = (s', r)"
  using assms by (auto simp: then_do_def split: prod.splits sum.splits)

text \<open>The first phase ends before the attempt to lock, or with it.\<close>

lemma backend_lock_cases:
  assumes "backend_lock env fl s = (s', r)"
  obtains (before) e where "r = Inl e" "sv_fs s' = sv_fs s" "sv_mutex s' = sv_mutex s" "sv_shm_mutex s' = sv_shm_mutex s"
  | (attempt) s1 r' where "take_lock env (server_lock_file env fl) s1 = (s', r')" "sv_fs s1 = sv_fs s"
      "sv_mutex s1 = sv_mutex s" "sv_shm_mutex s1 = sv_shm_mutex s"
      "case r' of Inl e \<Rightarrow> r = Inl e | Inr u \<Rightarrow> \<exists>x. r = Inr x"
proof -
  from assms show thesis
    unfolding backend_lock_def
  proof (cases rule: then_do_result)
    case (left e)
    then show thesis using before by (simp add: read_configuration_def)
  next
    case (right s1 x)
    obtain lf conf where x: "x = (lf, conf)" by fastforce
    have s1: "s1 = s" "lf = server_lock_file env fl"
      using read_configuration_lock_file right(1) x by blast+
    from right(2) show thesis
      unfolding x prod.case
    proof (cases rule: then_do_result)
      case (left e)
      then show thesis using before start_altimeter_keeps s1 by blast
    next
      case (right s2 w)
      note s2 = start_altimeter_keeps [OF right(1)]
      from right(2) show thesis
      proof (cases rule: then_do_result)
        case (left e)
        then show thesis using before s1 s2 by (simp add: print_configuration_def)
      next
        case (right s3 u)
        then have "s3 = s2" using print_configuration_keeps by blast
        then show thesis
          using attempt [of s2] right(2) s1 s2 by (auto simp: then_do_def split: prod.splits sum.splits)
      qed
    qed
  qed
qed

lemma read_configuration_valid:
  "read_configuration env fl s = (s', Inr x) \<Longrightarrow>
     bc_valid (create_bootstrap_configuration (se_conf env) (FLAGS_conf fl)) \<and>
     (\<exists>conf. snd (get_configuration (se_conf env) (create_bootstrap_configuration (se_conf env) (FLAGS_conf fl))) = Inr (Some conf))"
  by (auto simp: read_configuration_def Let_def
      split: if_splits prod.splits sum.splits option.splits exn.splits fault.splits)

lemma backend_boot_ok:
  assumes "backend_boot env fl s = (s', Inr u)"
  obtains s1 x where "backend_lock env fl s = (s1, Inr x)" "backend_up env fl x s1 = (s', Inr u)"
  using assms by (auto simp: backend_boot_def then_do_def split: prod.splits sum.splits)

lemma backend_boot_valid:
  assumes "backend_boot env fl s = (s', Inr u)"
  obtains conf where "bc_valid (create_bootstrap_configuration (se_conf env) (FLAGS_conf fl))"
    "snd (get_configuration (se_conf env) (create_bootstrap_configuration (se_conf env) (FLAGS_conf fl))) = Inr (Some conf)"
proof -
  obtain s1 x where lock: "backend_lock env fl s = (s1, Inr x)" using backend_boot_ok [OF assms] .
  then obtain y where "read_configuration env fl s = (s, Inr y)"
    by (auto simp: backend_lock_def then_do_def read_configuration_def split: prod.splits sum.splits)
  then show ?thesis using that read_configuration_valid by blast
qed

lemma backend_boot_owner:
  assumes "backend_boot env fl s = (s', Inr u)"
  obtains m where "sv_mutex s' = Some m" "pm_owner m" "pm_lock_file m = server_lock_file env fl"
proof -
  obtain s1 x where lock: "backend_lock env fl s = (s1, Inr x)" and up: "backend_up env fl x s1 = (s', Inr u)"
    using backend_boot_ok [OF assms] .
  from lock show ?thesis
  proof (cases rule: backend_lock_cases)
    case (attempt s2 r')
    then obtain v where "take_lock env (server_lock_file env fl) s2 = (s1, Inr v)" by (cases r') auto
    then obtain m where "sv_mutex s1 = Some m" "pm_owner m" "pm_lock_file m = server_lock_file env fl"
      by (rule take_lock_owner)
    then show ?thesis using that object.backend_up_ok(1) [OF up] by blast
  qed simp
qed

lemma backend_boot_held:
  assumes "backend_boot env fl s = (s', Inr u)" "fs_ok (sv_fs s)" "\<And>n fs. fs_ok fs \<Longrightarrow> fs_ok (se_others env n fs)"
    and "sv_mutex s' = Some m" "leaves_alone (se_others env) m"
  shows "fs_ok (sv_fs s') \<and> pm_ok (sv_fs s') m"
proof -
  obtain s1 x where lock: "backend_lock env fl s = (s1, Inr x)" and up: "backend_up env fl x s1 = (s', Inr u)"
    using backend_boot_ok [OF assms(1)] .
  from lock show ?thesis
  proof (cases rule: backend_lock_cases)
    case (attempt s2 r')
    then obtain v where take: "take_lock env (server_lock_file env fl) s2 = (s1, Inr v)" by (cases r') auto
    then obtain m1 where "sv_mutex s1 = Some m1" by (rule take_lock_owner)
    then have m: "sv_mutex s1 = Some m" using object.backend_up_ok(1) [OF up] assms(4) by simp
    have "fs_ok (sv_fs s1) \<and> pm_ok (sv_fs s1) m"
      using take_lock_held [OF take _ assms(3) m assms(5)] attempt(2) assms(2) by simp
    then show ?thesis using held.backend_up_ok(2) [OF up m] assms(5) by blast
  qed simp
qed

lemma check_sees_owner:
  assumes "fs_ok fs" "pm_ok fs m" "pm_owner m" "pm_lock_file m \<notin> set (fs_denied fs)"
  shows "snd (snd (pm_check fs \<lparr>pm_fd = None, pm_lock_file = pm_lock_file m, pm_owner = False\<rparr>)) = locked"
  using assms
  by (auto simp: pm_ok_def fs_ok_def pm_check_def sys_open_def sys_flock_def split: option.splits)

text \<open>C11: While a server is active it holds the lock of the lock file that its configuration names, and any process that
  checks the lock file is told that it is locked: as long as other processes leave the server's descriptor, its lock
  and the name of the file alone.\<close>

theorem active_server_holds_lock:
  assumes "backend_boot env fl s = (s', Inr ())" "fs_ok (sv_fs s)" "\<And>n fs. fs_ok fs \<Longrightarrow> fs_ok (se_others env n fs)"
    and "\<And>m. sv_mutex s' = Some m \<Longrightarrow> leaves_alone (se_others env) m"
    and "server_lock_file env fl \<notin> set (fs_denied (sv_fs s'))"
  shows "\<exists>m. sv_mutex s' = Some m \<and> pm_owner m \<and> pm_lock_file m = server_lock_file env fl \<and> pm_ok (sv_fs s') m \<and>
    snd (snd (pm_check (sv_fs s') \<lparr>pm_fd = None, pm_lock_file = server_lock_file env fl, pm_owner = False\<rparr>)) = locked"
proof -
  obtain m where m: "sv_mutex s' = Some m" "pm_owner m" "pm_lock_file m = server_lock_file env fl"
    using backend_boot_owner [OF assms(1)] .
  have "fs_ok (sv_fs s') \<and> pm_ok (sv_fs s') m"
    using backend_boot_held [OF assms(1-3) m(1) assms(4) [OF m(1)]] .
  then show ?thesis using check_sees_owner [OF _ _ m(2)] m assms(5) by auto
qed

subsection \<open>The life of a server\<close>

lemma fs_shutdown_altimeter [simp]: "sv_fs (shutdown_altimeter s) = sv_fs s"
  "sv_mutex (shutdown_altimeter s) = sv_mutex s"
  by (simp_all add: shutdown_altimeter_def split: option.splits prod.splits)

lemma mutex_drop [simp]: "sv_mutex (drop_mutex env how mo s) = sv_mutex s"
  by (simp add: drop_mutex_def run_others_def Let_def split: option.splits)

lemma unwind_removes_lock_file:
  assumes "sv_mutex s = Some m" "pm_owner m"
  shows "fs_names (sv_fs (unwind env s)) (pm_lock_file m) = None"
  using assms by (simp add: unwind_def drop_mutex_def Let_def pm_delete_def pm_delete_unlink_def sys_unlink_def)

lemma backend_down_removes_lock_file:
  assumes "sv_mutex s = Some m" "pm_owner m"
  shows "fs_names (sv_fs (backend_down env s)) (pm_lock_file m) = None"
  unfolding backend_down_def Let_def
  by (rule unwind_removes_lock_file) (use assms in \<open>simp_all add: event_def\<close>)

lemma published_main_catch: "main_catch env e s = (s', x) \<Longrightarrow> published s' = published s \<and> x \<noteq> Exits 0"
  by (auto simp: main_catch_def split: server_fail.splits fault.splits)

lemma boot_failed_life:
  "boot_failed s \<Longrightarrow> successively next_state (state_initial # published s) \<and>
     last (state_initial # published s) \<noteq> state_deactivated"
  by (auto simp: boot_failed_def)

text \<open>C8: Whatever happens, the states a server publishes follow the order on which its clients rely (ready, active, shutting
  down, shut down, with a boot error only before it is active).  It exits with status 0 exactly if it was shut down
  after having been active, and then the name of its lock file is gone.\<close>

theorem server_life:
  assumes "main env fl s = Some (s', e)" "published s = []"
  shows "successively next_state (state_initial # published s') \<and>
    (e = Exits 0 \<longleftrightarrow> last (state_initial # published s') = state_deactivated) \<and>
    (if e = Exits 0
     then published s' = [state_ready, state_activated, state_deactivating, state_deactivated] \<and>
       fs_names (sv_fs s') (server_lock_file env fl) = None
     else state_activated \<notin> set (published s'))"
proof (cases "backend_boot env fl s")
  case (Pair s1 r)
  show ?thesis
  proof (cases r)
    case (Inl f)
    then have "boot_failed s1" using triple_fails [OF backend_boot_publishes assms(2)] Pair by simp
    moreover have "published s' = published s1" "e \<noteq> Exits 0"
      using assms(1) Pair Inl published_main_catch [of env f s1 s' e] by (auto simp: main_def)
    ultimately show ?thesis using boot_failed_life [of s1] by (auto simp: boot_failed_def)
  next
    case (Inr u)
    then have pub: "published s1 = [state_ready, state_activated]"
      using triple_result [OF backend_boot_publishes assms(2)] Pair by simp
    obtain m where "sv_mutex s1 = Some m" "pm_owner m" "pm_lock_file m = server_lock_file env fl"
      using backend_boot_owner Pair Inr by blast
    then have "fs_names (sv_fs (backend_down env s1)) (server_lock_file env fl) = None"
      using backend_down_removes_lock_file by metis
    moreover have "s' = backend_down env s1" "e = Exits 0"
      using assms(1) Pair Inr by (auto simp: main_def split: if_splits)
    ultimately show ?thesis by (simp add: backend_down_def Let_def pub)
  qed
qed

text \<open>A server that ends because the altimeter could not be started shuts the framework down, but does not publish that.\<close>

lemma altimeter_failure_unpublished:
  assumes "se_setup env = Inr True"
  shows "setup_server env False s = (event Server_shutdown (event Server_setup s), Inl Exit_1)"
    "published (event Server_shutdown (event Server_setup s)) = published s"
  using assms by (simp_all add: setup_server_def)

subsection \<open>A second server\<close>

lemma pm_inv_pair:
  "pm_inv (fs, [0 \<mapsto> m0, 2 \<mapsto> m]) \<longleftrightarrow>
     fs_ok fs \<and> pm_ok fs m0 \<and> pm_ok fs m \<and> (\<forall>fd. pm_fd m0 = Some fd \<longrightarrow> pm_fd m \<noteq> Some fd)"
  unfolding pm_inv_def prod.case by (auto split: if_splits)

lemma pair_left_alone:
  assumes "pm_inv (fs, [0 \<mapsto> m0, 2 \<mapsto> m])" "leaves_alone oth m0" "leaves_alone oth (m\<lparr>pm_owner := b\<rparr>)"
  shows "pm_inv (oth n fs, [0 \<mapsto> m0, 2 \<mapsto> m])"
proof -
  have "leaves_alone oth m" using assms(3) by (auto simp: leaves_alone_def)
  then show ?thesis using assms(1,2) leaves_aloneD by (simp add: pm_inv_pair)
qed

lemma owners_differ:
  assumes "pm_inv (fs, [0 \<mapsto> m0, 2 \<mapsto> m])" "pm_owner m0" "pm_owner m"
  shows "pm_lock_file m \<noteq> pm_lock_file m0"
proof
  assume "pm_lock_file m = pm_lock_file m0"
  with assms show False by (auto simp: pm_inv_pair pm_ok_def split: option.splits)
qed

lemma take_lock_refused:
  assumes "take_lock env (pm_lock_file m0) s = (s', r)" "fs_ok (sv_fs s)" "pm_ok (sv_fs s) m0" "pm_owner m0"
    and alone: "leaves_alone (se_others env) m0" "\<And>m. sv_mutex s' = Some m \<Longrightarrow> leaves_alone (se_others env) m"
    and "sv_mutex s = None"
  shows "r = Inl Exit_1 \<and> (case sv_mutex s' of None \<Rightarrow> fs_ok (sv_fs s') \<and> pm_ok (sv_fs s') m0
    | Some m \<Rightarrow> pm_inv (sv_fs s', [0 \<mapsto> m0, 2 \<mapsto> m]) \<and> \<not> pm_owner m)"
proof -
  have inv: "pm_inv (sv_fs (run_others env s), [0 \<mapsto> m0])"
    using assms(2,3) leaves_aloneD [OF alone(1)] by (simp add: pm_inv_single run_others_def)
  from assms(1) show ?thesis
  proof (cases rule: take_lock_cases)
    case (no_file fs e)
    then show ?thesis using pm_new_inv(1) [OF inv no_file(1)] assms(7) by (simp add: pm_inv_single)
  next
    case (opened fs m n r')
    obtain m' where m': "sv_mutex s' = Some m'" using opened(3) by blast
    have own: "\<not> pm_owner m" "pm_lock_file m = pm_lock_file m0" using pm_new_not_owner [OF opened(1)] by simp_all
    have lock: "pm_lock (se_others env n fs) m = (sv_fs s', m', r')" using opened(2) m' by simp
    then have owner: "m' = (case r' of Inl e \<Rightarrow> m | Inr u \<Rightarrow> m\<lparr>pm_owner := True\<rparr>)"
      using pm_lock_ok pm_lock_failed by (cases r') fastforce+
    then have b: "m' = m\<lparr>pm_owner := pm_owner m'\<rparr>" by (cases r') simp_all
    have "pm_inv (fs, [0 \<mapsto> m0, 2 \<mapsto> m])" using pm_new_inv(2) [OF inv opened(1) refl, of 2] by simp
    then have "pm_inv (se_others env n fs, [0 \<mapsto> m0, 2 \<mapsto> m])"
      using pair_left_alone alone(1) alone(2) [OF m'] b by metis
    from pm_lock_inv [OF this _ lock, of 2] have after: "pm_inv (sv_fs s', [0 \<mapsto> m0, 2 \<mapsto> m'])" by simp
    then have "\<not> pm_owner m'" using owners_differ [OF after assms(4)] own(2) b by (metis proc_mutex.select_convs(2) proc_mutex.surjective proc_mutex.update_convs(3))
    then show ?thesis using after owner opened(5) m' by (cases r') auto
  qed
qed

lemma main_catch_keeps_fs:
  "sv_mutex s = None \<Longrightarrow> sv_shm_mutex s = None \<Longrightarrow> sv_fs (fst (main_catch env e s)) = sv_fs s"
  by (simp add: main_catch_def close_descriptors_def unwind_def drop_mutex_def split: server_fail.splits fault.splits)

lemma close_keeps_other:
  assumes "sv_mutex s = Some m" "sv_shm_mutex s = None" "\<not> pm_owner m" "pm_inv (sv_fs s, [0 \<mapsto> m0, 2 \<mapsto> m])"
    and "leaves_alone (se_others env) m0" "leaves_alone (se_others env) m"
  shows "pm_ok (sv_fs (close_descriptors env s)) m0"
proof -
  have "leaves_alone (se_others env) (m\<lparr>pm_owner := pm_owner m\<rparr>)" using assms(6) by simp
  from pair_left_alone [OF assms(4,5) this] have "pm_inv (sv_fs (run_others env s), [0 \<mapsto> m0, 2 \<mapsto> m])"
    by (simp add: run_others_def)
  from pm_delete_inv [OF this, of 2 m] assms(1-3) show ?thesis
    by (simp add: close_descriptors_def drop_mutex_def Let_def pm_inv_single pm_delete_def pm_delete_unlink_def)
qed

lemma backend_boot_mutex:
  assumes "backend_lock env fl s = (s1, r)" "sv_mutex s1 = Some m"
  shows "sv_mutex (fst (backend_boot env fl s)) = Some m"
proof (cases r)
  case (Inl f)
  then show ?thesis using assms by (simp add: backend_boot_def then_do_def)
next
  case (Inr x)
  then show ?thesis
    using assms object.backend_up_keeps [of m env fl x]
    by (cases "backend_up env fl x s1")
      (auto simp: backend_boot_def then_do_def triple_def object.guarded_def split: prod.splits sum.splits)
qed

text \<open>C10: A server that is started while another one holds the lock file of its configuration ends with an error; it never
  publishes a state, and the first server keeps its lock.\<close>

theorem second_server_refused:
  assumes first: "fs_ok (sv_fs s)" "pm_ok (sv_fs s) m0" "pm_owner m0" "pm_lock_file m0 = server_lock_file env fl"
    and alone: "leaves_alone (se_others env) m0"
      "\<And>m. sv_mutex (fst (backend_boot env fl s)) = Some m \<Longrightarrow> leaves_alone (se_others env) m"
    and new: "sv_mutex s = None" "sv_shm_mutex s = None" "published s = []"
  shows "\<exists>s' e. main env fl s = Some (s', e) \<and> e \<noteq> Exits 0 \<and> published s' = [] \<and> pm_ok (sv_fs s') m0"
proof -
  obtain s1 r where lock: "backend_lock env fl s = (s1, r)" by fastforce
  have boot: "backend_boot env fl s = (s1, Inl f)" if "r = Inl f" for f
    using lock that by (simp add: backend_boot_def then_do_def)
  have "\<exists>f. r = Inl f \<and> pm_ok (sv_fs (fst (main_catch env f s1))) m0"
    using lock
  proof (cases rule: backend_lock_cases)
    case (before f)
    then show ?thesis using first(2) new main_catch_keeps_fs [of s1 env f] by simp
  next
    case (attempt s2 r')
    have alone2: "leaves_alone (se_others env) m" if "sv_mutex s1 = Some m" for m
      using alone(2) backend_boot_mutex [OF lock that] by blast
    have r': "r' = Inl Exit_1 \<and> (case sv_mutex s1 of None \<Rightarrow> fs_ok (sv_fs s1) \<and> pm_ok (sv_fs s1) m0
        | Some m \<Rightarrow> pm_inv (sv_fs s1, [0 \<mapsto> m0, 2 \<mapsto> m]) \<and> \<not> pm_owner m)"
      by (rule take_lock_refused [OF attempt(1) [folded first(4)]]) (use attempt first alone alone2 new in simp_all)
    moreover have "sv_shm_mutex s1 = None"
      using attempt(1) attempt(4) new(2) by (cases rule: take_lock_cases) simp_all
    ultimately have "pm_ok (sv_fs (close_descriptors env s1)) m0"
      using close_keeps_other [of s1 _ m0 env] alone(1) alone2 main_catch_keeps_fs [of s1 env Exit_1]
      by (auto simp: main_catch_def split: option.splits)
    then show ?thesis using r' attempt(5) by (auto simp: main_catch_def)
  qed
  then obtain f where f: "r = Inl f" "pm_ok (sv_fs (fst (main_catch env f s1))) m0" by blast
  have "published s1 = []" using triple_fails [OF backend_lock_publishes new(3)] lock f(1) by simp
  then show ?thesis
    using f boot [OF f(1)] published_main_catch [of env f s1] by (cases "main_catch env f s1") (auto simp: main_def)
qed

section \<open>A server on a file system of its own\<close>

definition server_whole :: whole where
  "server_whole = sample_whole\<lparr>wh_sections := (wh_sections sample_whole)
     (''glog'' \<mapsto> Map.empty, ''ipc_endpoint'' \<mapsto> [''database_name'' \<mapsto> ''tsurugi''])\<rparr>"

definition sample_server_env :: "(string \<Rightarrow> string) server_env" where
  "sample_server_env =
     \<lparr>se_conf = sample_conf_env\<lparr>ce_create := \<lambda>p d. Some server_whole\<rparr>,
      se_get = \<lparr>get_bool = (\<lambda>s k. Inr None), get_int = (\<lambda>s k. Inr None), get_unsigned = (\<lambda>s k. Inr None),
                get_path = (\<lambda>w s k. Inr None)\<rparr>,
      se_getenv = (\<lambda>n. None),
      se_glog = \<lparr>gf_logtostderr = False, gf_stderrthreshold = 2, gf_minloglevel = 0, gf_log_dir = [],
                 gf_max_log_size = 1800, gf_v = 0, gf_logbuflevel = 0\<rparr>,
      se_altimeter = None, se_write_json = (\<lambda>w. None), se_others = (\<lambda>n fs. fs), se_pid = 4711, se_moved = (\<lambda>p. []),
      se_setup = Inr True, se_start = Inr True, se_database = True, se_store = plain_store, se_disk = open_disk,
      se_shutdown_requested = True\<rparr>"

definition new_process :: "file_system \<Rightarrow> (string \<Rightarrow> string) server" where
  "new_process fs =
     \<lparr>sv_fs = fs, sv_tick = 0, sv_events = [], sv_disk = \<lparr>dk_directories = [], dk_files = Map.empty\<rparr>, sv_db = (\<lambda>t. []),
      sv_altimeter = None, sv_mutex = None, sv_shm_mutex = None\<rparr>"

abbreviation sample_lock_file :: path where
  "sample_lock_file \<equiv> ''/var/lock/tsurugi-000000000000000a.pid''"

definition configured_whole :: whole where
  "configured_whole = server_whole\<lparr>wh_sections := (wh_sections server_whole)
     (''system'' \<mapsto> [''instance_id'' \<mapsto> ''node-1'', ''pid_directory'' \<mapsto> ''/var/lock''])\<rparr>"

lemma sample_server_bootstrap:
  "create_bootstrap_configuration (se_conf sample_server_env) (FLAGS_conf default_flags) =
     \<lparr>bc_conf_file = ''/etc/a.ini'', bc_lock_file = sample_lock_file, bc_configuration = Some server_whole, bc_valid = True\<rparr>"
proof -
  have "digest (se_conf sample_server_env) ''/etc/a.ini'' = ''000000000000000a''" by code_simp
  then show ?thesis
    by (simp add: create_bootstrap_configuration_def bootstrap_configuration_new_def select_conf_file_def pid_file_name_def
        PID_FILE_PREFIX_def path_append_def default_flags_def sample_server_env_def sample_conf_env_def server_whole_def
        sample_whole_def)
qed

lemma sample_server_reads:
  "read_configuration sample_server_env default_flags s = (s, Inr (sample_lock_file, configured_whole))"
proof -
  have id: "instance_id None ''Node-1'' = Inr ''node-1''" by code_simp
  have "get_configuration (se_conf sample_server_env)
      (create_bootstrap_configuration (se_conf sample_server_env) (FLAGS_conf default_flags)) =
    (\<lparr>bc_conf_file = ''/etc/a.ini'', bc_lock_file = sample_lock_file, bc_configuration = Some configured_whole,
      bc_valid = True\<rparr>, Inr (Some configured_whole))"
    unfolding sample_server_bootstrap
    by (simp add: get_configuration_def instance_id_setup_def sample_server_env_def sample_conf_env_def configured_whole_def
        server_whole_def sample_whole_def id fun_eq_iff)
  moreover have "setup_glog (se_get sample_server_env) (se_getenv sample_server_env) configured_whole
      (se_glog sample_server_env) = Inr (se_glog sample_server_env)"
    by (simp add: setup_glog_def glog_flag_def get_section_def sample_server_env_def configured_whole_def server_whole_def)
  ultimately show ?thesis by (simp add: read_configuration_def sample_server_bootstrap)
qed

lemmas backend_eval = backend_boot_def backend_lock_def backend_up_def then_do_def start_altimeter_def
  print_configuration_def take_lock_def new_server_def setup_server_def fill_lock_file_def take_shm_lock_def
  prepare_tables_def start_server_def load_tables_of_def run_others_def event_def shm_mutex_new_def get_section_def
  lock_file_name_def path_append_def selected_mode_def load_flag_def tpch_mode_def new_process_def

lemma sample_server_boots:
  "\<exists>s. backend_boot sample_server_env default_flags (new_process empty_fs) = (s, Inr ()) \<and> fs_denied (sv_fs s) = []"
  by (simp add: backend_eval sample_server_reads pm_eval)
    (simp add: backend_eval pm_eval sample_server_env_def default_flags_def configured_whole_def server_whole_def
      sample_whole_def sample_conf_env_def)

lemma sample_server_alone: "leaves_alone (se_others sample_server_env) m"
  by (simp add: leaves_alone_def sample_server_env_def)

lemma sample_server_fs: "fs_ok fs \<Longrightarrow> fs_ok (se_others sample_server_env n fs)"
  by (simp add: sample_server_env_def)

lemma fs_ok_empty: "fs_ok (sv_fs (new_process empty_fs))"
  by (simp add: fs_ok_def new_process_def empty_fs_def)

lemma sample_server_holds:
  "\<exists>s m. backend_boot sample_server_env default_flags (new_process empty_fs) = (s, Inr ()) \<and>
     fs_ok (sv_fs s) \<and> pm_ok (sv_fs s) m \<and> pm_owner m \<and> pm_lock_file m = sample_lock_file"
proof -
  obtain s where s: "backend_boot sample_server_env default_flags (new_process empty_fs) = (s, Inr ())"
    using sample_server_boots by blast
  obtain m where "sv_mutex s = Some m" "pm_owner m"
      "pm_lock_file m = server_lock_file sample_server_env default_flags"
    using backend_boot_owner [OF s] .
  then show ?thesis
    using s backend_boot_held [OF s fs_ok_empty sample_server_fs _ sample_server_alone]
    by (auto simp: sample_server_bootstrap)
qed

theorem active_server_holds_lock_witness:
  "\<exists>s m. backend_boot sample_server_env default_flags (new_process empty_fs) = (s, Inr ()) \<and>
     sv_mutex s = Some m \<and> pm_owner m \<and>
     snd (snd (pm_check (sv_fs s) \<lparr>pm_fd = None, pm_lock_file = sample_lock_file, pm_owner = False\<rparr>)) = locked"
proof -
  obtain s where s: "backend_boot sample_server_env default_flags (new_process empty_fs) = (s, Inr ())"
      "fs_denied (sv_fs s) = []"
    using sample_server_boots by blast
  from active_server_holds_lock [OF s(1) fs_ok_empty sample_server_fs sample_server_alone] s show ?thesis
    by (auto simp: sample_server_bootstrap)
qed

theorem server_life_witness:
  "\<exists>s'. main sample_server_env default_flags (new_process empty_fs) = Some (s', Exits 0) \<and>
     published s' = [state_ready, state_activated, state_deactivating, state_deactivated] \<and>
     fs_names (sv_fs s') sample_lock_file = None"
proof -
  obtain s where s: "backend_boot sample_server_env default_flags (new_process empty_fs) = (s, Inr ())"
    using sample_server_boots by blast
  have main: "main sample_server_env default_flags (new_process empty_fs) = Some (backend_down sample_server_env s, Exits 0)"
    unfolding main_def s by (simp add: sample_server_env_def)
  have "published (new_process empty_fs) = []" by (simp add: published_def new_process_def map_filter_def)
  from server_life [OF main this] main show ?thesis by (simp add: sample_server_bootstrap)
qed

theorem second_server_refused_witness:
  "\<exists>fs s' e. fs_names fs sample_lock_file \<noteq> None \<and>
     main sample_server_env default_flags (new_process fs) = Some (s', e) \<and> e \<noteq> Exits 0 \<and> published s' = []"
proof -
  obtain s :: "(string \<Rightarrow> string) server" and m where m: "fs_ok (sv_fs s)" "pm_ok (sv_fs s) m" "pm_owner m" "pm_lock_file m = sample_lock_file"
    using sample_server_holds by blast
  have "\<exists>s' e. main sample_server_env default_flags (new_process (sv_fs s)) = Some (s', e) \<and> e \<noteq> Exits 0 \<and>
      published s' = [] \<and> pm_ok (sv_fs s') m"
    by (rule second_server_refused)
      (use m sample_server_alone in \<open>simp_all add: new_process_def sample_server_bootstrap published_def map_filter_def\<close>)
  moreover have "fs_names (sv_fs s) sample_lock_file \<noteq> None"
    using m by (auto simp: pm_ok_def split: option.splits)
  ultimately show ?thesis by blast
qed

end
