(* ===== verification/Terminal_Prompt.thy ===== *)
theory Terminal_Prompt
  imports Console
begin

section \<open>Questions at the terminal\<close>

text \<open>
  \<open>prompt\<close> and \<open>sigint_handler\<close> of \<^verbatim>\<open>src/tateyama/authentication/authenticator.cpp\<close>, by which a user name and a password
  are asked for; \<open>ae_prompt\<close> of \<open>auth_env\<close> is what it returns.  A terminal has the keys that will be pressed, whether it is
  one, and its two echo flags.  After the last key \<open>getchar\<close> returns \<open>EOF\<close> for ever.  The handler for \<open>SIGINT\<close> is set
  only while nothing is displayed; else the signal kills the process.
\<close>

datatype key = Key char | Interrupt

record tty =
  tt_keys :: "key list"
  tt_isatty :: bool
  tt_echo :: bool
  tt_echonl :: bool

datatype prompt_end = Line string | Interrupted exn | Killed_by_signal

text \<open>The loop: the characters before the newline, or \<open>None\<close> inside when a signal comes; \<open>None\<close> outside: the loop does
  not end.\<close>

fun read_line :: "key list \<Rightarrow> (key list \<times> string option) option" where
  "read_line [] = None"
| "read_line (Interrupt # ks) = Some (ks, None)"
| "read_line (Key chr # ks) =
     (if chr = CHR 0x0A then Some (ks, Some [])
      else map_option (\<lambda>(ks, r). (ks, map_option (\<lambda>s. chr # s) r)) (read_line ks))"

definition sigint_handler :: "tty \<Rightarrow> tty \<Rightarrow> tty \<times> exn" where
  "sigint_handler saved tm =
     (tm\<lparr>tt_echo := tt_echo saved, tt_echonl := tt_echonl saved\<rparr>,
      Tgctl_error (runtime_error reason_interrupted ''key input has been interrupted by the user''))"

definition auth_prompt ::
    "string \<Rightarrow> bool \<Rightarrow> tty \<Rightarrow> 'a console_scheme \<Rightarrow> (tty \<times> 'a console_scheme \<times> prompt_end) option" where
  "auth_prompt msg display saved c =
     (let tm = (if display then saved else saved\<lparr>tt_echo := False, tt_echonl := True\<rparr>);
          c = (if tt_isatty tm then cout msg c else c)
      in case read_line (tt_keys tm) of
           None \<Rightarrow> None
         | Some (ks, None) \<Rightarrow>
             (let tm = tm\<lparr>tt_keys := ks\<rparr>
              in Some (if display then (tm, c, Killed_by_signal)
                       else (case sigint_handler saved tm of (tm, e) \<Rightarrow> (tm, c, Interrupted e))))
         | Some (ks, Some rtnv) \<Rightarrow>
             (let tm = tm\<lparr>tt_keys := ks\<rparr>
              in Some ((if display then tm else tm\<lparr>tt_echo := tt_echo saved, tt_echonl := tt_echonl saved\<rparr>), c, Line rtnv)))"

section \<open>Lemmas\<close>

lemma read_line_newline:
  assumes "CHR 0x0A \<notin> set line"
  shows "read_line (map Key line @ Key (CHR 0x0A) # ks) = Some (ks, Some line)"
  using assms by (induction line) auto

lemma read_line_interrupt:
  assumes "CHR 0x0A \<notin> set line"
  shows "read_line (map Key line @ Interrupt # ks) = Some (ks, None)"
  using assms by (induction line) auto

text \<open>The loop ends exactly if the line is ended or interrupted; at the end of the input it does not.\<close>

lemma read_line_ends: "read_line ks \<noteq> None \<longleftrightarrow> Key (CHR 0x0A) \<in> set ks \<or> Interrupt \<in> set ks"
  by (induction ks rule: read_line.induct) auto

lemma prompt_at_end_of_input: "tt_keys tm = [] \<Longrightarrow> auth_prompt msg display tm c = None"
  by (simp add: auth_prompt_def Let_def)

text \<open>The line that is typed is the answer, and what follows it is left for the next question.\<close>

lemma auth_prompt_line:
  assumes "CHR 0x0A \<notin> set line" "tt_keys tm = map Key line @ Key (CHR 0x0A) # ks"
  shows "\<exists>c'. auth_prompt msg display tm c = Some (tm\<lparr>tt_keys := ks\<rparr>, c', Line line) \<and> con_err c' = con_err c"
  using assms read_line_newline by (auto simp: auth_prompt_def Let_def)

text \<open>However it ends, the terminal echoes as before, and what is typed is not written by the program.\<close>

lemma auth_prompt_restores:
  assumes "auth_prompt msg display tm c = Some (tm', c', r)"
  shows "tt_echo tm' = tt_echo tm \<and> tt_echonl tm' = tt_echonl tm \<and> con_out c' = con_out c @ (if tt_isatty tm then msg else [])"
  using assms
  by (auto simp: auth_prompt_def sigint_handler_def Let_def split: option.splits prod.splits if_splits)

end
