(* ===== verification/Session_Timer.thy ===== *)
theory Session_Timer
  imports Transport
begin

section \<open>The life of the session's timer\<close>

text \<open>
  \<^verbatim>\<open>src/tateyama/transport/timer.h\<close>: the constructor and the destructor of \<open>timer\<close>; the function of its thread is
  \<open>timer_run\<close>.  \<open>timer_env\<close> is the kernel: the descriptor of a new timer, unless it refuses one, and whether it accepts a
  setting of a descriptor to seconds and nanoseconds.
\<close>

record timer_env =
  ti_create :: "nat option"
  ti_settime :: "nat \<Rightarrow> int \<Rightarrow> int \<Rightarrow> bool"

record timer =
  ti_fd :: "nat option"
  ti_stop_flag :: bool

text \<open>\<open>timerfd_settime\<close> on the descriptor, which is \<open>None\<close> when \<open>timerfd_create\<close> has failed.\<close>

definition settime :: "timer_env \<Rightarrow> nat option \<Rightarrow> int \<Rightarrow> int \<Rightarrow> bool" where
  "settime te fd sec nsec = (case fd of None \<Rightarrow> False | Some d \<Rightarrow> ti_settime te d sec nsec)"

text \<open>The open descriptors are the first component of the state.  An exception leaves the constructor without the
  destructor.\<close>

definition timer_new :: "timer_env \<Rightarrow> int \<Rightarrow> nat set \<Rightarrow> nat set \<times> timer outcome" where
  "timer_new te interval fds =
     (let fd = ti_create te;
          fds = fds \<union> set_option fd
      in if settime te fd interval 0 then (fds, Inr \<lparr>ti_fd = fd, ti_stop_flag = False\<rparr>)
         else (fds, Inl (Std_error ''error in timerfd_settime()'')))"

text \<open>What the thread reads after the destructor has begun: \<open>later\<close> are the expirations, each with the stop flag set.  \<open>None\<close>:
  \<open>join\<close> does not return.  With \<open>Timer_terminates\<close> the process has ended instead.\<close>

definition timer_delete ::
    "timer_env \<Rightarrow> ('s \<Rightarrow> 's \<times> bool outcome) \<Rightarrow> timer_event list \<Rightarrow> nat \<Rightarrow> timer \<Rightarrow> 's \<Rightarrow> nat set \<Rightarrow> 'a console_scheme \<Rightarrow>
     ('s \<times> nat set \<times> 'a console_scheme \<times> timer_result) option" where
  "timer_delete te work before later ti s fds c =
     (let c = (if settime te (ti_fd ti) 0 (10 * 1000 * 1000) then c else cerr (''error in timerfd_settime()'' @ nl) c)
      in case timer_run work (before @ replicate later (Timer_expired True)) s of
           (s, Timer_waiting) \<Rightarrow> None
         | (s, r) \<Rightarrow> Some (s, fds - set_option (ti_fd ti), c, r))"

section \<open>Lemmas\<close>

lemma timer_run_stops: "snd (timer_run work (es @ Timer_expired True # es') s) \<noteq> Timer_waiting"
  by (induction work es s rule: timer_run.induct) (auto split: prod.splits sum.splits bool.splits)

text \<open>The destructor returns after one expiration at the latest, and closes the timer.\<close>

lemma timer_delete_returns:
  assumes "0 < later"
  obtains s' c' r where "timer_delete te work before later ti s fds c = Some (s', fds - set_option (ti_fd ti), c', r)"
    "r \<noteq> Timer_waiting"
proof -
  obtain n where "later = Suc n" using assms gr0_implies_Suc by blast
  moreover obtain s' r where run: "timer_run work (before @ replicate later (Timer_expired True)) s = (s', r)" by fastforce
  ultimately have "r \<noteq> Timer_waiting" using timer_run_stops [of work before "replicate n (Timer_expired True)" s] by simp
  then show ?thesis using that run by (cases r) (auto simp: timer_delete_def Let_def)
qed

text \<open>Nothing more is done for the session once the stop flag is set.\<close>

lemma timer_stopped: "timer_run work (Timer_expired True # es) s = (s, Timer_ended)"
  by simp

text \<open>A timer that is made and destroyed leaves no descriptor; one whose setting is refused does.\<close>

lemma timer_new_delete:
  assumes "timer_new te interval fds = (fds', Inr ti)" "\<And>d. ti_create te = Some d \<Longrightarrow> d \<notin> fds"
  shows "fds' - set_option (ti_fd ti) = fds"
  using assms by (cases "ti_create te") (auto simp: timer_new_def Let_def split: if_splits)

lemma timer_new_leaks:
  assumes "ti_create te = Some d" "\<not> ti_settime te d interval 0"
  shows "timer_new te interval fds = (insert d fds, Inl (Std_error ''error in timerfd_settime()''))"
  using assms by (simp add: timer_new_def settime_def)

end
