(* ===== verification/Resultset_Lifetime.thy ===== *)
theory Resultset_Lifetime
  imports Resultset_Wires
begin

section \<open>The end of a result set\<close>

text \<open>
  The destructor of \<open>unidirectional_simple_wires\<close> in \<^verbatim>\<open>src/tateyama/transport/wire.h\<close>: it gives back the buffer in
  reserve and the buffers of the wires.  To deallocate what is not allocated is an error of the program, the result \<open>None\<close>.
\<close>

definition us_deallocate :: "nat \<Rightarrow> resultset_wires \<Rightarrow> resultset_wires option" where
  "us_deallocate h u = (if us_shm u h = None then None else Some (u\<lparr>us_shm := (us_shm u)(h := None)\<rparr>))"

definition us_delete_wire :: "nat \<Rightarrow> resultset_wires \<Rightarrow> resultset_wires option" where
  "us_delete_wire i u =
     (if uw_equal (us_wires u ! i) 0 then Some u
      else map_option (\<lambda>u. u\<lparr>us_wires := (us_wires u)[i := uw_detach_buffer (us_wires u ! i)]\<rparr>)
             (us_deallocate (us_handle u i) u))"

fun us_delete_wires :: "nat list \<Rightarrow> resultset_wires \<Rightarrow> resultset_wires option" where
  "us_delete_wires [] u = Some u"
| "us_delete_wires (i # is) u = Option.bind (us_delete_wire i u) (us_delete_wires is)"

definition us_delete :: "resultset_wires \<Rightarrow> resultset_wires option" where
  "us_delete u =
     Option.bind (if us_reserved u \<noteq> 0 then us_deallocate (us_reserved u) u else Some u)
       (us_delete_wires [0..<length (us_wires u)])"

section \<open>Every buffer is given back once\<close>

lemma us_delete_wire_ok:
  assumes "i < length (us_wires u)" "us_handle u i \<noteq> 0 \<Longrightarrow> us_handle u i \<in> dom (us_shm u)"
  shows "\<exists>u'. us_delete_wire i u = Some u' \<and> us_handle u' = (us_handle u)(i := 0) \<and>
    dom (us_shm u') = dom (us_shm u) - ({us_handle u i} - {0}) \<and> length (us_wires u') = length (us_wires u)"
proof (cases "us_handle u i = 0")
  case True
  then show ?thesis using assms(1) by (auto simp: us_delete_wire_def uw_equal_def us_handle_def)
next
  case False
  let ?u = "u\<lparr>us_shm := (us_shm u)(us_handle u i := None)\<rparr>"
  have "us_deallocate (us_handle u i) u = Some ?u" using assms(2) False by (auto simp: us_deallocate_def)
  moreover have "us_handle (?u\<lparr>us_wires := (us_wires u)[i := uw_detach_buffer (us_wires u ! i)]\<rparr>) = (us_handle u)(i := 0)"
    using assms(1) by (auto simp: us_handle_def fun_eq_iff nth_list_update uw_detach_buffer_def)
  ultimately show ?thesis
    using False assms(1) by (auto simp: us_delete_wire_def uw_equal_def us_handle_def)
qed

lemma us_delete_wires_ok:
  assumes "distinct is" "set is \<subseteq> {..<length (us_wires u)}" "inj_on (us_handle u) (attached (us_handle u))"
    and "attached (us_handle u) \<subseteq> set is" "dom (us_shm u) = us_handle u ` attached (us_handle u)"
  shows "\<exists>u'. us_delete_wires is u = Some u' \<and> us_shm u' = Map.empty \<and> attached (us_handle u') = {}"
  using assms
proof (induction "is" arbitrary: u)
  case Nil
  then show ?case by simp
next
  case (Cons i "is")
  obtain u1 where u1: "us_delete_wire i u = Some u1" "us_handle u1 = (us_handle u)(i := 0)"
      "dom (us_shm u1) = dom (us_shm u) - ({us_handle u i} - {0})" "length (us_wires u1) = length (us_wires u)"
    using us_delete_wire_ok [of i u] Cons.prems(2,5) by (auto simp: attached_def)
  have att: "attached (us_handle u1) = attached (us_handle u) - {i}" by (simp add: u1(2) attached_upd)
  have img: "us_handle u1 ` (attached (us_handle u) - {i}) = us_handle u ` (attached (us_handle u) - {i})"
    by (rule image_cong) (auto simp: u1(2))
  have "dom (us_shm u1) = us_handle u1 ` attached (us_handle u1)"
    unfolding u1(3) Cons.prems(5) att img using Cons.prems(3) by (auto simp: inj_on_def attached_def)
  moreover have "inj_on (us_handle u1) (attached (us_handle u1))"
  proof -
    have "inj_on (us_handle u) (attached (us_handle u) - {i})" by (rule inj_on_subset [OF Cons.prems(3)]) blast
    then show ?thesis unfolding att by (rule inj_on_cong [THEN iffD1, rotated]) (simp add: u1(2))
  qed
  ultimately have "\<exists>u'. us_delete_wires is u1 = Some u' \<and> us_shm u' = Map.empty \<and> attached (us_handle u') = {}"
    using Cons.IH [of u1] Cons.prems(1,2,4) u1(4) by (auto simp: att)
  then show ?case using u1(1) by simp
qed

lemma us_delete_ok:
  assumes "us_inv u"
  shows "\<exists>u'. us_delete u = Some u' \<and> us_shm u' = Map.empty \<and> attached (us_handle u') = {}"
proof -
  have pool: "attached (us_handle u) \<subseteq> {..<length (us_wires u)}" "inj_on (us_handle u) (attached (us_handle u))"
      "us_reserved u \<notin> us_handle u ` attached (us_handle u)"
      "dom (us_shm u) = pool_blocks (us_reserved u) 0 (us_handle u)"
    using assms by (auto simp: us_inv_def us_core_def buffer_pool_def)
  define u1 where "u1 = u\<lparr>us_shm := (us_shm u)(us_reserved u := None)\<rparr>"
  have handle: "us_handle u1 = us_handle u" by (rule us_handle_cong) (simp add: u1_def)
  have wires: "us_wires u1 = us_wires u" by (simp add: u1_def)
  define A where "A = us_handle u ` attached (us_handle u)"
  have A: "0 \<notin> A" "us_reserved u \<notin> A" using pool(3) by (auto simp: A_def attached_def)
  have "pool_blocks (us_reserved u) 0 (us_handle u) = (A \<union> {us_reserved u, 0}) - {0}"
    by (simp add: pool_blocks_def A_def)
  then have dom: "dom (us_shm u) = A \<union> ({us_reserved u} - {0})" using A(1) pool(4) by blast
  have "dom (us_shm u1) = dom (us_shm u) - {us_reserved u}" by (simp add: u1_def)
  then have "dom (us_shm u1) = us_handle u1 ` attached (us_handle u1)"
    using A unfolding dom handle A_def [symmetric] by blast
  then have "\<exists>u'. us_delete_wires [0..<length (us_wires u)] u1 = Some u' \<and> us_shm u' = Map.empty \<and>
      attached (us_handle u') = {}"
    using pool(1,2) by (intro us_delete_wires_ok) (simp_all add: handle wires atLeast0LessThan)
  moreover have "(if us_reserved u \<noteq> 0 then us_deallocate (us_reserved u) u else Some u) = Some u1"
  proof (cases "us_reserved u = 0")
    case True
    then have "us_shm u 0 = None" using dom A by auto
    then show ?thesis using True by (simp add: u1_def fun_upd_idem)
  next
    case False
    then show ?thesis using dom by (auto simp: u1_def us_deallocate_def)
  qed
  ultimately show ?thesis by (simp add: us_delete_def)
qed



end
