(* ===== verification/Rsa_Encrypter.thy ===== *)
theory Rsa_Encrypter
  imports Authentication
begin

section \<open>The encryption of a credential\<close>

text \<open>
  \<open>rsa_encrypter\<close> of \<^verbatim>\<open>src/tateyama/authentication/rsa.h\<close> and its use in \<^verbatim>\<open>credential_handler.cpp\<close>.  The functions of
  OpenSSL are the fields of \<open>openssl\<close>: \<open>'pkey\<close> is a key, \<open>'ctx\<close> a context, whose settings the calls change; \<open>None\<close> and
  \<open>False\<close> are their failures.  \<open>os_encrypt_length\<close> is the first call of \<open>EVP_PKEY_encrypt\<close>, which only computes the
  length.  The encoding in base 64, made of iterators of Boost, is an argument.
\<close>

record ('pkey, 'ctx) openssl =
  os_decode :: "string \<Rightarrow> 'pkey option option"
  os_ctx_new :: "'pkey \<Rightarrow> 'ctx option"
  os_encrypt_init :: "'ctx \<Rightarrow> 'ctx \<times> bool"
  os_set_oaep_padding :: "'ctx \<Rightarrow> 'ctx \<times> bool"
  os_set_oaep_md_sha1 :: "'ctx \<Rightarrow> 'ctx \<times> bool"
  os_set_mgf1_md_sha1 :: "'ctx \<Rightarrow> 'ctx \<times> bool"
  os_encrypt_length :: "'ctx \<Rightarrow> string \<Rightarrow> nat option"
  os_encrypt :: "'ctx \<Rightarrow> nat \<Rightarrow> string \<Rightarrow> string option"

definition get_public_key :: "('pkey, 'ctx) openssl \<Rightarrow> string \<Rightarrow> 'pkey option outcome" where
  "get_public_key ossl public_key =
     (case os_decode ossl public_key of
        None \<Rightarrow> Inl (Std_error ''fail to handle public key'')
      | Some pkey \<Rightarrow> Inr pkey)"

definition rsa_encrypter_new :: "('pkey, 'ctx) openssl \<Rightarrow> string \<Rightarrow> 'pkey outcome" where
  "rsa_encrypter_new ossl public_key =
     (case get_public_key ossl public_key of
        Inl e \<Rightarrow> Inl e
      | Inr None \<Rightarrow> Inl (Std_error ''Get public key failed.'')
      | Inr (Some pkey) \<Rightarrow> Inr pkey)"

text \<open>A call that changes the context, with the exception for its failure.\<close>

definition ctx_call :: "('ctx \<Rightarrow> 'ctx \<times> bool) \<Rightarrow> string \<Rightarrow> 'ctx outcome \<Rightarrow> 'ctx outcome" where
  "ctx_call f message r =
     (case r of
        Inl e \<Rightarrow> Inl e
      | Inr ctx \<Rightarrow> (case f ctx of (ctx, ok) \<Rightarrow> if ok then Inr ctx else Inl (Std_error message)))"

definition rsa_context :: "('pkey, 'ctx) openssl \<Rightarrow> 'pkey \<Rightarrow> 'ctx outcome" where
  "rsa_context ossl pkey =
     ctx_call (os_set_mgf1_md_sha1 ossl) ''EVP_PKEY_CTX_set_rsa_mgf1_md() failed.''
       (ctx_call (os_set_oaep_md_sha1 ossl) ''EVP_PKEY_CTX_set_rsa_oaep_md() failed.''
         (ctx_call (os_set_oaep_padding ossl) ''EVP_PKEY_CTX_set_rsa_padding() failed.''
           (ctx_call (os_encrypt_init ossl) ''EVP_PKEY_encrypt_init() failed.''
             (case os_ctx_new ossl pkey of
                None \<Rightarrow> Inl (Std_error ''fail to EVP_PKEY_CTX_new_from_pkey'')
              | Some ctx \<Rightarrow> Inr ctx))))"

text \<open>The result has the length of the first call; what the second one writes is its beginning.\<close>

definition rsa_encrypt :: "('pkey, 'ctx) openssl \<Rightarrow> 'pkey \<Rightarrow> string \<Rightarrow> string outcome" where
  "rsa_encrypt ossl pkey input =
     (case rsa_context ossl pkey of
        Inl e \<Rightarrow> Inl e
      | Inr ctx \<Rightarrow>
          (case os_encrypt_length ossl ctx input of
             None \<Rightarrow> Inl (Std_error ''fail to EVP_PKEY_encrypt first'')
           | Some buf_len \<Rightarrow>
               (case os_encrypt ossl ctx buf_len input of
                  None \<Rightarrow> Inl (Std_error ''fail to EVP_PKEY_encrypt final'')
                | Some written \<Rightarrow> Inr (written @ replicate (buf_len - length written) (CHR 0x00)))))"

definition encrypt_credential :: "('pkey, 'ctx) openssl \<Rightarrow> (string \<Rightarrow> string) \<Rightarrow> string \<Rightarrow> string \<Rightarrow> string outcome" where
  "encrypt_credential ossl base64_encode key json_text =
     (case rsa_encrypter_new ossl key of
        Inl e \<Rightarrow> Inl e
      | Inr rsa \<Rightarrow> map_sum id base64_encode (rsa_encrypt ossl rsa json_text))"

section \<open>Lemmas\<close>

lemma ctx_call_ok: "ctx_call f message r = Inr ctx' \<longleftrightarrow> (\<exists>ctx. r = Inr ctx \<and> f ctx = (ctx', True))"
  by (cases r) (auto simp: ctx_call_def split: prod.splits)

text \<open>Nothing is encrypted but with the padding OAEP and SHA-1 for both of its functions, set in this order after the
  initialization.\<close>

lemma rsa_context_settings:
  assumes "rsa_context ossl pkey = Inr ctx"
  obtains c0 c1 c2 c3 where "os_ctx_new ossl pkey = Some c0" "os_encrypt_init ossl c0 = (c1, True)"
    "os_set_oaep_padding ossl c1 = (c2, True)" "os_set_oaep_md_sha1 ossl c2 = (c3, True)"
    "os_set_mgf1_md_sha1 ossl c3 = (ctx, True)"
  using assms by (auto simp: rsa_context_def ctx_call_ok split: option.splits)

lemma rsa_encrypt_length:
  assumes "rsa_encrypt ossl pkey input = Inr out" "rsa_context ossl pkey = Inr ctx"
    and "\<And>n w. os_encrypt ossl ctx n input = Some w \<Longrightarrow> length w \<le> n"
  shows "os_encrypt_length ossl ctx input = Some (length out)"
  using assms by (fastforce simp: rsa_encrypt_def split: option.splits)

text \<open>A failure of OpenSSL is never taken for a success, and is an exception the callers know.\<close>

lemma encrypt_credential_result:
  "case encrypt_credential ossl base64_encode key json_text of
     Inl e \<Rightarrow> \<exists>message. e = Std_error message
   | Inr ec \<Rightarrow> \<exists>pkey ctx n w. os_decode ossl key = Some (Some pkey) \<and> rsa_context ossl pkey = Inr ctx \<and>
       os_encrypt_length ossl ctx json_text = Some n \<and> os_encrypt ossl ctx n json_text = Some w \<and>
       ec = base64_encode (w @ replicate (n - length w) (CHR 0x00))"
proof (cases "rsa_encrypter_new ossl key")
  case (Inl e)
  then show ?thesis
    by (auto simp: encrypt_credential_def rsa_encrypter_new_def get_public_key_def split: option.splits sum.splits)
next
  case (Inr pkey)
  then have key: "os_decode ossl key = Some (Some pkey)"
    by (auto simp: rsa_encrypter_new_def get_public_key_def split: option.splits sum.splits)
  show ?thesis
  proof (cases "rsa_context ossl pkey")
    case (Inl e)
    then have "\<exists>message. e = Std_error message"
      by (auto simp: rsa_context_def ctx_call_def split: option.splits sum.splits prod.splits if_splits)
    then show ?thesis using Inr Inl by (simp add: encrypt_credential_def rsa_encrypt_def)
  next
    case ctx: (Inr ctx)
    then show ?thesis
      using Inr key by (auto simp: encrypt_credential_def rsa_encrypt_def split: option.split)
  qed
qed

text \<open>The credential a handler adds for a user and a password is the encrypted text, with the key of the service; without a
  key, or when the encryption fails, none is added.\<close>

lemma user_password_encrypted:
  assumes "add_credential (ae\<lparr>ae_encrypt := encrypt_credential ossl base64_encode\<rparr>) ch key_func s = (s', Inr cr)"
    and "ch_type ch = ct_user_password"
  shows "\<exists>key ec. key_func s = (s', Inr (Some key)) \<and> encrypt_credential ossl base64_encode key (ch_json_text ch) = Inr ec \<and>
    cr = Encrypted_credential ec"
  using assms by (auto simp: add_credential_def split: prod.splits sum.splits option.splits)

end
