(* ===== verification/Signal_Handlers.thy ===== *)
theory Signal_Handlers
  imports Console
begin

section \<open>The handlers of signals\<close>

text \<open>
  \<open>wait_for_signal\<close> of \<^verbatim>\<open>src/tateyama/process/control.cpp\<close>, the handler for \<open>SIGCHLD\<close> of \<^verbatim>\<open>tgctl start\<close>, and
  \<open>sighup_handler\<close> of \<^verbatim>\<open>src/tateyama/server/backend.cpp\<close>.  The results of \<open>waitpid(-1, nullptr, WNOHANG)\<close> are an argument:
  the process id of a child that has ended, 0 while there is a child but none has ended, -1 without a child.
\<close>

fun wait_for_signal :: "int list \<Rightarrow> int list option" where
  "wait_for_signal [] = None"
| "wait_for_signal (r # rs) = (if 0 \<ge> r then wait_for_signal rs else Some rs)"

text \<open>The server prints its diagnostics once the resource for them has been found.\<close>

definition sighup_handler :: "string option \<Rightarrow> 'a console_scheme \<Rightarrow> 'a console_scheme" where
  "sighup_handler diagnostic_resource_body c =
     (case diagnostic_resource_body of None \<Rightarrow> c | Some diagnostics \<Rightarrow> cerr diagnostics c)"

section \<open>Lemmas\<close>

text \<open>The handler returns exactly when a child has ended, and takes that one child only.\<close>

lemma wait_for_signal_returns:
  "wait_for_signal results = Some rest \<longleftrightarrow> (\<exists>pre r. results = pre @ r # rest \<and> 0 < r \<and> list_all (\<lambda>x. x \<le> 0) pre)"
proof (induction results)
  case Nil
  then show ?case by simp
next
  case (Cons x results)
  show ?case
  proof (cases "x \<le> 0")
    case True
    then have "wait_for_signal (x # results) = Some rest \<longleftrightarrow>
        (\<exists>pre r. results = pre @ r # rest \<and> 0 < r \<and> list_all (\<lambda>x. x \<le> 0) pre)"
      using Cons.IH by simp
    also have "\<dots> \<longleftrightarrow> (\<exists>pre r. x # results = pre @ r # rest \<and> 0 < r \<and> list_all (\<lambda>x. x \<le> 0) pre)"
      using True by (auto simp: Cons_eq_append_conv)
    finally show ?thesis .
  next
    case False
    then show ?thesis by (auto simp: Cons_eq_append_conv)
  qed
qed

text \<open>Without a child that ends, as after a signal for a child that was stopped, or for one that has already been waited
  for, the handler does not return.\<close>

lemma wait_for_signal_spins: "list_all (\<lambda>x. x \<le> 0) results \<Longrightarrow> wait_for_signal results = None"
  by (induction results) simp_all

end
