(* ===== verification/Spec2Isabelle.thy ===== *)
theory Spec2Isabelle
  imports Wire_Transfer Wire_Wakeup Resultset_Client Tgctl_Main Server_Backend Terminal_Prompt Session_Timer
    Resultset_Lifetime Rsa_Encrypter Signal_Handlers
begin

text \<open>
  \<^bold>\<open>A verification development for tateyama-bootstrap.\<close>

  The program is the bootstrap of the Tsurugi database: the administration command \<^verbatim>\<open>tgctl\<close>, what it needs to talk to the
  server process, and the main function of that process.  All paths below are under \<^verbatim>\<open>src/src/tateyama\<close>.

  \<^bold>\<open>The parts and how they interact.\<close>  A command of \<^verbatim>\<open>tgctl\<close> reads the configuration (\<^verbatim>\<open>configuration/\<close>), which
  names the lock file that identifies the server instance.  The process commands (\<^verbatim>\<open>process/control.cpp\<close>) start, stop and
  inspect the server by means of that lock file (\<^verbatim>\<open>process/proc_mutex.h\<close>) and of a segment of shared memory with its
  state (\<^verbatim>\<open>server/status_info.h\<close>).  The other commands open a session: they ask the connection queue in shared memory
  for one (\<^verbatim>\<open>transport/wire.h\<close>, \<^verbatim>\<open>transport/client_wire.h\<close>), present a credential (\<^verbatim>\<open>authentication/\<close>), and exchange
  delimited protobuf messages (\<^verbatim>\<open>utils/protobuf_utils.cpp\<close>) over a request wire and a response wire, two ring buffers
  in shared memory; result sets come over wires of their own.  Every command reports to the console and to a monitor file
  (\<^verbatim>\<open>monitor/\<close>).

  \<^bold>\<open>The theories\<close>, in the order of their dependencies:

  \<^item> \<open>Bootstrap_Prelude\<close>: collections of facts, arithmetic modulo \<open>2 ^ 64\<close>, lists; \<open>Monitor_Constants\<close>,
    \<open>Monitor_Output\<close>, \<open>Console\<close>: the enumerations, the error type, the records of the monitor file with their JSON
    lines, and the three output streams of a command with exceptions as values.
  \<^item> \<open>Wire_Header\<close>: the headers of messages and their bytes (\<open>*_roundtrip\<close>).  \<open>Simple_Wire\<close>: \<open>simple_wire\<close>, the
    ring buffer with the copies that wrap around, counters modulo \<open>2 ^ 64\<close>; one definition for each function.
    \<open>Wire_Ring\<close>: the ring refines a queue of bytes (locale \<open>byte_fifo\<close> and its interpretation, \<open>ring_run_fifo\<close>).
    \<open>Wire_Message\<close>: whole messages through it.  \<open>Wire_Transfer\<close>: writer and reader as interleaved state machines,
    chunk by chunk, for messages longer than the ring: the reader's bytes are a prefix of the message
    (\<open>response_transfer_safe\<close>) and the transfer ends (\<open>response_transfer_delivers\<close>).
  \<^item> \<open>Message_Wire\<close>: the request and response wires with \<open>peep\<close>, \<open>await\<close>, termination and timeouts.
    \<open>Wire_Wakeup\<close>: the flag and condition by which a reader sleeps and is woken (\<open>no_lost_wakeup\<close>).
  \<^item> \<open>Resultset_Wire\<close>, \<open>Resultset_Wires\<close>, \<open>Resultset_Client\<close>: the wire of a result set refines a queue of records
    (locale \<open>record_channel\<close>), the container keeps its buffers apart, and a client reads every record.
  \<^item> \<open>Connection_Queue\<close>: \<open>index_queue\<close>, \<open>element\<close>, \<open>connection_queue\<close>; a step relation of clients and server with the
    invariant that no slot of a session is given out twice (\<open>slots_exclusive\<close>).
  \<^item> \<open>Proc_Mutex\<close>: the lock file over a small file system with \<open>flock\<close>; processes as a step relation; at most one owner
    (\<open>proc_mutex_exclusive\<close>).
  \<^item> \<open>Configuration\<close>: instance ids, choice of the configuration file, lock file, default settings, \<^verbatim>\<open>tgctl config\<close>.
  \<^item> \<open>Process_State\<close>, \<open>Process_Control\<close>, \<open>Process_Properties\<close>, \<open>Control_Commands\<close>: \<^verbatim>\<open>process/control.cpp\<close> function by
    function, over a \<open>world\<close> in which other processes act at every system call; what start, shutdown, kill, status and pid
    report is what holds of the lock file and of the server's state.
  \<^item> \<open>Client_Wire\<close>: the slots of responses, \<open>receive\<close> as a state machine with one step for each access to shared data,
    any number of threads (\<open>receive_returns_own_response\<close>), connecting.
  \<^item> \<open>Protobuf_Utils\<close>: the framing of messages (locale \<open>varint_codec\<close>, interpreted on the documented varint encoding).
  \<^item> \<open>Authentication\<close>: the choice of the credential, the HTTP client's handling of replies, \<open>authenticate\<close>.
    \<open>Rsa_Encrypter\<close>: its encryption, with every failure of OpenSSL.  \<open>Terminal_Prompt\<close>: the question for a name or a
    password, which restores the terminal however it ends.  \<open>Credentials\<close>: \<^verbatim>\<open>tgctl credentials\<close>.
  \<^item> \<open>Transport\<close>: opening a session with its handshake, the overloads of \<open>send\<close>; \<open>Session_Timer\<close>: the timer that keeps
    the session alive, from its constructor to its destructor.
  \<^item> \<open>Resultset_Lifetime\<close>: the destructor of the wires of a result set gives back every block once.
  \<^item> \<open>Service_Command\<close>: what the commands over a session have in common: the locale \<open>exception_handler\<close> (how a command ends
    its monitor file when something is thrown), interpreted on the handlers of the code, and sample servers for witnesses.
    \<open>Session_Commands\<close>, \<open>Request_Commands\<close>, \<open>Metrics_Commands\<close>, \<open>Altimeter_Commands\<close>, \<open>Datastore_Commands\<close>: the commands of
    \<^verbatim>\<open>session/\<close>, \<^verbatim>\<open>request/\<close>, \<^verbatim>\<open>metrics/\<close>, \<^verbatim>\<open>altimeter/\<close> and \<^verbatim>\<open>datastore/\<close>, function by function: what they print and
    record is what the server answered, a backup that succeeds is complete, a restore needs a confirmation.
  \<^item> \<open>Version\<close>, \<open>Help_Text\<close>, \<open>Tgctl_Main\<close>: \<^verbatim>\<open>tgctl/tgctl.cpp\<close>: the choice of the command, and the order in which a command
    that needs a server in maintenance mode starts it, uses it and stops it.
  \<^item> \<open>Server_Settings\<close>, \<open>Server_Utils\<close>, \<open>Server_Backend\<close>: the server process (\<^verbatim>\<open>server/\<close>, \<^verbatim>\<open>altimeter/altimeter_helper.cpp\<close>):
    the settings of its logs, the dump files of benchmark tables (\<open>tpch_roundtrip\<close>), and its main function as a sequence of
    phases.  The states it publishes follow the life its clients rely on (\<open>server_life\<close>); it holds its lock file while it is
    active (locale \<open>lock_guard\<close>: what the phases after the locking keep of the file system), and a second server on the same
    file is refused.
  \<^item> \<open>Signal_Handlers\<close>: the handlers for \<open>SIGCHLD\<close> and \<open>SIGHUP\<close>.
  \<^item> This theory: what \<^verbatim>\<open>tgctl status\<close> finds after the server's main function has come up and after it has ended
    (\<open>status_follows_server\<close>).

  \<^bold>\<open>Conventions.\<close>  A class is a record, an enumeration a datatype.  A function that may throw returns a sum whose left side
  is the exception.  A loop that waits takes the effect of the other side at each wait as a list; \<open>None\<close> then means that
  it still waits.  Counters of the wires are natural numbers with the wrap-around modulo \<open>2 ^ 64\<close> written out
  (\<open>u64_add\<close>, \<open>u64_sub\<close>); a theorem that assumes a budget says how many bytes may pass before a counter wraps.  Polling
  loops of \<^verbatim>\<open>control.cpp\<close> run over the number of turns computed by the code, so that they need no other fuel; the loop of
  \<open>get_pid\<close>, which has no bound, takes the number of turns as fuel (\<open>te_fuel\<close> in \<open>Tgctl_Main\<close>), and one turn is enough when
  the lock file holds a pid (\<open>pid_command_prints_pid\<close>); the fuel of \<open>rc_read_all\<close> is one more than the number of records, and
  that of the varint reader is the ten bytes the encoding allows.

  \<^bold>\<open>Parameters.\<close>  Code outside the repository is an argument: the INI reader and the path functions (\<open>conf_env\<close>,
  \<open>typed_get\<close>), the allocator of shared memory, the coded streams and message classes of protobuf (\<open>coded_stream\<close>,
  \<open>protobuf\<close>, the records whose names end in \<open>_pb\<close>), HTTP, JSON and JWT (\<open>auth_env\<close>, \<open>auth_service\<close>, \<open>json_reader\<close>,
  \<open>file_list_env\<close>), OpenSSL (\<open>openssl\<close>), base 64, the other side of a session (\<open>answer\<close>), the status memory and the other
  processes (\<open>world\<close>), the operating system's answers about files, terminals and timers (\<open>file_env\<close>, \<open>disk_env\<close>,
  \<open>terminal\<close>, \<open>tty\<close>, \<open>timer_env\<close>), the framework and the database engine of the server (\<open>server_env\<close>,
  \<open>table_store\<close>), the altimeter library (\<open>altimeter_lib\<close>).

  \<^bold>\<open>Not modelled.\<close>  The base 64 encoders (\<^verbatim>\<open>authentication/base64.h\<close>, \<^verbatim>\<open>request/base64.h\<close>) are instances of iterator
  templates of Boost, which the repository does not contain; they are parameters.  The parsing of options is done by
  gflags; the records \<open>flags\<close> hold its result.  Messages to the log of glog, forwarding member functions, deleted
  constructors, \<open>token_type\<close> of \<^verbatim>\<open>token_handler.h\<close> and \<open>DBCloser\<close>, which nothing uses, are left out.  Memory ordering is
  taken to be sequentially consistent.
\<close>

section \<open>The server and the commands that look at it\<close>

text \<open>A command of \<^verbatim>\<open>tgctl\<close> with the server's configuration that runs while nothing else happens and finds in the status
  memory what the server has published last.\<close>

definition observer :: "'db server_env \<Rightarrow> 'db server \<Rightarrow> world \<Rightarrow> bool" where
  "observer env s w \<longleftrightarrow>
     w_conf w = se_conf env \<and> w_others w = (\<lambda>t fs. fs) \<and> w_attach w = (\<lambda>t n. True) \<and> w_whole w = (\<lambda>t. last (published s))"

lemma observer_status:
  assumes "observer env s w" "FLAGS_conf fl' = FLAGS_conf fl" "FLAGS_monitor fl' = []"
    and "status_check_internal w fl' (open_monitor False c) = (d, Inr r)" "status_report r = Inr (stat, line)"
    and "con_out d = con_out c" "con_monitor d = None"
  shows "\<exists>c'. tgctl_status w fl' c = (c', Inr rc_ok) \<and>
    con_out c' = con_out c @ server_name_string_for_status @ '' is '' @ line @ nl"
  using assms by (simp add: tgctl_status_def)

lemma observed_locked:
  assumes "observer env s w" "FLAGS_conf fl' = FLAGS_conf fl"
    and "bc_valid (create_bootstrap_configuration (se_conf env) (FLAGS_conf fl))"
    and "snd (get_configuration (se_conf env) (create_bootstrap_configuration (se_conf env) (FLAGS_conf fl))) = Inr (Some conf)"
    and "fs_ok (ctl_fs c)" "pm_ok (ctl_fs c) m" "pm_owner m" "pm_lock_file m = server_lock_file env fl"
    and "pm_lock_file m \<notin> set (fs_denied (ctl_fs c))"
  shows "\<exists>d. status_check_internal w fl' c = (d, Inr (check_result_of_state (last (published s)))) \<and>
    con_out d = con_out c \<and> con_monitor d = con_monitor c"
proof -
  obtain i fd where i: "pm_fd m = Some fd" "fs_names (ctl_fs c) (server_lock_file env fl) = Some (Regular i)"
      "in_holder (fs_inodes (ctl_fs c) i) = Some fd" "fd \<noteq> fs_next_fd (ctl_fs c)"
    using assms(5-8) by (auto simp: pm_ok_def fs_ok_def split: option.splits)
  show ?thesis
    using assms(1-4,8,9) i
    by (simp add: observer_def status_check_internal_def the_bst_conf_def status_check_internal_of_def check_count_status_def
        status_attempts_first m_new_def m_check_def m_delete_def others_def si_new_def si_attach_def si_whole_def
        pm_new_def pm_check_def sys_open_def sys_flock_def Let_def)
qed

lemma observed_gone:
  assumes "observer env s w" "FLAGS_conf fl' = FLAGS_conf fl"
    and "bc_valid (create_bootstrap_configuration (se_conf env) (FLAGS_conf fl))"
    and "snd (get_configuration (se_conf env) (create_bootstrap_configuration (se_conf env) (FLAGS_conf fl))) = Inr (Some conf)"
    and "fs_names (ctl_fs c) (server_lock_file env fl) = None"
  shows "\<exists>d. status_check_internal w fl' c = (d, Inr sc_no_file) \<and> con_out d = con_out c \<and> con_monitor d = con_monitor c"
  using assms
  by (simp add: observer_def status_check_internal_def the_bst_conf_def status_check_internal_of_def
      m_new_def m_check_def m_delete_def others_def pm_new_def pm_check_def sys_open_def Let_def)

text \<open>C9: \<^verbatim>\<open>tgctl status\<close> tells the truth about the server: it reports a server that has come up as running, and one that
  has been shut down as inactive.\<close>

theorem status_follows_server:
  assumes boot: "backend_boot env fl s = (s', Inr ())" "published s = []" "fs_ok (sv_fs s)"
      "\<And>n fs. fs_ok fs \<Longrightarrow> fs_ok (se_others env n fs)" "\<And>m. sv_mutex s' = Some m \<Longrightarrow> leaves_alone (se_others env) m"
    and flags: "FLAGS_conf fl' = FLAGS_conf fl" "FLAGS_monitor fl' = []"
    and up: "observer env s' w" "ctl_fs c = sv_fs s'" "server_lock_file env fl \<notin> set (fs_denied (sv_fs s'))"
    and down: "observer env (backend_down env s') w'" "ctl_fs d = sv_fs (backend_down env s')"
  shows "(\<exists>c'. tgctl_status w fl' c = (c', Inr rc_ok) \<and>
      con_out c' = con_out c @ server_name_string_for_status @ '' is RUNNING'' @ nl) \<and>
    (\<exists>d'. tgctl_status w' fl' d = (d', Inr rc_ok) \<and>
      con_out d' = con_out d @ server_name_string_for_status @ '' is INACTIVE'' @ nl)"
proof -
  obtain conf where conf: "bc_valid (create_bootstrap_configuration (se_conf env) (FLAGS_conf fl))"
      "snd (get_configuration (se_conf env) (create_bootstrap_configuration (se_conf env) (FLAGS_conf fl))) = Inr (Some conf)"
    using backend_boot_valid [OF boot(1)] .
  obtain m where m: "sv_mutex s' = Some m" "pm_owner m" "pm_lock_file m = server_lock_file env fl"
    using backend_boot_owner [OF boot(1)] .
  have held: "fs_ok (sv_fs s') \<and> pm_ok (sv_fs s') m"
    using backend_boot_held [OF boot(1,3,4) m(1) boot(5) [OF m(1)]] .
  have "last (published s') = state_activated"
    using triple_result [OF backend_boot_publishes boot(2,1)] by simp
  with observed_locked [OF up(1) flags(1) conf, of "open_monitor False c" m] held m up(2,3)
  obtain e where "status_check_internal w fl' (open_monitor False c) = (e, Inr sc_activated)" "con_out e = con_out c"
      "con_monitor e = None"
    by (auto simp: open_monitor_def)
  from observer_status [OF up(1) flags this(1) _ this(2,3)]
  have running: "\<exists>c'. tgctl_status w fl' c = (c', Inr rc_ok) \<and>
      con_out c' = con_out c @ server_name_string_for_status @ '' is RUNNING'' @ nl" by simp
  have "fs_names (sv_fs (backend_down env s')) (server_lock_file env fl) = None"
    using backend_down_removes_lock_file [OF m(1,2)] m(3) by metis
  with observed_gone [OF down(1) flags(1) conf, of "open_monitor False d"] down(2)
  obtain e where "status_check_internal w' fl' (open_monitor False d) = (e, Inr sc_no_file)" "con_out e = con_out d"
      "con_monitor e = None"
    by (auto simp: open_monitor_def)
  from observer_status [OF down(1) flags this(1) _ this(2,3)] running show ?thesis by simp
qed

definition sample_observer :: "server_state \<Rightarrow> world" where
  "sample_observer st = (sample_world (\<lambda>t fs. fs) st)\<lparr>w_conf := se_conf sample_server_env\<rparr>"

theorem status_follows_server_witness:
  "\<exists>s c' d'. backend_boot sample_server_env default_flags (new_process empty_fs) = (s, Inr ()) \<and>
     tgctl_status (sample_observer state_activated) default_flags (new_ctl (sv_fs s)) = (c', Inr rc_ok) \<and>
     con_out c' = server_name_string_for_status @ '' is RUNNING'' @ nl \<and>
     tgctl_status (sample_observer state_deactivated) default_flags (new_ctl (sv_fs (backend_down sample_server_env s))) =
       (d', Inr rc_ok) \<and>
     con_out d' = server_name_string_for_status @ '' is INACTIVE'' @ nl"
proof -
  obtain s where s: "backend_boot sample_server_env default_flags (new_process empty_fs) = (s, Inr ())"
      "fs_denied (sv_fs s) = []"
    using sample_server_boots by blast
  have new: "published (new_process empty_fs) = []" by (simp add: published_def new_process_def map_filter_def)
  have pub: "published s = [state_ready, state_activated]"
    using triple_result [OF backend_boot_publishes new s(1)] by simp
  then have obs: "observer sample_server_env s (sample_observer state_activated)"
      "observer sample_server_env (backend_down sample_server_env s) (sample_observer state_deactivated)"
    by (simp_all add: observer_def sample_observer_def sample_world_def backend_down_def Let_def)
  have "FLAGS_monitor default_flags = []" by (simp add: default_flags_def)
  from status_follows_server [OF s(1) new fs_ok_empty sample_server_fs sample_server_alone refl this obs(1) _ _ obs(2),
      of "new_ctl (sv_fs s)" "new_ctl (sv_fs (backend_down sample_server_env s))"] s
  show ?thesis by (simp add: new_ctl_def)
qed

end
